theory Spec2Isabelle
  imports Main "HOL-Library.AList" "HOL-Library.Sublist"
begin

section \<open>Common data\<close>

text \<open>
  JavaScript \<open>Map\<close> objects are association lists with distinct keys, kept in insertion
  order: \<open>map_of\<close> is \<open>Map.get\<close>, \<open>AList.update\<close> is \<open>Map.set\<close> (an existing key keeps
  its place, a new key goes to the end), \<open>AList.delete\<close> is \<open>Map.delete\<close> and \<open>length\<close> is
  \<open>Map.size\<close>. A \<open>Set\<close> of functions is a list without repetition in insertion order; a
  function is identified by a number (its object identity).
\<close>

type_synonym handler = nat

text \<open>A number as a template string prints it.\<close>

fun show_nat :: "nat \<Rightarrow> string" where
  "show_nat n =
     (if n < 10 then [''0123456789'' ! n]
      else show_nat (n div 10) @ [''0123456789'' ! (n mod 10)])"

declare show_nat.simps [simp del]

definition set_add :: "'a \<Rightarrow> 'a list \<Rightarrow> 'a list" where
  "set_add x xs = (if x \<in> set xs then xs else xs @ [x])"

definition set_delete :: "'a \<Rightarrow> 'a list \<Rightarrow> 'a list" where
  "set_delete x xs = filter (\<lambda>y. y \<noteq> x) xs"

section \<open>Event emitter (\<open>eventUtils.createEventEmitter\<close>)\<close>

type_synonym emitter = "(string \<times> handler list) list"

definition emitter_on :: "string \<Rightarrow> handler \<Rightarrow> emitter \<Rightarrow> emitter" where
  "emitter_on event h ls =
     (let ls1 = (if map_of ls event = None then AList.update event [] ls else ls)
      in case map_of ls1 event of
           None \<Rightarrow> ls1
         | Some hs \<Rightarrow> AList.update event (set_add h hs) ls1)"

definition emitter_off :: "string \<Rightarrow> handler \<Rightarrow> emitter \<Rightarrow> emitter" where
  "emitter_off event h ls =
     (case map_of ls event of
        None \<Rightarrow> ls
      | Some hs \<Rightarrow>
          (let hs1 = set_delete h hs
           in if length hs1 = 0 then AList.delete event ls
              else AList.update event hs1 ls))"

text \<open>
  \<open>emit\<close> calls every handler of the event, in insertion order, each inside its own
  \<open>try\<close>/\<open>catch\<close>; the model returns the handlers called, in order.
\<close>

definition emitter_emit :: "string \<Rightarrow> emitter \<Rightarrow> handler list" where
  "emitter_emit event ls = (case map_of ls event of None \<Rightarrow> [] | Some hs \<Rightarrow> hs)"

definition emitter_clear :: "emitter \<Rightarrow> emitter" where
  "emitter_clear ls = []"

section \<open>Event manager (\<open>PhoenixEventManager\<close>)\<close>

record event_manager =
  em_emitter :: emitter
  em_maxListenersPerEvent :: nat
  em_listenerCounts :: "(string \<times> nat) list"
  em_warnings :: "string list"

definition new_event_manager :: event_manager where
  "new_event_manager =
     \<lparr> em_emitter = [], em_maxListenersPerEvent = 20, em_listenerCounts = [],
       em_warnings = [] \<rparr>"

text \<open>\<open>this.listenerCounts.get(event) || 0\<close>\<close>

definition currentCount :: "string \<Rightarrow> event_manager \<Rightarrow> nat" where
  "currentCount event m = (case map_of (em_listenerCounts m) event of None \<Rightarrow> 0 | Some c \<Rightarrow> c)"

definition em_on :: "string \<Rightarrow> handler \<Rightarrow> event_manager \<Rightarrow> event_manager" where
  "em_on event h m =
     (if currentCount event m \<ge> em_maxListenersPerEvent m
      then m\<lparr> em_warnings := em_warnings m @ [''Maximum listeners exceeded for event''] \<rparr>
      else m\<lparr> em_emitter := emitter_on event h (em_emitter m),
              em_listenerCounts :=
                AList.update event (currentCount event m + 1) (em_listenerCounts m) \<rparr>)"

definition em_off :: "string \<Rightarrow> handler \<Rightarrow> event_manager \<Rightarrow> event_manager" where
  "em_off event h m =
     (let m1 = m\<lparr> em_emitter := emitter_off event h (em_emitter m) \<rparr>
      in if currentCount event m1 > 0
         then m1\<lparr> em_listenerCounts :=
                     AList.update event (currentCount event m1 - 1) (em_listenerCounts m1) \<rparr>
         else m1)"

definition em_emit :: "string \<Rightarrow> event_manager \<Rightarrow> handler list" where
  "em_emit event m = emitter_emit event (em_emitter m)"

definition em_clear :: "event_manager \<Rightarrow> event_manager" where
  "em_clear m = m\<lparr> em_emitter := emitter_clear (em_emitter m), em_listenerCounts := [] \<rparr>"

record event_stats =
  es_totalListeners :: nat
  es_maxListenersPerEvent :: nat
  es_eventsWithListeners :: nat

definition em_getResourceStats :: "event_manager \<Rightarrow> event_stats" where
  "em_getResourceStats m =
     \<lparr> es_totalListeners = sum_list (map snd (em_listenerCounts m)),
       es_maxListenersPerEvent = em_maxListenersPerEvent m,
       es_eventsWithListeners = length (em_listenerCounts m) \<rparr>"

text \<open>The distinct handlers the emitter holds, over all events.\<close>

definition registered_handlers :: "event_manager \<Rightarrow> nat" where
  "registered_handlers m = sum_list (map (\<lambda>(e, hs). length hs) (em_emitter m))"

section \<open>Connection manager (\<open>PhoenixConnectionManager\<close>)\<close>

subsection \<open>Data\<close>

datatype conn_status = Disconnected | Connecting | Connected | Reconnecting | ErrorStatus

text \<open>An \<open>Error\<close> object: its message and the \<open>code\<close> that \<open>errorUtils.createError\<close> attaches.\<close>

datatype js_error = JsError (message: string) (code: "string option")

definition createError :: "string \<Rightarrow> string option \<Rightarrow> js_error" where
  "createError msg c = JsError msg c"

text \<open>
  What a transport may hand to the error callback (\<open>error: any\<close>): an \<open>Error\<close> object, a
  string, or nothing.
\<close>

datatype js_value = JsErr js_error | JsStr string | JsUndefined

text \<open>
  \<open>ConnectionParams\<close>: the fields the manager reads. An absent key and \<open>null\<close> are both
  \<open>None\<close>; objects of parameters are association lists.
\<close>

record ConnectionParams =
  endpoint :: "string option"
  params :: "(string \<times> string) list option"

record PhoenixConfig =
  url :: "string option"
  authParams :: "(string \<times> string) list option"
  useLongPoll :: bool
  disableLongPollFallback :: bool

record PhoenixEnv =
  EDGE_URL :: "string option"
  SOCKET_EDGE_URL :: "string option"

text \<open>\<open>Partial<PhoenixConfig>\<close>: \<open>None\<close> is an absent key.\<close>

record config_update =
  upd_url :: "string option option"
  upd_authParams :: "(string \<times> string) list option option"
  upd_useLongPoll :: "bool option"
  upd_disableLongPollFallback :: "bool option"

definition no_update :: config_update where
  "no_update = \<lparr> upd_url = None, upd_authParams = None, upd_useLongPoll = None,
                  upd_disableLongPollFallback = None \<rparr>"

datatype transport = LongPoll | WebSocket

text \<open>What \<open>new Socket(url, opts)\<close> was given.\<close>

record socket_info =
  sock_url :: string
  sock_params :: "(string \<times> string) list"
  sock_transport :: transport

text \<open>
  The one closure both recovery paths hand to \<open>setTimeout\<close>:
  \<open>if (this.connectionParams) this.connect(this.connectionParams)\<close>.
\<close>

datatype timer_action = ReconnectStored

text \<open>
  The manager's fields, followed by the environment it acts on: the clock (\<open>Date.now()\<close>),
  session storage, the transports constructed so far (a socket handle is its index in
  \<open>sockets\<close>), the calls of \<open>socket.disconnect\<close>, the pending timers with their due
  times, the states passed to \<open>onStateChange\<close>, the events given to
  \<open>phoenixEventManager.emit\<close> (name and context) and the console warnings.
\<close>

record connection_manager =
  socket :: "nat option"
  status :: conn_status
  lastConnected :: "int option"
  lastDisconnected :: "int option"
  reconnectAttempts :: nat
  error :: "js_value option"
  connectionParams :: "ConnectionParams option"
  config :: PhoenixConfig
  env :: PhoenixEnv
  lastReconnectTime :: int
  reconnectThrottleMs :: int
  clock :: int
  storage_available :: bool
  stored_config :: "PhoenixConfig option"
  stored_params :: "ConnectionParams option"
  sockets :: "socket_info list"
  disconnect_calls :: "(nat \<times> string) list"
  timers :: "(int \<times> timer_action) list"
  transitions :: "conn_status list"
  emitted :: "(string \<times> string) list"
  warnings :: "string list"

definition EV_CONNECT :: string where "EV_CONNECT = ''phoenix_connect''"
definition EV_DISCONNECT :: string where "EV_DISCONNECT = ''phoenix_disconnect''"
definition EV_ERROR :: string where "EV_ERROR = ''phoenix_error''"
definition EV_RECONNECT :: string where "EV_RECONNECT = ''phoenix_reconnect''"
definition EV_CHANNEL_JOIN :: string where "EV_CHANNEL_JOIN = ''phoenix_channel_join''"
definition EV_CHANNEL_LEAVE :: string where "EV_CHANNEL_LEAVE = ''phoenix_channel_leave''"
definition EV_CHANNEL_ERROR :: string where "EV_CHANNEL_ERROR = ''phoenix_channel_error''"

definition new_connection_manager ::
  "PhoenixEnv \<Rightarrow> PhoenixConfig \<Rightarrow> bool \<Rightarrow> int \<Rightarrow> connection_manager" where
  "new_connection_manager e c avail now =
     \<lparr> socket = None, status = Disconnected, lastConnected = None, lastDisconnected = None,
       reconnectAttempts = 0, error = None, connectionParams = None, config = c, env = e,
       lastReconnectTime = 0, reconnectThrottleMs = 5000, clock = now,
       storage_available = avail, stored_config = None, stored_params = None,
       sockets = [], disconnect_calls = [], timers = [], transitions = [], emitted = [],
       warnings = [] \<rparr>"

subsection \<open>JavaScript helpers\<close>

text \<open>Truthiness of an optional string: absent, \<open>null\<close> and \<open>''\<close> are falsy.\<close>

definition truthy :: "string option \<Rightarrow> bool" where
  "truthy x = (case x of None \<Rightarrow> False | Some s \<Rightarrow> s \<noteq> [])"

text \<open>\<open>a || b\<close> on optional strings, and the string a truthy value is.\<close>

definition or_else :: "string option \<Rightarrow> string option \<Rightarrow> string option" where
  "or_else a b = (if truthy a then a else b)"

definition str_of :: "string option \<Rightarrow> string" where
  "str_of x = (case x of None \<Rightarrow> [] | Some s \<Rightarrow> s)"

text \<open>\<open>{...a, ...b}\<close> on objects of parameters.\<close>

definition spread :: "(string \<times> string) list \<Rightarrow> (string \<times> string) list \<Rightarrow> (string \<times> string) list" where
  "spread a b = fold (\<lambda>(k, v). AList.update k v) b a"

definition or_empty :: "(string \<times> string) list option \<Rightarrow> (string \<times> string) list" where
  "or_empty x = (case x of None \<Rightarrow> [] | Some kv \<Rightarrow> kv)"

text \<open>\<open>String.prototype.includes\<close>\<close>

fun str_includes :: "string \<Rightarrow> string \<Rightarrow> bool" where
  "str_includes [] sub = (sub = [])"
| "str_includes (c # cs) sub = (prefix sub (c # cs) \<or> str_includes cs sub)"

text \<open>\<open>error?.message || error?.toString() || 'Unknown error'\<close>\<close>

fun errorMessage :: "js_value \<Rightarrow> string" where
  "errorMessage (JsErr e) = (if message e \<noteq> [] then message e else ''Error'')"
| "errorMessage (JsStr s) = (if s \<noteq> [] then s else ''Unknown error'')"
| "errorMessage JsUndefined = ''Unknown error''"

text \<open>\<open>replace(/^https?/, 'wss')\<close>, \<open>replace(/\/api\/v1$/, '')\<close> and \<open>replace(/\/$/, '')\<close>\<close>

definition replace_scheme :: "string \<Rightarrow> string" where
  "replace_scheme u =
     (if prefix ''https'' u then ''wss'' @ drop 5 u
      else if prefix ''http'' u then ''wss'' @ drop 4 u
      else u)"

definition strip_suffix :: "string \<Rightarrow> string \<Rightarrow> string" where
  "strip_suffix suf u = (if suffix suf u then take (length u - length suf) u else u)"

subsection \<open>Storage (\<open>phoenixStorage\<close>)\<close>

text \<open>
  \<open>storageUtils.sessionStorage\<close> does nothing and reads the default when there is no
  \<open>window.sessionStorage\<close>. \<open>saveConnectionParams\<close> writes \<open>endpoint || null\<close> and
  \<open>params || null\<close>.
\<close>

definition saveConnectionParams :: "ConnectionParams \<Rightarrow> connection_manager \<Rightarrow> connection_manager" where
  "saveConnectionParams p s =
     (if storage_available s
      then s\<lparr> stored_params :=
                 Some \<lparr> endpoint = (if truthy (endpoint p) then endpoint p else None),
                        params = params p \<rparr> \<rparr>
      else s)"

definition loadConnectionParams :: "connection_manager \<Rightarrow> ConnectionParams option" where
  "loadConnectionParams s = (if storage_available s then stored_params s else None)"

definition clearConnectionParams :: "connection_manager \<Rightarrow> connection_manager" where
  "clearConnectionParams s = (if storage_available s then s\<lparr> stored_params := None \<rparr> else s)"

definition saveConfig :: "PhoenixConfig \<Rightarrow> connection_manager \<Rightarrow> connection_manager" where
  "saveConfig c s = (if storage_available s then s\<lparr> stored_config := Some c \<rparr> else s)"

subsection \<open>Operations\<close>

definition emit :: "string \<Rightarrow> string \<Rightarrow> connection_manager \<Rightarrow> connection_manager" where
  "emit event ctx s = s\<lparr> emitted := emitted s @ [(event, ctx)] \<rparr>"

definition warn :: "string \<Rightarrow> connection_manager \<Rightarrow> connection_manager" where
  "warn msg s = s\<lparr> warnings := warnings s @ [msg] \<rparr>"

text \<open>
  \<open>updateState(updates)\<close>: the updates are a function on the fields; the new state is then
  passed to \<open>onStateChange\<close>.
\<close>

definition updateState ::
  "(connection_manager \<Rightarrow> connection_manager) \<Rightarrow> connection_manager \<Rightarrow> connection_manager" where
  "updateState updates s = (let s1 = updates s in s1\<lparr> transitions := transitions s1 @ [status s1] \<rparr>)"

definition isConnected :: "bool \<Rightarrow> connection_manager \<Rightarrow> bool" where
  "isConnected transport_connected s =
     ((socket s \<noteq> None \<and> transport_connected) \<and> status s = Connected)"

definition canConnect :: "connection_manager \<Rightarrow> bool" where
  "canConnect s = (status s = Disconnected \<or> status s = ErrorStatus)"

definition mergeConnectionParams :: "ConnectionParams \<Rightarrow> connection_manager \<Rightarrow> ConnectionParams" where
  "mergeConnectionParams p s =
     (let previous = (case loadConnectionParams s of
                        None \<Rightarrow> \<lparr> endpoint = None, params = None \<rparr>
                      | Some st \<Rightarrow> st);
          mergedParams = spread (or_empty (params previous)) (or_empty (params p))
      in \<lparr> endpoint = (case endpoint p of None \<Rightarrow> endpoint previous | Some e \<Rightarrow> Some e),
           params = Some mergedParams \<rparr>)"

definition buildSocketUrl :: "ConnectionParams \<Rightarrow> connection_manager \<Rightarrow> js_error + string" where
  "buildSocketUrl p s =
     (if truthy (endpoint p) then Inr (str_of (endpoint p))
      else if truthy (url (config s)) then Inr (str_of (url (config s)))
      else let baseUrl = or_else (EDGE_URL (env s)) (SOCKET_EDGE_URL (env s))
           in if \<not> truthy baseUrl then Inl (createError ''No WebSocket URL configured'' None)
              else Inr (strip_suffix ''/'' (strip_suffix ''/api/v1'' (replace_scheme (str_of baseUrl)))
                        @ ''/socket''))"

definition buildSocketParams :: "ConnectionParams \<Rightarrow> connection_manager \<Rightarrow> (string \<times> string) list" where
  "buildSocketParams p s = spread (or_empty (authParams (config s))) (or_empty (params p))"

text \<open>
  \<open>createSocket\<close>: \<open>new Socket\<close> is the transport's constructor; \<open>ctor\<close> is the error it
  throws, if it throws. The new handle is stored in \<open>this.socket\<close> by the caller.
\<close>

definition createSocket ::
  "js_error option \<Rightarrow> string \<Rightarrow> (string \<times> string) list \<Rightarrow> connection_manager
     \<Rightarrow> js_error + (nat \<times> connection_manager)" where
  "createSocket ctor u ps s =
     (case ctor of
        Some e \<Rightarrow> Inl e
      | None \<Rightarrow>
          Inr (length (sockets s),
               s\<lparr> sockets := sockets s @
                     [\<lparr> sock_url = u, sock_params = ps,
                        sock_transport = (if useLongPoll (config s) then LongPoll else WebSocket) \<rparr>] \<rparr>))"

definition handleConnectionError :: "js_error \<Rightarrow> connection_manager \<Rightarrow> connection_manager" where
  "handleConnectionError e s =
     emit EV_ERROR ''connection''
       (updateState (\<lambda>t. t\<lparr> status := ErrorStatus, error := Some (JsErr e),
                             reconnectAttempts := reconnectAttempts s + 1 \<rparr>) s)"

text \<open>
  \<open>connect\<close> up to its \<open>await\<close>: the call returns at once (the guard), fails inside the
  \<open>try\<close> (the \<open>catch\<close> has run), or is suspended in \<open>waitForConnection\<close>.
\<close>

datatype connect_step = Returned "nat option" | Thrown js_error | Waiting

definition connect_begin ::
  "js_error option \<Rightarrow> ConnectionParams \<Rightarrow> connection_manager \<Rightarrow> connect_step \<times> connection_manager" where
  "connect_begin ctor p s =
     (if \<not> canConnect s then (Returned (socket s), s)
      else
        let s1 = updateState (\<lambda>t. t\<lparr> status := Connecting, error := None \<rparr>) s;
            effectiveParams = mergeConnectionParams p s1
        in case buildSocketUrl effectiveParams s1 of
             Inl e \<Rightarrow> (Thrown e, handleConnectionError e s1)
           | Inr socketUrl \<Rightarrow>
               (case createSocket ctor socketUrl (buildSocketParams effectiveParams s1) s1 of
                  Inl e \<Rightarrow> (Thrown e, handleConnectionError e s1)
                | Inr (h, s2) \<Rightarrow>
                    (Waiting,
                     saveConnectionParams effectiveParams
                       (s2\<lparr> socket := Some h, connectionParams := Some effectiveParams \<rparr>))))"

subsubsection \<open>\<open>waitForConnection\<close>\<close>

definition maxAttempts :: nat where "maxAttempts = 100"
definition checkInterval :: nat where "checkInterval = 50"
definition connectTimeoutMs :: nat where "connectTimeoutMs = 10000"

datatype wait_result = Resolved | Rejected js_error

text \<open>
  The polling loop under timers that fire when due. \<open>obs k\<close> is what
  \<open>this.socket?.isConnected()\<close> answers at the \<open>k\<close>-th check, which runs
  \<open>(k - 1) * checkInterval\<close> ms after the start. The timeout timer was set first, so it wins
  against a check due at the same time. The result comes with the time at which the promise
  settles, in ms after the start.
\<close>

function checkConnection :: "(nat \<Rightarrow> bool) \<Rightarrow> nat \<Rightarrow> wait_result \<times> nat" where
  "checkConnection obs attempts =
     (if connectTimeoutMs \<le> attempts * checkInterval
      then (Rejected (JsError ''Connection timeout'' None), connectTimeoutMs)
      else if attempts + 1 \<ge> maxAttempts
      then (Rejected (JsError ''Connection check limit exceeded'' None), attempts * checkInterval)
      else if obs (attempts + 1) then (Resolved, attempts * checkInterval)
      else checkConnection obs (attempts + 1))"
  by pat_completeness auto
termination
  by (relation "measure (\<lambda>(obs, attempts). maxAttempts - attempts)") auto

declare checkConnection.simps [simp del]

definition waitForConnection :: "bool \<Rightarrow> (nat \<Rightarrow> bool) \<Rightarrow> wait_result \<times> nat" where
  "waitForConnection has_socket obs =
     (if \<not> has_socket then (Rejected (JsError ''Socket not initialized'' None), 0)
      else checkConnection obs 0)"

text \<open>\<open>connect\<close> after its \<open>await\<close>: the result of the wait resolves or rejects the call.\<close>

definition connect_settle ::
  "wait_result \<Rightarrow> connection_manager \<Rightarrow> (js_error + nat option) \<times> connection_manager" where
  "connect_settle r s =
     (case r of
        Resolved \<Rightarrow> (Inr (socket s), s)
      | Rejected e \<Rightarrow> (Inl e, handleConnectionError e s))"

text \<open>A whole \<open>connect\<close> call with nothing else running during its wait.\<close>

definition connect ::
  "js_error option \<Rightarrow> (nat \<Rightarrow> bool) \<Rightarrow> ConnectionParams \<Rightarrow> connection_manager
     \<Rightarrow> (js_error + nat option) \<times> connection_manager" where
  "connect ctor obs p s =
     (case connect_begin ctor p s of
        (Returned h, s1) \<Rightarrow> (Inr h, s1)
      | (Thrown e, s1) \<Rightarrow> (Inl e, s1)
      | (Waiting, s1) \<Rightarrow>
          connect_settle (fst (waitForConnection (socket s1 \<noteq> None) obs))
            (s1\<lparr> clock := clock s1 + int (snd (waitForConnection (socket s1 \<noteq> None) obs)) \<rparr>))"

text \<open>
  \<open>disconnect\<close>: the transport's \<open>socket.disconnect\<close> is taken not to throw (the \<open>catch\<close>
  around it only logs a warning and the method goes on in the same way).
\<close>

definition disconnect :: "string option \<Rightarrow> connection_manager \<Rightarrow> connection_manager" where
  "disconnect reason s =
     (case socket s of
        None \<Rightarrow> s
      | Some h \<Rightarrow>
          updateState (\<lambda>t. t\<lparr> status := Disconnected, lastDisconnected := Some (clock s) \<rparr>)
            (s\<lparr> disconnect_calls := disconnect_calls s @
                   [(h, str_of (or_else reason (Some ''Client disconnect'')))],
                socket := None \<rparr>))"

definition forceReconnect :: "connection_manager \<Rightarrow> connection_manager" where
  "forceReconnect s =
     (let now = clock s
      in if now - lastReconnectTime s < reconnectThrottleMs s
         then warn ''Force reconnect throttled - too frequent'' s
         else
           let s1 = disconnect (Some ''Force reconnect'') (s\<lparr> lastReconnectTime := now \<rparr>);
               s2 = s1\<lparr> reconnectAttempts := 0 \<rparr>
           in s2\<lparr> timers := timers s2 @ [(clock s2 + 1000, ReconnectStored)] \<rparr>)"

definition reset :: "connection_manager \<Rightarrow> connection_manager" where
  "reset s =
     clearConnectionParams
       ((disconnect (Some ''Reset'') s)
          \<lparr> status := Disconnected, reconnectAttempts := 0, lastConnected := None,
            lastDisconnected := None, error := None, connectionParams := None \<rparr>)"

definition updateConfig :: "config_update \<Rightarrow> connection_manager \<Rightarrow> connection_manager" where
  "updateConfig u s =
     (let c = config s;
          c1 = \<lparr> url = (case upd_url u of None \<Rightarrow> url c | Some v \<Rightarrow> v),
                 authParams = (case upd_authParams u of None \<Rightarrow> authParams c | Some v \<Rightarrow> v),
                 useLongPoll = (case upd_useLongPoll u of None \<Rightarrow> useLongPoll c | Some v \<Rightarrow> v),
                 disableLongPollFallback =
                   (case upd_disableLongPollFallback u of
                      None \<Rightarrow> disableLongPollFallback c | Some v \<Rightarrow> v) \<rparr>
      in saveConfig c1 (s\<lparr> config := c1 \<rparr>))"

text \<open>The timer callback of both recovery paths.\<close>

definition run_timer ::
  "js_error option \<Rightarrow> timer_action \<Rightarrow> connection_manager \<Rightarrow> connect_step option \<times> connection_manager" where
  "run_timer ctor a s =
     (case a of
        ReconnectStored \<Rightarrow>
          (case connectionParams s of
             None \<Rightarrow> (None, s)
           | Some p \<Rightarrow> (Some (fst (connect_begin ctor p s)), snd (connect_begin ctor p s))))"

subsubsection \<open>Socket handlers (\<open>setupSocketHandlers\<close>)\<close>

definition socket_onOpen :: "connection_manager \<Rightarrow> connection_manager" where
  "socket_onOpen s =
     (let wasReconnecting = (status s = Reconnecting);
          s1 = updateState (\<lambda>t. t\<lparr> status := Connected, lastConnected := Some (clock s),
                                    reconnectAttempts := 0, error := None \<rparr>) s
      in emit (if wasReconnecting then EV_RECONNECT else EV_CONNECT) [] s1)"

definition socket_onClose :: "connection_manager \<Rightarrow> connection_manager" where
  "socket_onClose s =
     (let s1 = (if status s = Connected
                then updateState (\<lambda>t. t\<lparr> status := Reconnecting,
                                          lastDisconnected := Some (clock s) \<rparr>) s
                else if status s = Connecting
                then updateState (\<lambda>t. t\<lparr> status := Disconnected,
                                          lastDisconnected := Some (clock s) \<rparr>) s
                else s)
      in emit EV_DISCONNECT ''Socket closed'' s1)"

definition handlePollStatusError :: "js_value \<Rightarrow> connection_manager \<Rightarrow> connection_manager" where
  "handlePollStatusError err s =
     (let s1 = warn ''Poll status error detected, attempting recovery...'' s;
          s2 = updateConfig (no_update\<lparr> upd_useLongPoll := Some False \<rparr>) s1;
          s3 = updateState (\<lambda>t. t\<lparr> status := Reconnecting \<rparr>) s2;
          s4 = disconnect (Some ''Poll status recovery'') s3;
          s5 = s4\<lparr> socket := None \<rparr>
      in s5\<lparr> timers := timers s5 @ [(clock s5 + 2000, ReconnectStored)] \<rparr>)"

definition handleSocketError :: "js_value \<Rightarrow> connection_manager \<Rightarrow> connection_manager" where
  "handleSocketError err s =
     (if str_includes (errorMessage err) ''unhandled poll status''
      then handlePollStatusError err s
      else
        let s1 = (if status s \<noteq> Reconnecting
                  then updateState (\<lambda>t. t\<lparr> status := ErrorStatus, error := Some err \<rparr>) s
                  else s)
        in emit EV_ERROR ''socket'' s1)"

definition socket_onError :: "js_value \<Rightarrow> connection_manager \<Rightarrow> connection_manager" where
  "socket_onError err s = handleSocketError err s"

section \<open>Channel manager (\<open>PhoenixChannelManager\<close>)\<close>

subsection \<open>Data\<close>

datatype chan_status = ChDisconnected | ChJoining | ChJoined | ChError

record ChannelState =
  cs_topic :: string
  cs_status :: chan_status
  cs_error :: "js_value option"
  cs_lastJoined :: "int option"
  cs_lastLeft :: "int option"
  messageCount :: nat

text \<open>
  A channel object of the transport, as far as the manager touches it: the \<open>state\<close>
  property (written by the transport only), the \<open>_channelManagerHandlers\<close> flag, the
  callbacks given to \<open>onError\<close> and \<open>onClose\<close> (counted), whether \<open>join\<close> was called
  (the transport's \<open>joinedOnce\<close>), the calls of \<open>leave\<close>, the messages given to \<open>push\<close>,
  and the bindings made with \<open>on\<close>: event, number and callback, the number taken from the
  counter \<open>bindingRef\<close>.
\<close>

record channel_obj =
  ch_topic :: string
  ch_params :: "(string \<times> string) list"
  ch_state :: string
  ch_handlersFlag :: bool
  ch_onError :: nat
  ch_onClose :: nat
  ch_joinedOnce :: bool
  ch_leaves :: nat
  ch_pushes :: "(string \<times> string) list"
  ch_bindings :: "(string \<times> nat \<times> handler) list"
  ch_bindingRef :: nat

text \<open>
  The manager's fields, followed by the environment: the channel objects the socket has
  created (a channel handle is its index in \<open>chans\<close>), the clock, the events given to
  \<open>phoenixEventManager.emit\<close> (name and topic) and the console warnings.
\<close>

record channel_manager =
  cm_socket :: "nat option"
  channels :: "(string \<times> nat) list"
  channelStates :: "(string \<times> ChannelState) list"
  messageListeners :: "(string \<times> (string \<times> handler list) list) list"
  maxChannels :: nat
  maxListenersPerEvent :: nat
  chans :: "channel_obj list"
  cm_clock :: int
  cm_emitted :: "(string \<times> string) list"
  cm_warnings :: "string list"

definition new_channel_manager :: "nat option \<Rightarrow> int \<Rightarrow> channel_manager" where
  "new_channel_manager sock now =
     \<lparr> cm_socket = sock, channels = [], channelStates = [], messageListeners = [],
       maxChannels = 50, maxListenersPerEvent = 10, chans = [], cm_clock = now,
       cm_emitted = [], cm_warnings = [] \<rparr>"

subsection \<open>Transport channel objects\<close>

definition upd_chan :: "nat \<Rightarrow> (channel_obj \<Rightarrow> channel_obj) \<Rightarrow> channel_manager \<Rightarrow> channel_manager" where
  "upd_chan c f s = (if c < length (chans s) then s\<lparr> chans := (chans s)[c := f (chans s ! c)] \<rparr> else s)"

text \<open>\<open>channel.state\<close>; \<open>None\<close> for a handle the socket never gave out.\<close>

definition chan_state :: "nat \<Rightarrow> channel_manager \<Rightarrow> string option" where
  "chan_state c s = (if c < length (chans s) then Some (ch_state (chans s ! c)) else None)"

text \<open>
  The channel objects are those of the \<open>phoenix\<close> package (\<open>Socket.channel\<close> and the class
  \<open>Channel\<close>), from which the connection manager builds the socket. What the channel
  manager calls is modelled as the package does it: \<open>socket.channel\<close> constructs a
  channel object in state \<open>closed\<close> and does not throw; \<open>join\<close> throws when it was called before on the same object, and otherwise
  sets \<open>joinedOnce\<close>, moves the state to \<open>joining\<close> and sends the join; \<open>push\<close> throws on
  an object whose \<open>join\<close> was never called, and otherwise takes the message (it is sent at
  once, or when the join is acknowledged); \<open>on(event, callback)\<close> appends a binding and
  returns its number; \<open>off(event, ref)\<close> removes the bindings of the event whose number is
  \<open>ref\<close>, and all bindings of the event when \<open>ref\<close> is undefined. Of the bindings only
  those made through the manager's \<open>onMessage\<close> are kept, numbered by a counter of their
  own; \<open>leave\<close> is taken not to throw.
\<close>

definition socket_channel ::
  "string \<Rightarrow> (string \<times> string) list \<Rightarrow> channel_manager \<Rightarrow> nat \<times> channel_manager" where
  "socket_channel topic ps s =
     (length (chans s),
      s\<lparr> chans := chans s @
            [\<lparr> ch_topic = topic, ch_params = ps, ch_state = ''closed'', ch_handlersFlag = False,
               ch_onError = 0, ch_onClose = 0, ch_joinedOnce = False, ch_leaves = 0,
               ch_pushes = [], ch_bindings = [], ch_bindingRef = 0 \<rparr>] \<rparr>)"

text \<open>The errors the transport throws from \<open>join\<close> and \<open>push\<close>; \<open>apostrophe\<close> is the quote sign.\<close>

definition apostrophe :: string where
  "apostrophe = [CHR 0x27]"

definition join_twice_error :: js_error where
  "join_twice_error =
     JsError (''tried to join multiple times. '' @ apostrophe @ ''join'' @ apostrophe
              @ '' can only be called a single time per channel instance'') None"

definition push_before_join_error :: "string \<Rightarrow> string \<Rightarrow> js_error" where
  "push_before_join_error event topic =
     JsError (''tried to push '' @ apostrophe @ event @ apostrophe @ '' to ''
              @ apostrophe @ topic @ apostrophe
              @ '' before joining. Use channel.join() before pushing events'') None"

text \<open>\<open>channel.join()\<close> on the channel object with handle \<open>c\<close>.\<close>

definition channel_join :: "nat \<Rightarrow> channel_manager \<Rightarrow> js_error + channel_manager" where
  "channel_join c s =
     (if c < length (chans s) \<and> ch_joinedOnce (chans s ! c) then Inl join_twice_error
      else Inr (upd_chan c (\<lambda>ch. ch\<lparr> ch_joinedOnce := True, ch_state := ''joining'' \<rparr>) s))"

text \<open>\<open>channel.push(event, payload)\<close>\<close>

definition channel_push ::
  "nat \<Rightarrow> string \<Rightarrow> string \<Rightarrow> channel_manager \<Rightarrow> js_error + channel_manager" where
  "channel_push c event payload s =
     (if c < length (chans s) \<and> \<not> ch_joinedOnce (chans s ! c)
      then Inl (push_before_join_error event (ch_topic (chans s ! c)))
      else Inr (upd_chan c (\<lambda>ch. ch\<lparr> ch_pushes := ch_pushes ch @ [(event, payload)] \<rparr>) s))"

text \<open>
  \<open>channel.on(event, callback)\<close> and \<open>channel.off(event, ref)\<close>; what is passed as \<open>ref\<close>
  is nothing, a number or, as the manager does, a function.
\<close>

datatype off_ref = RefUndefined | RefNumber nat | RefFunction handler

definition channel_on :: "string \<Rightarrow> handler \<Rightarrow> channel_obj \<Rightarrow> channel_obj" where
  "channel_on event callback ch =
     ch\<lparr> ch_bindings := ch_bindings ch @ [(event, ch_bindingRef ch, callback)],
        ch_bindingRef := ch_bindingRef ch + 1 \<rparr>"

definition channel_off :: "string \<Rightarrow> off_ref \<Rightarrow> channel_obj \<Rightarrow> channel_obj" where
  "channel_off event ref ch =
     ch\<lparr> ch_bindings :=
           filter (\<lambda>(e, r, cb). \<not> (e = event \<and> (ref = RefUndefined \<or> ref = RefNumber r)))
             (ch_bindings ch) \<rparr>"

text \<open>The transport writes a channel's \<open>state\<close> property.\<close>

definition transport_state :: "nat \<Rightarrow> string \<Rightarrow> channel_manager \<Rightarrow> channel_manager" where
  "transport_state c st s = upd_chan c (\<lambda>ch. ch\<lparr> ch_state := st \<rparr>) s"

text \<open>
  The transport delivers a message of an event on a channel: the callbacks bound to the
  event are called, in binding order.
\<close>

definition deliver :: "nat \<Rightarrow> string \<Rightarrow> channel_manager \<Rightarrow> handler list" where
  "deliver c event s =
     (if c < length (chans s)
      then map (\<lambda>(e, r, cb). cb) (filter (\<lambda>(e, r, cb). e = event) (ch_bindings (chans s ! c)))
      else [])"

subsection \<open>Operations\<close>

definition cm_emit :: "string \<Rightarrow> string \<Rightarrow> channel_manager \<Rightarrow> channel_manager" where
  "cm_emit event topic s = s\<lparr> cm_emitted := cm_emitted s @ [(event, topic)] \<rparr>"

definition cm_warn :: "string \<Rightarrow> channel_manager \<Rightarrow> channel_manager" where
  "cm_warn msg s = s\<lparr> cm_warnings := cm_warnings s @ [msg] \<rparr>"

definition setSocket :: "nat option \<Rightarrow> channel_manager \<Rightarrow> channel_manager" where
  "setSocket sock s = s\<lparr> cm_socket := sock \<rparr>"

definition updateChannelState ::
  "string \<Rightarrow> (ChannelState \<Rightarrow> ChannelState) \<Rightarrow> channel_manager \<Rightarrow> channel_manager" where
  "updateChannelState topic updates s =
     (let currentState =
            (case map_of (channelStates s) topic of
               None \<Rightarrow> \<lparr> cs_topic = topic, cs_status = ChDisconnected, cs_error = None,
                          cs_lastJoined = None, cs_lastLeft = None, messageCount = 0 \<rparr>
             | Some st \<Rightarrow> st)
      in s\<lparr> channelStates := AList.update topic (updates currentState) (channelStates s) \<rparr>)"

definition incrementMessageCount :: "string \<Rightarrow> channel_manager \<Rightarrow> channel_manager" where
  "incrementMessageCount topic s =
     (case map_of (channelStates s) topic of
        None \<Rightarrow> s
      | Some st \<Rightarrow>
          s\<lparr> channelStates :=
                AList.update topic (st\<lparr> messageCount := messageCount st + 1 \<rparr>) (channelStates s) \<rparr>)"

definition setupChannelHandlers :: "string \<Rightarrow> nat \<Rightarrow> channel_manager \<Rightarrow> channel_manager" where
  "setupChannelHandlers topic c s =
     (if c < length (chans s) \<and> ch_handlersFlag (chans s ! c) then s
      else upd_chan c (\<lambda>ch. ch\<lparr> ch_handlersFlag := True, ch_onError := ch_onError ch + 1,
                               ch_onClose := ch_onClose ch + 1 \<rparr>) s)"

text \<open>
  \<open>joinChannel\<close> up to its \<open>await\<close>: it throws before the \<open>try\<close>, returns the joined channel
  at once, or goes into the \<open>try\<close>, where it calls \<open>channel.join()\<close>: when that throws, the
  promise of \<open>performChannelJoin\<close> is rejected at once and the \<open>catch\<close> runs (status
  \<open>error\<close>, the channel error event, the error thrown on); otherwise the call waits for the
  acknowledgment. In \<open>JThrown\<close> the call has rejected, with the state the \<open>catch\<close> left when
  it ran.
\<close>

datatype join_step = JThrown js_error | JReturned nat | JPending nat

definition join_failed :: "string \<Rightarrow> js_error \<Rightarrow> channel_manager \<Rightarrow> channel_manager" where
  "join_failed topic e s =
     cm_emit EV_CHANNEL_ERROR topic
       (updateChannelState topic (\<lambda>st. st\<lparr> cs_status := ChError, cs_error := Some (JsErr e) \<rparr>) s)"

definition joinChannel_begin ::
  "string \<Rightarrow> (string \<times> string) list \<Rightarrow> channel_manager \<Rightarrow> join_step \<times> channel_manager" where
  "joinChannel_begin topic ps s =
     (if cm_socket s = None
      then (JThrown (createError ''Socket not connected'' (Some ''SOCKET_NOT_CONNECTED'')), s)
      else if length (channels s) \<ge> maxChannels s
      then (JThrown (createError (''Maximum channels limit ('' @ show_nat (maxChannels s)
                                  @ '') exceeded'') (Some ''MAX_CHANNELS_EXCEEDED'')), s)
      else
        let existingChannel = map_of (channels s) topic
        in case (case existingChannel of
                   None \<Rightarrow> None
                 | Some c \<Rightarrow> if chan_state c s = Some ''joined'' then Some c else None) of
             Some c \<Rightarrow> (JReturned c, s)
           | None \<Rightarrow>
               let s1 = updateChannelState topic (\<lambda>st. st\<lparr> cs_status := ChJoining \<rparr>) s;
                   (c, s2) = (case existingChannel of
                                Some c \<Rightarrow> (c, s1)
                              | None \<Rightarrow> socket_channel topic ps s1);
                   s3 = s2\<lparr> channels := AList.update topic c (channels s2) \<rparr>;
                   s4 = setupChannelHandlers topic c s3
               in case channel_join c s4 of
                    Inl e \<Rightarrow> (JThrown e, join_failed topic e s4)
                  | Inr s5 \<Rightarrow> (JPending c, s5))"

text \<open>
  What settles a join: the transport's \<open>ok\<close>, \<open>error\<close> or \<open>timeout\<close> (the manager's own
  10 s timer rejects with the same error as \<open>timeout\<close>).
\<close>

datatype join_ack = JoinOk string | JoinError string | JoinTimeout

definition joinChannel_settle ::
  "string \<Rightarrow> nat \<Rightarrow> join_ack \<Rightarrow> channel_manager \<Rightarrow> (js_error + nat) \<times> channel_manager" where
  "joinChannel_settle topic c ack s =
     (case ack of
        JoinOk response \<Rightarrow>
          (Inr c,
           cm_emit EV_CHANNEL_JOIN topic
             (updateChannelState topic
                (\<lambda>st. st\<lparr> cs_status := ChJoined, cs_lastJoined := Some (cm_clock s),
                           cs_error := None \<rparr>) s))
      | JoinError err \<Rightarrow>
          (let e = createError (''Channel join failed: '' @ err) (Some ''JOIN_ERROR'')
           in (Inl e, join_failed topic e s))
      | JoinTimeout \<Rightarrow>
          (let e = createError ''Channel join timeout'' (Some ''JOIN_TIMEOUT'')
           in (Inl e, join_failed topic e s)))"

text \<open>A whole \<open>joinChannel\<close> call with nothing else running while it waits.\<close>

definition joinChannel ::
  "string \<Rightarrow> (string \<times> string) list \<Rightarrow> join_ack \<Rightarrow> channel_manager
     \<Rightarrow> (js_error + nat) \<times> channel_manager" where
  "joinChannel topic ps ack s =
     (case joinChannel_begin topic ps s of
        (JThrown e, s1) \<Rightarrow> (Inl e, s1)
      | (JReturned c, s1) \<Rightarrow> (Inr c, s1)
      | (JPending c, s1) \<Rightarrow> joinChannel_settle topic c ack s1)"

definition leaveChannel :: "string \<Rightarrow> channel_manager \<Rightarrow> channel_manager" where
  "leaveChannel topic s =
     (case map_of (channels s) topic of
        None \<Rightarrow> s
      | Some c \<Rightarrow>
          (let s1 = upd_chan c (\<lambda>ch. ch\<lparr> ch_leaves := ch_leaves ch + 1 \<rparr>) s;
               s2 = s1\<lparr> channels := AList.delete topic (channels s1),
                        messageListeners := AList.delete topic (messageListeners s1) \<rparr>;
               s3 = updateChannelState topic
                      (\<lambda>st. st\<lparr> cs_status := ChDisconnected, cs_lastLeft := Some (cm_clock s) \<rparr>) s2
           in cm_emit EV_CHANNEL_LEAVE topic s3))"

text \<open>
  \<open>sendMessage\<close> up to the acknowledgment: it throws when the topic has no channel; a throw
  of \<open>channel.push\<close> inside the promise rejects the call; otherwise the message is pushed
  and the call waits.
\<close>

datatype send_step = SThrown js_error | SPending nat

definition sendMessage_begin ::
  "string \<Rightarrow> string \<Rightarrow> string \<Rightarrow> channel_manager \<Rightarrow> send_step \<times> channel_manager" where
  "sendMessage_begin topic event payload s =
     (case map_of (channels s) topic of
        None \<Rightarrow> (SThrown (createError (''Channel '' @ topic @ '' not found'') (Some ''CHANNEL_NOT_FOUND'')), s)
      | Some c \<Rightarrow>
          (case channel_push c event payload s of
             Inl e \<Rightarrow> (SThrown e, s)
           | Inr s1 \<Rightarrow> (SPending c, s1)))"

datatype push_ack = PushOk string | PushError string | PushTimeout

definition sendMessage_settle ::
  "string \<Rightarrow> push_ack \<Rightarrow> channel_manager \<Rightarrow> (js_error + string) \<times> channel_manager" where
  "sendMessage_settle topic ack s =
     (case ack of
        PushOk response \<Rightarrow> (Inr response, incrementMessageCount topic s)
      | PushError err \<Rightarrow>
          (Inl (createError (''Message failed: '' @ err) (Some ''MESSAGE_ERROR'')), s)
      | PushTimeout \<Rightarrow> (Inl (createError ''Message timeout'' (Some ''MESSAGE_TIMEOUT'')), s))"

text \<open>A whole \<open>sendMessage\<close> call with nothing else running while it waits.\<close>

definition sendMessage ::
  "string \<Rightarrow> string \<Rightarrow> string \<Rightarrow> push_ack \<Rightarrow> channel_manager
     \<Rightarrow> (js_error + string) \<times> channel_manager" where
  "sendMessage topic event payload ack s =
     (case sendMessage_begin topic event payload s of
        (SThrown e, s1) \<Rightarrow> (Inl e, s1)
      | (SPending c, s1) \<Rightarrow> sendMessage_settle topic ack s1)"

text \<open>\<open>if (!m.has(k)) m.set(k, empty)\<close> and \<open>m.get(k)!\<close> after it.\<close>

definition ensure :: "'k \<Rightarrow> ('k \<times> 'v list) list \<Rightarrow> ('k \<times> 'v list) list" where
  "ensure k al = (if map_of al k = None then AList.update k [] al else al)"

definition entry :: "('k \<times> 'v list) list \<Rightarrow> 'k \<Rightarrow> 'v list" where
  "entry al k = (case map_of al k of None \<Rightarrow> [] | Some v \<Rightarrow> v)"

definition onMessage :: "string \<Rightarrow> string \<Rightarrow> handler \<Rightarrow> channel_manager \<Rightarrow> channel_manager" where
  "onMessage topic event callback s =
     (case map_of (channels s) topic of
        None \<Rightarrow> cm_warn (''[ChannelManager] Channel '' @ topic
                          @ '' not joined, deferring message listener'') s
      | Some c \<Rightarrow>
          (let ml1 = ensure topic (messageListeners s);
               topicListeners = ensure event (entry ml1 topic);
               eventListeners = entry topicListeners event;
               s1 = s\<lparr> messageListeners := AList.update topic topicListeners ml1 \<rparr>
           in if length eventListeners \<ge> maxListenersPerEvent s
              then cm_warn (''[ChannelManager] Maximum listeners (''
                            @ show_nat (maxListenersPerEvent s) @ '') exceeded for ''
                            @ topic @ '':'' @ event) s1
              else if callback \<notin> set eventListeners
              then upd_chan c (channel_on event callback)
                     (s1\<lparr> messageListeners :=
                            AList.update topic
                              (AList.update event (eventListeners @ [callback]) topicListeners) ml1 \<rparr>)
              else s1))"

text \<open>
  \<open>offMessage\<close> passes the callback itself to \<open>channel.off\<close>, where the transport expects
  the number \<open>on\<close> returned.
\<close>

definition offMessage :: "string \<Rightarrow> string \<Rightarrow> handler \<Rightarrow> channel_manager \<Rightarrow> channel_manager" where
  "offMessage topic event callback s =
     (case map_of (messageListeners s) topic of
        None \<Rightarrow> s
      | Some topicListeners \<Rightarrow>
          (case map_of topicListeners event of
             None \<Rightarrow> s
           | Some eventListeners \<Rightarrow>
               (let el1 = set_delete callback eventListeners;
                    s1 = (case map_of (channels s) topic of
                            None \<Rightarrow> s
                          | Some c \<Rightarrow> upd_chan c (channel_off event (RefFunction callback)) s);
                    tl1 = (if length el1 = 0 then AList.delete event topicListeners
                           else AList.update event el1 topicListeners);
                    ml1 = (if length tl1 = 0 then AList.delete topic (messageListeners s1)
                           else AList.update topic tl1 (messageListeners s1))
                in s1\<lparr> messageListeners := ml1 \<rparr>)))"

definition getChannelState :: "string \<Rightarrow> channel_manager \<Rightarrow> ChannelState option" where
  "getChannelState topic s = map_of (channelStates s) topic"

definition isChannelJoined :: "string \<Rightarrow> channel_manager \<Rightarrow> bool" where
  "isChannelJoined topic s =
     (case map_of (channelStates s) topic of None \<Rightarrow> False | Some st \<Rightarrow> cs_status st = ChJoined)"

definition getChannelCount :: "channel_manager \<Rightarrow> nat" where
  "getChannelCount s = length (channels s)"

definition cleanup :: "channel_manager \<Rightarrow> channel_manager" where
  "cleanup s =
     (fold leaveChannel (map fst (channels s)) s)
       \<lparr> channels := [], channelStates := [], messageListeners := [] \<rparr>"

text \<open>
  The callbacks \<open>setupChannelHandlers\<close> gave to \<open>channel.onError\<close> and \<open>channel.onClose\<close>;
  the transport calls every installed one when the channel errors or closes.
\<close>

definition onError_handler :: "string \<Rightarrow> js_value \<Rightarrow> channel_manager \<Rightarrow> channel_manager" where
  "onError_handler topic err s =
     cm_emit EV_CHANNEL_ERROR topic
       (updateChannelState topic (\<lambda>st. st\<lparr> cs_status := ChError, cs_error := Some err \<rparr>) s)"

definition onClose_handler :: "string \<Rightarrow> channel_manager \<Rightarrow> channel_manager" where
  "onClose_handler topic s =
     cm_emit EV_CHANNEL_LEAVE topic
       (updateChannelState topic
          (\<lambda>st. st\<lparr> cs_status := ChDisconnected, cs_lastLeft := Some (cm_clock s) \<rparr>) s)"

definition channel_error :: "nat \<Rightarrow> js_value \<Rightarrow> channel_manager \<Rightarrow> channel_manager" where
  "channel_error c err s =
     (if c < length (chans s)
      then ((onError_handler (ch_topic (chans s ! c)) err) ^^ (ch_onError (chans s ! c))) s
      else s)"

definition channel_close :: "nat \<Rightarrow> channel_manager \<Rightarrow> channel_manager" where
  "channel_close c s =
     (if c < length (chans s)
      then ((onClose_handler (ch_topic (chans s ! c))) ^^ (ch_onClose (chans s ! c))) s
      else s)"

section \<open>The single-class client (\<open>PhoenixClient\<close> of \<open>src/phoenix-client.ts\<close>)\<close>

text \<open>
  The client that holds the socket itself; only what its \<open>connect\<close> reads and writes. The
  environment: session storage, the transports constructed, the calls of
  \<open>socket.disconnect\<close>, the channels left and the events emitted.
\<close>

record legacy_client =
  lc_socket :: "nat option"
  lc_channels :: "(string \<times> nat) list"
  lc_connectionState :: conn_status
  lc_connectionParams :: "ConnectionParams option"
  lc_config :: PhoenixConfig
  lc_env :: PhoenixEnv
  lc_storage_available :: bool
  lc_stored_params :: "ConnectionParams option"
  lc_sockets :: "socket_info list"
  lc_disconnect_calls :: "(nat \<times> string) list"
  lc_channel_leaves :: "nat list"
  lc_emitted :: "string list"

text \<open>\<open>isConnected\<close>: \<open>this.socket?.isConnected() === true\<close>\<close>

definition lc_isConnected :: "bool \<Rightarrow> legacy_client \<Rightarrow> bool" where
  "lc_isConnected transport_connected s = (lc_socket s \<noteq> None \<and> transport_connected)"

definition lc_effectiveOptions :: "ConnectionParams \<Rightarrow> legacy_client \<Rightarrow> ConnectionParams" where
  "lc_effectiveOptions incoming s =
     (let previous = (case lc_connectionParams s of
                        None \<Rightarrow> \<lparr> endpoint = None, params = None \<rparr>
                      | Some cp \<Rightarrow> cp);
          mergedParams = spread (or_empty (params previous)) (or_empty (params incoming))
      in \<lparr> endpoint = (case endpoint incoming of None \<Rightarrow> endpoint previous | Some e \<Rightarrow> Some e),
           params = Some mergedParams \<rparr>)"

definition lc_hasConnectionParamsChanged :: "ConnectionParams \<Rightarrow> legacy_client \<Rightarrow> bool" where
  "lc_hasConnectionParamsChanged options s =
     (case lc_connectionParams s of
        None \<Rightarrow> False
      | Some cp \<Rightarrow>
          (let currentEndpoint = or_else (endpoint cp) (url (lc_config s));
               newEndpoint = endpoint options
           in if truthy newEndpoint \<and> currentEndpoint \<noteq> newEndpoint then True
              else
                let currentParams = or_empty (params cp);
                    newParams = or_empty (params options)
                in list_ex (\<lambda>k. map_of currentParams k \<noteq> map_of newParams k)
                     (map fst currentParams @ map fst newParams)))"

definition lc_disconnect :: "legacy_client \<Rightarrow> legacy_client" where
  "lc_disconnect s =
     (case lc_socket s of
        None \<Rightarrow> s
      | Some h \<Rightarrow>
          s\<lparr> lc_channel_leaves := lc_channel_leaves s @ map snd (lc_channels s),
             lc_channels := [],
             lc_disconnect_calls := lc_disconnect_calls s @ [(h, ''Client disconnect'')],
             lc_socket := None,
             lc_connectionState := Disconnected \<rparr>)"

definition lc_persistConnectionParams :: "legacy_client \<Rightarrow> legacy_client" where
  "lc_persistConnectionParams s =
     (case lc_connectionParams s of
        None \<Rightarrow> s
      | Some cp \<Rightarrow>
          if lc_storage_available s
          then s\<lparr> lc_stored_params :=
                     Some \<lparr> endpoint = (if truthy (endpoint cp) then endpoint cp else None),
                            params = params cp \<rparr> \<rparr>
          else s)"

definition lc_getSocketUrl :: "ConnectionParams \<Rightarrow> legacy_client \<Rightarrow> js_error + string" where
  "lc_getSocketUrl options s =
     (if truthy (endpoint options) then Inr (str_of (endpoint options))
      else if truthy (url (lc_config s)) then Inr (str_of (url (lc_config s)))
      else let baseUrl = or_else (EDGE_URL (lc_env s)) (SOCKET_EDGE_URL (lc_env s))
           in if \<not> truthy baseUrl then Inl (JsError ''No WebSocket URL configured'' None)
              else Inr (strip_suffix ''/'' (strip_suffix ''/api/v1'' (replace_scheme (str_of baseUrl)))
                        @ ''/socket''))"

definition lc_getSocketParams :: "ConnectionParams \<Rightarrow> legacy_client \<Rightarrow> (string \<times> string) list" where
  "lc_getSocketParams options s =
     spread (or_empty (authParams (lc_config s))) (or_empty (params options))"

text \<open>
  \<open>connect\<close> (synchronous). \<open>transport_connected\<close> is what \<open>socket.isConnected()\<close> answers,
  \<open>ctor\<close> the error \<open>new Socket\<close> throws, if it throws.
\<close>

definition lc_connect ::
  "js_error option \<Rightarrow> bool \<Rightarrow> ConnectionParams \<Rightarrow> legacy_client
     \<Rightarrow> (js_error + nat option) \<times> legacy_client" where
  "lc_connect ctor transport_connected options s =
     (let effectiveOptions = lc_effectiveOptions options s
      in if lc_isConnected transport_connected s \<and> \<not> lc_hasConnectionParamsChanged effectiveOptions s
         then (Inr (lc_socket s), s)
         else
           let s1 = (if lc_isConnected transport_connected s then lc_disconnect s else s)
           in if lc_connectionState s1 = Connecting then (Inr (lc_socket s1), s1)
              else
                let s2 = lc_persistConnectionParams
                           (s1\<lparr> lc_connectionState := Connecting,
                                lc_connectionParams := Some effectiveOptions \<rparr>);
                    failed = (\<lambda>e. (Inl e, s2\<lparr> lc_connectionState := ErrorStatus,
                                              lc_emitted := lc_emitted s2 @ [EV_ERROR] \<rparr>))
                in case lc_getSocketUrl effectiveOptions s2 of
                     Inl e \<Rightarrow> failed e
                   | Inr socketUrl \<Rightarrow>
                       (case ctor of
                          Some e \<Rightarrow> failed e
                        | None \<Rightarrow>
                            (Inr (Some (length (lc_sockets s2))),
                             s2\<lparr> lc_sockets := lc_sockets s2 @
                                    [\<lparr> sock_url = socketUrl,
                                       sock_params = lc_getSocketParams effectiveOptions s2,
                                       sock_transport = (if useLongPoll (lc_config s2)
                                                         then LongPoll else WebSocket) \<rparr>],
                                 lc_socket := Some (length (lc_sockets s2)) \<rparr>)))"

text \<open>Time passes.\<close>

definition advance :: "int \<Rightarrow> connection_manager \<Rightarrow> connection_manager" where
  "advance d s = s\<lparr> clock := clock s + d \<rparr>"

section \<open>Concrete states\<close>

text \<open>An event manager on which one handler has been registered 18 times for one event.\<close>

definition em18 :: event_manager where
  "em18 = \<lparr> em_emitter = [(''phoenix_error'', [1])], em_maxListenersPerEvent = 20,
            em_listenerCounts = [(''phoenix_error'', 18)], em_warnings = [] \<rparr>"

definition cfg0 :: PhoenixConfig where
  "cfg0 = \<lparr> url = None, authParams = None, useLongPoll = True, disableLongPollFallback = False \<rparr>"

definition env0 :: PhoenixEnv where
  "env0 = \<lparr> EDGE_URL = Some ''https://x/api/v1'', SOCKET_EDGE_URL = None \<rparr>"

definition p0 :: ConnectionParams where
  "p0 = \<lparr> endpoint = Some ''wss://x/socket'', params = Some [(''token'', ''abc'')] \<rparr>"

definition p_other :: ConnectionParams where
  "p_other = \<lparr> endpoint = Some ''wss://other/socket'', params = None \<rparr>"

definition cm0 :: connection_manager where
  "cm0 = new_connection_manager env0 cfg0 True 10000"

definition cm_waiting :: connection_manager where
  "cm_waiting =
     \<lparr> socket = Some 0, status = Connecting, lastConnected = None, lastDisconnected = None,
       reconnectAttempts = 0, error = None, connectionParams = Some p0, config = cfg0,
       env = env0, lastReconnectTime = 0, reconnectThrottleMs = 5000, clock = 10000,
       storage_available = True, stored_config = None, stored_params = Some p0,
       sockets = [\<lparr> sock_url = ''wss://x/socket'', sock_params = [(''token'', ''abc'')],
                   sock_transport = LongPoll \<rparr>],
       disconnect_calls = [], timers = [], transitions = [Connecting], emitted = [],
       warnings = [] \<rparr>"

definition cm_connected :: connection_manager where
  "cm_connected =
     cm_waiting\<lparr> status := Connected, lastConnected := Some 10000,
                 transitions := [Connecting, Connected],
                 emitted := [(''phoenix_connect'', [])] \<rparr>"

definition poll_error :: js_value where
  "poll_error = JsErr (JsError ''unhandled poll status undefined'' None)"

definition boom :: js_value where
  "boom = JsErr (JsError ''boom'' None)"

text \<open>
  Two poll-status errors in a row on the connected manager: the first at 10000 ms, the
  second at 10500 ms, before the timer of the first is due.
\<close>

definition poll_once :: connection_manager where
  "poll_once = socket_onError poll_error cm_connected"

definition poll_twice :: connection_manager where
  "poll_twice = socket_onError poll_error (advance 500 poll_once)"

text \<open>
  A connected manager at 10000 ms: \<open>forceReconnect\<close> is called; its timer fires at 11000 ms
  and calls \<open>connect\<close>; \<open>forceReconnect\<close> is called again at 14000 ms and at 16000 ms.
\<close>

definition fr_first :: connection_manager where
  "fr_first = forceReconnect cm_connected"

definition fr_fired :: connection_manager where
  "fr_fired = snd (run_timer None ReconnectStored (advance 1000 fr_first))"

definition fr_second :: connection_manager where
  "fr_second = advance 3000 fr_fired"

definition fr_third :: connection_manager where
  "fr_third = advance 2000 (forceReconnect fr_second)"

text \<open>The first three steps of \<open>handlePollStatusError\<close>.\<close>

definition poll_prep :: "connection_manager \<Rightarrow> connection_manager" where
  "poll_prep s =
     updateState (\<lambda>t. t\<lparr> status := Reconnecting \<rparr>)
       (updateConfig (no_update\<lparr> upd_useLongPoll := Some False \<rparr>)
          (warn ''Poll status error detected, attempting recovery...'' s))"

definition never_connected :: "nat \<Rightarrow> bool" where
  "never_connected k = False"

definition lc_connected :: legacy_client where
  "lc_connected =
     \<lparr> lc_socket = Some 0, lc_channels = [(''room:lobby'', 0)], lc_connectionState = Connected,
       lc_connectionParams = Some p0, lc_config = cfg0, lc_env = env0,
       lc_storage_available = True, lc_stored_params = Some p0,
       lc_sockets = [\<lparr> sock_url = ''wss://x/socket'', sock_params = [(''token'', ''abc'')],
                      sock_transport = LongPoll \<rparr>],
       lc_disconnect_calls = [], lc_channel_leaves = [], lc_emitted = [''phoenix_connect''] \<rparr>"

section \<open>Runs of the channel manager\<close>

text \<open>
  What can happen to a channel manager, one step at a time: the calls of its methods (the
  asynchronous ones split at their \<open>await\<close>), and what the transport and the clock do.
\<close>

datatype cm_op =
    OpSetSocket "nat option"
  | OpJoinBegin string "(string \<times> string) list"
  | OpJoinSettle string nat join_ack
  | OpLeave string
  | OpSendBegin string string string
  | OpSendSettle string push_ack
  | OpOnMessage string string handler
  | OpOffMessage string string handler
  | OpCleanup
  | OpTransportState nat string
  | OpChannelError nat js_value
  | OpChannelClose nat
  | OpTick int

fun apply_op :: "cm_op \<Rightarrow> channel_manager \<Rightarrow> channel_manager" where
  "apply_op (OpSetSocket sock) s = setSocket sock s"
| "apply_op (OpJoinBegin topic ps) s = snd (joinChannel_begin topic ps s)"
| "apply_op (OpJoinSettle topic c ack) s = snd (joinChannel_settle topic c ack s)"
| "apply_op (OpLeave topic) s = leaveChannel topic s"
| "apply_op (OpSendBegin topic event payload) s = snd (sendMessage_begin topic event payload s)"
| "apply_op (OpSendSettle topic ack) s = snd (sendMessage_settle topic ack s)"
| "apply_op (OpOnMessage topic event cb) s = onMessage topic event cb s"
| "apply_op (OpOffMessage topic event cb) s = offMessage topic event cb s"
| "apply_op OpCleanup s = cleanup s"
| "apply_op (OpTransportState c st) s = transport_state c st s"
| "apply_op (OpChannelError c err) s = channel_error c err s"
| "apply_op (OpChannelClose c) s = channel_close c s"
| "apply_op (OpTick d) s = s\<lparr> cm_clock := cm_clock s + d \<rparr>"

definition run :: "cm_op list \<Rightarrow> channel_manager \<Rightarrow> channel_manager" where
  "run ops s = fold apply_op ops s"

text \<open>The channel handle a join step carries.\<close>

fun step_chan :: "join_step \<Rightarrow> nat option" where
  "step_chan (JThrown e) = None"
| "step_chan (JReturned c) = Some c"
| "step_chan (JPending c) = Some c"

text \<open>The listeners registered for a topic and an event.\<close>

definition listeners :: "string \<Rightarrow> string \<Rightarrow> channel_manager \<Rightarrow> handler list" where
  "listeners topic event s = entry (entry (messageListeners s) topic) event"

text \<open>
  What holds of every state a run reaches: every registered handle is a channel object of
  the socket, every topic with a channel has a \<open>ChannelState\<close>, \<open>join\<close> has been called
  on every registered channel object, and a channel object has one error and one close
  callback if its flag is set, and none otherwise.
\<close>

definition handles_valid :: "channel_manager \<Rightarrow> bool" where
  "handles_valid s = list_all (\<lambda>(t, c). c < length (chans s)) (channels s)"

definition states_present :: "channel_manager \<Rightarrow> bool" where
  "states_present s = list_all (\<lambda>(t, c). map_of (channelStates s) t \<noteq> None) (channels s)"

definition joined_once :: "channel_manager \<Rightarrow> bool" where
  "joined_once s = list_all (\<lambda>(t, c). ch_joinedOnce (chans s ! c)) (channels s)"

definition handlers_once :: "channel_manager \<Rightarrow> bool" where
  "handlers_once s =
     list_all (\<lambda>ch. ch_onError ch = (if ch_handlersFlag ch then 1 else 0) \<and>
                     ch_onClose ch = (if ch_handlersFlag ch then 1 else 0)) (chans s)"

definition cm_inv :: "channel_manager \<Rightarrow> bool" where
  "cm_inv s = (handles_valid s \<and> handlers_once s \<and> joined_once s)"

text \<open>A channel manager at its cap: 50 topics, each joined and acknowledged.\<close>

definition topic_n :: "nat \<Rightarrow> string" where
  "topic_n i = ''room:'' @ replicate i CHR ''x''"

definition joined_chan :: "string \<Rightarrow> channel_obj" where
  "joined_chan t =
     \<lparr> ch_topic = t, ch_params = [], ch_state = ''joined'', ch_handlersFlag = True,
       ch_onError = 1, ch_onClose = 1, ch_joinedOnce = True, ch_leaves = 0,
       ch_pushes = [], ch_bindings = [], ch_bindingRef = 0 \<rparr>"

definition joined_state :: "string \<Rightarrow> ChannelState" where
  "joined_state t =
     \<lparr> cs_topic = t, cs_status = ChJoined, cs_error = None, cs_lastJoined = Some 0,
       cs_lastLeft = None, messageCount = 0 \<rparr>"

definition cm_joined :: "nat \<Rightarrow> channel_manager" where
  "cm_joined n =
     \<lparr> cm_socket = Some 0,
       channels = map (\<lambda>i. (topic_n i, i)) [0..<n],
       channelStates = map (\<lambda>i. (topic_n i, joined_state (topic_n i))) [0..<n],
       messageListeners = [], maxChannels = 50, maxListenersPerEvent = 10,
       chans = map (\<lambda>i. joined_chan (topic_n i)) [0..<n],
       cm_clock = 0,
       cm_emitted = map (\<lambda>i. (''phoenix_channel_join'', topic_n i)) [0..<n],
       cm_warnings = [] \<rparr>"

definition cm_full :: channel_manager where
  "cm_full = cm_joined 50"

definition cm_full_no_socket :: channel_manager where
  "cm_full_no_socket = setSocket None cm_full"

text \<open>A manager with a socket and no channel, and the same after \<open>joinChannel\<close> has begun.\<close>

definition cm_empty :: channel_manager where
  "cm_empty = new_channel_manager (Some 0) 0"

definition cm_pending :: channel_manager where
  "cm_pending = snd (joinChannel_begin ''room:lobby'' [] cm_empty)"

text \<open>
  On the manager with the pending join: the callback 7 is registered for \<open>msg\<close> with
  \<open>onMessage\<close> and removed with \<open>offMessage\<close>; then ten other callbacks are registered.
\<close>

definition cm_off :: channel_manager where
  "cm_off = offMessage ''room:lobby'' ''msg'' 7 (onMessage ''room:lobby'' ''msg'' 7 cm_pending)"

definition cm_off_full :: channel_manager where
  "cm_off_full = fold (onMessage ''room:lobby'' ''msg'') [1, 2, 3, 4, 5, 6, 8, 9, 10, 11] cm_off"

section \<open>Properties of the event manager\<close>

lemma emitter_emit_on: "emitter_emit e (emitter_on e h ls) = set_add h (emitter_emit e ls)"
  by (auto simp: emitter_emit_def emitter_on_def Let_def AList.update_conv' split: option.splits)

lemma count_set_add: "distinct xs \<Longrightarrow> count_list (set_add h xs) h = 1"
  by (induction xs) (auto simp: set_add_def)

lemma set_add_idem: "set_add h (set_add h xs) = set_add h xs"
  by (auto simp: set_add_def)

lemma sum_list_update:
  fixes g :: "'k \<times> 'v \<Rightarrow> nat"
  shows "sum_list (map g (AList.update k v al))
           + (case map_of al k of None \<Rightarrow> 0 | Some c \<Rightarrow> g (k, c))
         = sum_list (map g al) + g (k, v)"
  by (induction al) auto

lemma em_on_count:
  "currentCount e m < em_maxListenersPerEvent m \<Longrightarrow>
   currentCount e (em_on e h m) = currentCount e m + 1"
  by (simp add: em_on_def currentCount_def AList.update_conv')

lemma em_on_emit:
  "currentCount e m < em_maxListenersPerEvent m \<Longrightarrow>
   em_emit e (em_on e h m) = set_add h (em_emit e m)"
  by (simp add: em_on_def em_emit_def emitter_emit_on)

lemma em_on_max: "em_maxListenersPerEvent (em_on e h m) = em_maxListenersPerEvent m"
  by (simp add: em_on_def)

lemma em_on_total:
  "currentCount e m < em_maxListenersPerEvent m \<Longrightarrow>
   es_totalListeners (em_getResourceStats (em_on e h m))
     = es_totalListeners (em_getResourceStats m) + 1"
  using sum_list_update[of snd e "currentCount e m + 1" "em_listenerCounts m"]
  by (simp add: em_on_def em_getResourceStats_def currentCount_def split: option.splits)

lemma handlers_emitter_on:
  "sum_list (map (\<lambda>(e, hs). length hs) (emitter_on e h ls)) =
   sum_list (map (\<lambda>(e, hs). length hs) ls)
     + (length (set_add h (emitter_emit e ls)) - length (emitter_emit e ls))"
proof (cases "map_of ls e")
  case None
  have "emitter_on e h ls = AList.update e [h] (AList.update e [] ls)"
    using None by (simp add: emitter_on_def AList.update_conv' set_add_def)
  then show ?thesis
    using None sum_list_update[of "\<lambda>(e, hs). length hs" e "[]" ls]
      sum_list_update[of "\<lambda>(e, hs). length hs" e "[h]" "AList.update e [] ls"]
    by (simp add: emitter_emit_def set_add_def AList.update_conv')
next
  case (Some hs)
  have "emitter_on e h ls = AList.update e (set_add h hs) ls"
    using Some by (simp add: emitter_on_def)
  then show ?thesis
    using Some sum_list_update[of "\<lambda>(e, hs). length hs" e "set_add h hs" ls]
    by (auto simp add: emitter_emit_def set_add_def)
qed

lemma em_on_first_handlers:
  "currentCount e m < em_maxListenersPerEvent m \<Longrightarrow>
   registered_handlers (em_on e h m) \<le> registered_handlers m + 1"
  by (simp add: em_on_def registered_handlers_def handlers_emitter_on set_add_def)

lemma em_on_dup_handlers:
  "currentCount e m < em_maxListenersPerEvent m \<Longrightarrow> h \<in> set (em_emit e m) \<Longrightarrow>
   registered_handlers (em_on e h m) = registered_handlers m"
  by (simp add: em_on_def registered_handlers_def handlers_emitter_on set_add_def em_emit_def)

lemma em_on_full:
  "em_maxListenersPerEvent m \<le> currentCount e m \<Longrightarrow> em_emit e (em_on e h m) = em_emit e m"
  by (simp add: em_on_def em_emit_def)

text \<open>
  C10. In the event manager, registering the same handler twice for one event (both calls
  below the cap, the emitter's handler set for the event free of repetition, as a set is):
  an emit calls the handler exactly once; the per-event count has grown by two, and so has
  \<open>getResourceStats().totalListeners\<close>, while the handlers the emitter holds have grown by
  at most one, so the total exceeds the distinct handlers; and when the two calls took the
  last two slots below the cap, a further, different handler is dropped: an emit calls the
  same handlers as before.
\<close>

theorem event_manager_duplicate_registration:
  assumes "currentCount e m + 1 < em_maxListenersPerEvent m"
    and "distinct (em_emit e m)"
  shows "count_list (em_emit e (em_on e h (em_on e h m))) h = 1 \<and>
         currentCount e (em_on e h (em_on e h m)) = currentCount e m + 2 \<and>
         es_totalListeners (em_getResourceStats (em_on e h (em_on e h m)))
           = es_totalListeners (em_getResourceStats m) + 2 \<and>
         registered_handlers (em_on e h (em_on e h m)) \<le> registered_handlers m + 1 \<and>
         (currentCount e m + 2 = em_maxListenersPerEvent m \<longrightarrow>
            em_emit e (em_on e h' (em_on e h (em_on e h m)))
              = em_emit e (em_on e h (em_on e h m)))"
proof -
  let ?m1 = "em_on e h m"
  let ?m2 = "em_on e h ?m1"
  have a: "currentCount e m < em_maxListenersPerEvent m" using assms(1) by simp
  have c1: "currentCount e ?m1 = currentCount e m + 1" using a by (rule em_on_count)
  have b: "currentCount e ?m1 < em_maxListenersPerEvent ?m1"
    using assms(1) c1 by (simp add: em_on_max)
  have c2: "currentCount e ?m2 = currentCount e m + 2"
    using em_on_count[OF b, of h] c1 by simp
  have e1: "em_emit e ?m1 = set_add h (em_emit e m)" using a by (rule em_on_emit)
  have e2: "em_emit e ?m2 = set_add h (set_add h (em_emit e m))"
    using em_on_emit[OF b, of h] e1 by simp
  have once: "count_list (em_emit e ?m2) h = 1"
    using e2 assms(2) by (simp add: set_add_idem count_set_add)
  have tot: "es_totalListeners (em_getResourceStats ?m2)
               = es_totalListeners (em_getResourceStats m) + 2"
    using em_on_total[OF a, of h] em_on_total[OF b, of h] by simp
  have "h \<in> set (em_emit e ?m1)" using e1 by (simp add: set_add_def)
  then have "registered_handlers ?m2 = registered_handlers ?m1"
    using b by (rule em_on_dup_handlers[rotated])
  then have reg: "registered_handlers ?m2 \<le> registered_handlers m + 1"
    using em_on_first_handlers[OF a, of h] by simp
  have cap: "currentCount e m + 2 = em_maxListenersPerEvent m \<longrightarrow>
               em_emit e (em_on e h' ?m2) = em_emit e ?m2"
  proof
    assume "currentCount e m + 2 = em_maxListenersPerEvent m"
    then have "em_maxListenersPerEvent ?m2 \<le> currentCount e ?m2"
      using c2 by (simp add: em_on_max)
    then show "em_emit e (em_on e h' ?m2) = em_emit e ?m2" by (rule em_on_full)
  qed
  show ?thesis using once c2 tot reg cap by blast
qed

theorem event_manager_duplicate_registration_witness:
  "currentCount ''phoenix_error'' em18 + 1 < em_maxListenersPerEvent em18 \<and>
   distinct (em_emit ''phoenix_error'' em18) \<and>
   currentCount ''phoenix_error'' em18 + 2 = em_maxListenersPerEvent em18 \<and>
   count_list (em_emit ''phoenix_error''
                 (em_on ''phoenix_error'' 1 (em_on ''phoenix_error'' 1 em18))) 1 = 1 \<and>
   currentCount ''phoenix_error''
     (em_on ''phoenix_error'' 1 (em_on ''phoenix_error'' 1 em18)) = 20 \<and>
   es_totalListeners (em_getResourceStats
     (em_on ''phoenix_error'' 1 (em_on ''phoenix_error'' 1 em18))) = 20 \<and>
   registered_handlers (em_on ''phoenix_error'' 1 (em_on ''phoenix_error'' 1 em18)) \<le> 2 \<and>
   em_emit ''phoenix_error''
     (em_on ''phoenix_error'' 2 (em_on ''phoenix_error'' 1 (em_on ''phoenix_error'' 1 em18)))
     = em_emit ''phoenix_error'' (em_on ''phoenix_error'' 1 (em_on ''phoenix_error'' 1 em18))"
proof -
  have h1: "currentCount ''phoenix_error'' em18 + 1 < em_maxListenersPerEvent em18"
    by (simp add: em18_def currentCount_def)
  have h2: "distinct (em_emit ''phoenix_error'' em18)"
    by (simp add: em18_def em_emit_def emitter_emit_def)
  have h3: "currentCount ''phoenix_error'' em18 + 2 = em_maxListenersPerEvent em18"
    by (simp add: em18_def currentCount_def)
  have v1: "currentCount ''phoenix_error'' em18 = 18" by (simp add: em18_def currentCount_def)
  have v2: "es_totalListeners (em_getResourceStats em18) = 18"
    by (simp add: em18_def em_getResourceStats_def)
  have v3: "registered_handlers em18 = 1" by (simp add: em18_def registered_handlers_def)
  show ?thesis
    using h1 h2 h3 event_manager_duplicate_registration[OF h1 h2, of 1 2] v1 v2 v3 by simp
qed

section \<open>Properties of the connection manager\<close>

lemma str_includes_nonempty: "str_includes m sub \<Longrightarrow> sub \<noteq> [] \<Longrightarrow> m \<noteq> []"
  by (cases m) auto

lemma errorMessage_of_message:
  "str_includes m ''unhandled poll status'' \<Longrightarrow> err = JsErr (JsError m c) \<or> err = JsStr m \<Longrightarrow> errorMessage err = m"
  using str_includes_nonempty[of m "''unhandled poll status''"] by auto

lemma disconnect_None: "socket s = None \<Longrightarrow> disconnect r s = s"
  by (simp add: disconnect_def)

lemma disconnect_Some: "socket s = Some h \<Longrightarrow> disconnect r s =
   s\<lparr> disconnect_calls := disconnect_calls s @ [(h, str_of (or_else r (Some ''Client disconnect'')))],
                socket := None, status := Disconnected, lastDisconnected := Some (clock s), 
       transitions := transitions s @ [Disconnected] \<rparr>"
  by (simp add: disconnect_def updateState_def)

lemma updateConfig_fields:
  "socket (updateConfig u s) = socket s" "status (updateConfig u s) = status s"
  "transitions (updateConfig u s) = transitions s" "timers (updateConfig u s) = timers s"
  "reconnectAttempts (updateConfig u s) = reconnectAttempts s" "emitted (updateConfig u s) = emitted s"
  "connectionParams (updateConfig u s) = connectionParams s" "clock (updateConfig u s) = clock s"
  "disconnect_calls (updateConfig u s) = disconnect_calls s"
  "lastReconnectTime (updateConfig u s) = lastReconnectTime s"
  "useLongPoll (config (updateConfig u s)) = (case upd_useLongPoll u of None \<Rightarrow> useLongPoll (config s) | Some v \<Rightarrow> v)"
  by (simp_all add: updateConfig_def saveConfig_def Let_def)

lemma poll_prep_fields:
  "socket (poll_prep s) = socket s" "status (poll_prep s) = Reconnecting"
  "transitions (poll_prep s) = transitions s @ [Reconnecting]" "timers (poll_prep s) = timers s"
  "reconnectAttempts (poll_prep s) = reconnectAttempts s" "emitted (poll_prep s) = emitted s"
  "connectionParams (poll_prep s) = connectionParams s" "clock (poll_prep s) = clock s"
  "disconnect_calls (poll_prep s) = disconnect_calls s"
  "useLongPoll (config (poll_prep s)) = False"
  by (simp_all add: poll_prep_def updateState_def updateConfig_fields warn_def no_update_def)

lemma handlePollStatusError_alt:
  "handlePollStatusError err s = (let s4 = disconnect (Some ''Poll status recovery'') (poll_prep s); s5 = s4\<lparr> socket := None \<rparr>
      in s5\<lparr> timers := timers s5 @ [(clock s5 + 2000, ReconnectStored)] \<rparr>)"
  by (simp add: handlePollStatusError_def poll_prep_def Let_def)

lemma handlePollStatusError_effect:
  "useLongPoll (config (handlePollStatusError err s)) = False \<and>
   socket (handlePollStatusError err s) = None \<and>
   status (handlePollStatusError err s) = (if socket s = None then Reconnecting else Disconnected) \<and>
   transitions (handlePollStatusError err s) = transitions s @ (if socket s = None then [Reconnecting] else [Reconnecting, Disconnected]) \<and>
   timers (handlePollStatusError err s) = timers s @ [(clock s + 2000, ReconnectStored)] \<and>
   reconnectAttempts (handlePollStatusError err s) = reconnectAttempts s \<and>
   emitted (handlePollStatusError err s) = emitted s \<and>
   connectionParams (handlePollStatusError err s) = connectionParams s \<and>
   clock (handlePollStatusError err s) = clock s \<and>
   disconnect_calls (handlePollStatusError err s) = disconnect_calls s @ (case socket s of None \<Rightarrow> [] | Some h \<Rightarrow> [(h, ''Poll status recovery'')])"
proof (cases "socket s")
  case None
  then have "socket (poll_prep s) = None" by (simp add: poll_prep_fields)
  then have "disconnect (Some ''Poll status recovery'') (poll_prep s) = poll_prep s" by (rule disconnect_None)
  then show ?thesis using None by (simp add: handlePollStatusError_alt Let_def poll_prep_fields)
next
  case (Some h)
  then have "socket (poll_prep s) = Some h" by (simp add: poll_prep_fields)
  then show ?thesis using Some
    by (simp add: handlePollStatusError_alt Let_def disconnect_Some poll_prep_fields truthy_def or_else_def str_of_def)
qed

lemma handleConnectionError_fields:
  "status (handleConnectionError e s) = ErrorStatus"
  "reconnectAttempts (handleConnectionError e s) = reconnectAttempts s + 1"
  "error (handleConnectionError e s) = Some (JsErr e)"
  "emitted (handleConnectionError e s) = emitted s @ [(EV_ERROR, ''connection'')]"
  "transitions (handleConnectionError e s) = transitions s @ [ErrorStatus]"
  "socket (handleConnectionError e s) = socket s"
  "sockets (handleConnectionError e s) = sockets s"
  "disconnect_calls (handleConnectionError e s) = disconnect_calls s"
  "timers (handleConnectionError e s) = timers s"
  by (simp_all add: handleConnectionError_def emit_def updateState_def)

lemma saveConnectionParams_fields:
  "status (saveConnectionParams p s) = status s"
  "socket (saveConnectionParams p s) = socket s"
  "sockets (saveConnectionParams p s) = sockets s"
  "reconnectAttempts (saveConnectionParams p s) = reconnectAttempts s"
  "connectionParams (saveConnectionParams p s) = connectionParams s"
  "emitted (saveConnectionParams p s) = emitted s"
  "disconnect_calls (saveConnectionParams p s) = disconnect_calls s"
  "transitions (saveConnectionParams p s) = transitions s"
  "timers (saveConnectionParams p s) = timers s"
  "config (saveConnectionParams p s) = config s"
  by (simp_all add: saveConnectionParams_def)

lemma connect_begin_guard: "\<not> canConnect s \<Longrightarrow> connect_begin ctor p s = (Returned (socket s), s)"
  by (simp add: connect_begin_def)

lemma connect_begin_cases:
  assumes "canConnect s"
  shows "(\<exists>e. fst (connect_begin ctor p s) = Thrown e \<and> snd (connect_begin ctor p s) = handleConnectionError e (updateState (\<lambda>t. t\<lparr> status := Connecting, error := None \<rparr>) s))
     \<or> (fst (connect_begin ctor p s) = Waiting \<and> ctor = None \<and>
         status (snd (connect_begin ctor p s)) = Connecting \<and>
         socket (snd (connect_begin ctor p s)) = Some (length (sockets s)) \<and>
         length (sockets (snd (connect_begin ctor p s))) = length (sockets s) + 1 \<and>
         reconnectAttempts (snd (connect_begin ctor p s)) = reconnectAttempts s \<and>
         disconnect_calls (snd (connect_begin ctor p s)) = disconnect_calls s \<and>
         emitted (snd (connect_begin ctor p s)) = emitted s \<and>
         connectionParams (snd (connect_begin ctor p s)) = Some (mergeConnectionParams p s))"
proof -
  let ?s1 = "updateState (\<lambda>t. t\<lparr> status := Connecting, error := None \<rparr>) s"
  let ?eff = "mergeConnectionParams p ?s1"
  have eff: "?eff = mergeConnectionParams p s"
    by (simp add: mergeConnectionParams_def loadConnectionParams_def updateState_def)
  show ?thesis
  proof (cases "buildSocketUrl ?eff ?s1")
    case (Inl e)
    then show ?thesis using assms by (simp add: connect_begin_def Let_def)
  next
    case (Inr u)
    show ?thesis
    proof (cases ctor)
      case None
      then show ?thesis using assms Inr eff
        by (simp add: connect_begin_def Let_def createSocket_def saveConnectionParams_fields updateState_def)
    next
      case (Some e)
      then show ?thesis using assms Inr by (simp add: connect_begin_def Let_def createSocket_def)
    qed
  qed
qed

lemma connect_begin_thrown:
  assumes "fst (connect_begin ctor p s) = Thrown e"
  shows "status (snd (connect_begin ctor p s)) = ErrorStatus \<and>
         reconnectAttempts (snd (connect_begin ctor p s)) = reconnectAttempts s + 1 \<and>
         error (snd (connect_begin ctor p s)) = Some (JsErr e) \<and>
         emitted (snd (connect_begin ctor p s)) = emitted s @ [(EV_ERROR, ''connection'')]"
proof (cases "canConnect s")
  case True
  from connect_begin_cases[OF True, of ctor p] assms
  have "snd (connect_begin ctor p s) = handleConnectionError e (updateState (\<lambda>t. t\<lparr> status := Connecting, error := None \<rparr>) s)"
    by auto
  then show ?thesis by (simp add: handleConnectionError_fields updateState_def)
next
  case False
  then show ?thesis using assms by (simp add: connect_begin_guard)
qed

lemma checkConnection_bound: "snd (checkConnection obs a) \<le> connectTimeoutMs"
proof (induction obs a rule: checkConnection.induct)
  case (1 obs attempts)
  show ?case
  proof (cases "connectTimeoutMs \<le> attempts * checkInterval")
    case True
    then show ?thesis by (subst checkConnection.simps) simp
  next
    case False
    note nt = this
    show ?thesis
    proof (cases "attempts + 1 \<ge> maxAttempts \<or> obs (attempts + 1)")
      case True
      then show ?thesis using nt by (subst checkConnection.simps) auto
    next
      case False
      then have "checkConnection obs attempts = checkConnection obs (attempts + 1)"
        using nt by (subst checkConnection.simps) simp
      then show ?thesis using 1[OF nt] False by simp
    qed
  qed
qed

lemma waitForConnection_bound: "snd (waitForConnection hs obs) \<le> connectTimeoutMs"
  by (simp add: waitForConnection_def checkConnection_bound)

lemma connect_settle_rejected:
  "connect_settle (Rejected e) s = (Inl e, handleConnectionError e s)"
  by (simp add: connect_settle_def)

lemma socket_onOpen_fields:
  "reconnectAttempts (socket_onOpen s) = 0" "status (socket_onOpen s) = Connected" "error (socket_onOpen s) = None"
  "emitted (socket_onOpen s) = emitted s @ [(if status s = Reconnecting then EV_RECONNECT else EV_CONNECT, [])]"
  by (simp_all add: socket_onOpen_def Let_def emit_def updateState_def)

lemma cm_waiting_reached: "connect_begin None p0 cm0 = (Waiting, cm_waiting)"
  by (simp add: connect_begin_def cm0_def new_connection_manager_def canConnect_def updateState_def
      mergeConnectionParams_def loadConnectionParams_def p0_def buildSocketUrl_def truthy_def str_of_def
      createSocket_def buildSocketParams_def spread_def or_empty_def cfg0_def env0_def saveConnectionParams_def
      cm_waiting_def Let_def)

lemma cm_connected_reached: "socket_onOpen cm_waiting = cm_connected"
  by (simp add: socket_onOpen_def cm_waiting_def cm_connected_def updateState_def emit_def EV_CONNECT_def Let_def)

text \<open>
  What the recovery path does with one error whose message contains
  \<open>unhandled poll status\<close>, given to the socket's error callback: the manager sets
  \<open>useLongPoll\<close> to false, passes through the status \<open>reconnecting\<close> (and on to
  \<open>disconnected\<close> when it held a transport, which it releases), schedules for 2 s later the
  callback that calls \<open>connect\<close> with the stored \<open>connectionParams\<close>, leaves
  \<open>reconnectAttempts\<close> as it was and emits no event. When it held a transport the guard of
  \<open>connect\<close> is open when the timer is due; when it held none, the status stays
  \<open>reconnecting\<close>.
\<close>

theorem poll_status_recovery:
  assumes "str_includes m ''unhandled poll status''"
    and "err = JsErr (JsError m c) \<or> err = JsStr m"
  shows "useLongPoll (config (socket_onError err s)) = False \<and>
         socket (socket_onError err s) = None \<and>
         transitions (socket_onError err s)
           = transitions s @ (if socket s = None then [Reconnecting]
                              else [Reconnecting, Disconnected]) \<and>
         timers (socket_onError err s) = timers s @ [(clock s + 2000, ReconnectStored)] \<and>
         reconnectAttempts (socket_onError err s) = reconnectAttempts s \<and>
         emitted (socket_onError err s) = emitted s \<and>
         connectionParams (socket_onError err s) = connectionParams s \<and>
         (\<forall>p. connectionParams s = Some p \<longrightarrow>
            run_timer ctor ReconnectStored (advance 2000 (socket_onError err s))
              = (Some (fst (connect_begin ctor p (advance 2000 (socket_onError err s)))),
                 snd (connect_begin ctor p (advance 2000 (socket_onError err s))))) \<and>
         (socket s \<noteq> None \<longrightarrow> canConnect (advance 2000 (socket_onError err s)))"
proof -
  have "errorMessage err = m" using assms by (rule errorMessage_of_message)
  then have eq: "socket_onError err s = handlePollStatusError err s"
    using assms(1) by (simp add: socket_onError_def handleSocketError_def)
  note eff = handlePollStatusError_effect[of err s]
  have t: "\<forall>p. connectionParams s = Some p \<longrightarrow>
      run_timer ctor ReconnectStored (advance 2000 (socket_onError err s))
        = (Some (fst (connect_begin ctor p (advance 2000 (socket_onError err s)))),
           snd (connect_begin ctor p (advance 2000 (socket_onError err s))))"
    using eff by (simp add: eq run_timer_def advance_def)
  have g: "socket s \<noteq> None \<longrightarrow> canConnect (advance 2000 (socket_onError err s))"
    using eff by (simp add: eq canConnect_def advance_def)
  show ?thesis using eff t g by (simp add: eq)
qed

theorem poll_status_recovery_witness:
  "str_includes ''unhandled poll status undefined'' ''unhandled poll status'' \<and>
   connectionParams cm_connected = Some p0 \<and> socket cm_connected \<noteq> None \<and>
   useLongPoll (config (socket_onError poll_error cm_connected)) = False \<and>
   socket (socket_onError poll_error cm_connected) = None \<and>
   transitions (socket_onError poll_error cm_connected)
     = [Connecting, Connected, Reconnecting, Disconnected] \<and>
   timers (socket_onError poll_error cm_connected) = [(12000, ReconnectStored)] \<and>
   reconnectAttempts (socket_onError poll_error cm_connected) = 0 \<and>
   emitted (socket_onError poll_error cm_connected) = [(''phoenix_connect'', [])] \<and>
   run_timer None ReconnectStored (advance 2000 (socket_onError poll_error cm_connected))
     = (Some (fst (connect_begin None p0 (advance 2000 (socket_onError poll_error cm_connected)))),
        snd (connect_begin None p0 (advance 2000 (socket_onError poll_error cm_connected)))) \<and>
   canConnect (advance 2000 (socket_onError poll_error cm_connected))"
proof -
  have h1: "str_includes ''unhandled poll status undefined'' ''unhandled poll status''"
    by simp
  have h2: "poll_error = JsErr (JsError ''unhandled poll status undefined'' None)
            \<or> poll_error = JsStr ''unhandled poll status undefined''"
    by (simp add: poll_error_def)
  have v: "connectionParams cm_connected = Some p0" "socket cm_connected \<noteq> None"
    "transitions cm_connected = [Connecting, Connected]" "timers cm_connected = []"
    "clock cm_connected = 10000" "reconnectAttempts cm_connected = 0"
    "emitted cm_connected = [(''phoenix_connect'', [])]"
    by (simp_all add: cm_connected_def cm_waiting_def)
  show ?thesis
    using poll_status_recovery[OF h1 h2, of cm_connected None] h1 v by simp
qed

lemma forceReconnect_throttled:
  "clock s - lastReconnectTime s < reconnectThrottleMs s \<Longrightarrow>
   forceReconnect s = warn ''Force reconnect throttled - too frequent'' s"
  by (simp add: forceReconnect_def)

lemma forceReconnect_effect:
  assumes "\<not> clock s - lastReconnectTime s < reconnectThrottleMs s"
  shows "socket (forceReconnect s) = None \<and>
         reconnectAttempts (forceReconnect s) = 0 \<and>
         disconnect_calls (forceReconnect s)
           = disconnect_calls s @ (case socket s of None \<Rightarrow> [] | Some h \<Rightarrow> [(h, ''Force reconnect'')]) \<and>
         status (forceReconnect s) = (if socket s = None then status s else Disconnected) \<and>
         timers (forceReconnect s) = timers s @ [(clock s + 1000, ReconnectStored)] \<and>
         lastReconnectTime (forceReconnect s) = clock s \<and>
         reconnectThrottleMs (forceReconnect s) = reconnectThrottleMs s \<and>
         clock (forceReconnect s) = clock s \<and>
         connectionParams (forceReconnect s) = connectionParams s \<and>
         warnings (forceReconnect s) = warnings s"
proof (cases "socket s")
  case None
  then have "disconnect (Some ''Force reconnect'') (s\<lparr> lastReconnectTime := clock s \<rparr>)
               = s\<lparr> lastReconnectTime := clock s \<rparr>"
    by (simp add: disconnect_None)
  then show ?thesis using assms None by (simp add: forceReconnect_def Let_def)
next
  case (Some h)
  then have "socket (s\<lparr> lastReconnectTime := clock s \<rparr>) = Some h" by simp
  then show ?thesis using assms Some
    by (simp add: forceReconnect_def Let_def disconnect_Some truthy_def or_else_def str_of_def)
qed

lemma connect_begin_keeps:
  "lastReconnectTime (snd (connect_begin ctor p s)) = lastReconnectTime s"
  "reconnectThrottleMs (snd (connect_begin ctor p s)) = reconnectThrottleMs s"
  "clock (snd (connect_begin ctor p s)) = clock s"
  "timers (snd (connect_begin ctor p s)) = timers s"
  by (simp_all add: connect_begin_def Let_def createSocket_def handleConnectionError_def
      emit_def updateState_def saveConnectionParams_def split: sum.splits option.splits)

lemma connect_begin_waits:
  assumes "canConnect s" "truthy (endpoint p)"
  shows "fst (connect_begin None p s) = Waiting"
proof -
  obtain e where e: "endpoint p = Some e" using assms(2) by (cases "endpoint p") (auto simp: truthy_def)
  show ?thesis using assms e
    by (simp add: connect_begin_def Let_def mergeConnectionParams_def buildSocketUrl_def
        createSocket_def)
qed

lemma throttle_kept:
  "lastReconnectTime (disconnect r s) = lastReconnectTime s \<and>
   reconnectThrottleMs (disconnect r s) = reconnectThrottleMs s"
  "lastReconnectTime (snd (connect_settle w s)) = lastReconnectTime s \<and>
   reconnectThrottleMs (snd (connect_settle w s)) = reconnectThrottleMs s"
  "lastReconnectTime (socket_onOpen s) = lastReconnectTime s \<and>
   reconnectThrottleMs (socket_onOpen s) = reconnectThrottleMs s"
  "lastReconnectTime (socket_onClose s) = lastReconnectTime s \<and>
   reconnectThrottleMs (socket_onClose s) = reconnectThrottleMs s"
  "lastReconnectTime (updateConfig u s) = lastReconnectTime s \<and>
   reconnectThrottleMs (updateConfig u s) = reconnectThrottleMs s"
  "lastReconnectTime (snd (run_timer ctor a s)) = lastReconnectTime s \<and>
   reconnectThrottleMs (snd (run_timer ctor a s)) = reconnectThrottleMs s"
  "lastReconnectTime (advance d s) = lastReconnectTime s \<and>
   reconnectThrottleMs (advance d s) = reconnectThrottleMs s"
proof -
  show "lastReconnectTime (disconnect r s) = lastReconnectTime s \<and>
        reconnectThrottleMs (disconnect r s) = reconnectThrottleMs s"
    by (cases "socket s") (simp_all add: disconnect_def updateState_def)
  show "lastReconnectTime (snd (connect_settle w s)) = lastReconnectTime s \<and>
        reconnectThrottleMs (snd (connect_settle w s)) = reconnectThrottleMs s"
    by (cases w) (simp_all add: connect_settle_def handleConnectionError_def emit_def
        updateState_def)
  show "lastReconnectTime (socket_onOpen s) = lastReconnectTime s \<and>
        reconnectThrottleMs (socket_onOpen s) = reconnectThrottleMs s"
    by (simp add: socket_onOpen_def Let_def emit_def updateState_def)
  show "lastReconnectTime (socket_onClose s) = lastReconnectTime s \<and>
        reconnectThrottleMs (socket_onClose s) = reconnectThrottleMs s"
    by (simp add: socket_onClose_def Let_def emit_def updateState_def)
  show "lastReconnectTime (updateConfig u s) = lastReconnectTime s \<and>
        reconnectThrottleMs (updateConfig u s) = reconnectThrottleMs s"
    by (simp add: updateConfig_def Let_def saveConfig_def)
  show "lastReconnectTime (snd (run_timer ctor a s)) = lastReconnectTime s \<and>
        reconnectThrottleMs (snd (run_timer ctor a s)) = reconnectThrottleMs s"
    by (cases a; cases "connectionParams s") (simp_all add: run_timer_def connect_begin_keeps)
  show "lastReconnectTime (advance d s) = lastReconnectTime s \<and>
        reconnectThrottleMs (advance d s) = reconnectThrottleMs s"
    by (simp add: advance_def)
qed

lemma socket_onError_throttle_kept:
  "lastReconnectTime (socket_onError err s) = lastReconnectTime s \<and>
   reconnectThrottleMs (socket_onError err s) = reconnectThrottleMs s"
proof (cases "str_includes (errorMessage err) ''unhandled poll status''")
  case True
  then show ?thesis
    by (simp add: socket_onError_def handleSocketError_def handlePollStatusError_def Let_def
        throttle_kept updateState_def warn_def)
next
  case False
  then show ?thesis
    by (simp add: socket_onError_def handleSocketError_def Let_def emit_def updateState_def)
qed

text \<open>
  C5, as amended. Two \<open>forceReconnect\<close> calls less than the throttle window apart, in
  the states \<open>s\<close> and \<open>s'\<close>, with whatever the manager did in between (nothing but
  \<open>forceReconnect\<close> writes \<open>lastReconnectTime\<close>): when the first is not throttled itself, the
  second is dropped and adds only a warning; a call that is throttled does nothing but
  warn, so at most one of the two runs a cycle. A call that is not throttled disconnects
  (when a transport is held), sets \<open>reconnectAttempts\<close> to 0 and schedules for 1 s later the
  callback that calls \<open>connect\<close> with the stored \<open>connectionParams\<close>.
\<close>

theorem force_reconnect_throttle:
  assumes "lastReconnectTime s' = lastReconnectTime (forceReconnect s)"
    and "reconnectThrottleMs s' = reconnectThrottleMs s"
    and "clock s' - clock s < reconnectThrottleMs s"
  shows "(\<not> clock s - lastReconnectTime s < reconnectThrottleMs s \<longrightarrow>
            forceReconnect s' = warn ''Force reconnect throttled - too frequent'' s' \<and>
            socket (forceReconnect s) = None \<and>
            status (forceReconnect s) = (if socket s = None then status s else Disconnected) \<and>
            disconnect_calls (forceReconnect s)
              = disconnect_calls s @ (case socket s of None \<Rightarrow> []
                                      | Some h \<Rightarrow> [(h, ''Force reconnect'')]) \<and>
            reconnectAttempts (forceReconnect s) = 0 \<and>
            timers (forceReconnect s) = timers s @ [(clock s + 1000, ReconnectStored)] \<and>
            (\<forall>p. connectionParams s = Some p \<longrightarrow>
               run_timer ctor ReconnectStored (advance 1000 (forceReconnect s))
                 = (Some (fst (connect_begin ctor p (advance 1000 (forceReconnect s)))),
                    snd (connect_begin ctor p (advance 1000 (forceReconnect s)))))) \<and>
         (clock s - lastReconnectTime s < reconnectThrottleMs s \<longrightarrow>
            forceReconnect s = warn ''Force reconnect throttled - too frequent'' s)"
proof -
  have thr: "clock s - lastReconnectTime s < reconnectThrottleMs s \<longrightarrow>
            forceReconnect s = warn ''Force reconnect throttled - too frequent'' s"
    by (simp add: forceReconnect_throttled)
  have run: "\<not> clock s - lastReconnectTime s < reconnectThrottleMs s \<longrightarrow>
            forceReconnect s' = warn ''Force reconnect throttled - too frequent'' s' \<and>
            socket (forceReconnect s) = None \<and>
            status (forceReconnect s) = (if socket s = None then status s else Disconnected) \<and>
            disconnect_calls (forceReconnect s)
              = disconnect_calls s @ (case socket s of None \<Rightarrow> []
                                      | Some h \<Rightarrow> [(h, ''Force reconnect'')]) \<and>
            reconnectAttempts (forceReconnect s) = 0 \<and>
            timers (forceReconnect s) = timers s @ [(clock s + 1000, ReconnectStored)] \<and>
            (\<forall>p. connectionParams s = Some p \<longrightarrow>
               run_timer ctor ReconnectStored (advance 1000 (forceReconnect s))
                 = (Some (fst (connect_begin ctor p (advance 1000 (forceReconnect s)))),
                    snd (connect_begin ctor p (advance 1000 (forceReconnect s)))))"
  proof
    assume nt: "\<not> clock s - lastReconnectTime s < reconnectThrottleMs s"
    note eff = forceReconnect_effect[OF nt]
    have "clock s' - lastReconnectTime s' < reconnectThrottleMs s'"
      using eff assms by simp
    then have second: "forceReconnect s' = warn ''Force reconnect throttled - too frequent'' s'"
      by (rule forceReconnect_throttled)
    have t: "\<forall>p. connectionParams s = Some p \<longrightarrow>
               run_timer ctor ReconnectStored (advance 1000 (forceReconnect s))
                 = (Some (fst (connect_begin ctor p (advance 1000 (forceReconnect s)))),
                    snd (connect_begin ctor p (advance 1000 (forceReconnect s))))"
      using eff by (simp add: run_timer_def advance_def)
    show "forceReconnect s' = warn ''Force reconnect throttled - too frequent'' s' \<and>
            socket (forceReconnect s) = None \<and>
            status (forceReconnect s) = (if socket s = None then status s else Disconnected) \<and>
            disconnect_calls (forceReconnect s)
              = disconnect_calls s @ (case socket s of None \<Rightarrow> []
                                      | Some h \<Rightarrow> [(h, ''Force reconnect'')]) \<and>
            reconnectAttempts (forceReconnect s) = 0 \<and>
            timers (forceReconnect s) = timers s @ [(clock s + 1000, ReconnectStored)] \<and>
            (\<forall>p. connectionParams s = Some p \<longrightarrow>
               run_timer ctor ReconnectStored (advance 1000 (forceReconnect s))
                 = (Some (fst (connect_begin ctor p (advance 1000 (forceReconnect s)))),
                    snd (connect_begin ctor p (advance 1000 (forceReconnect s)))))"
      using second eff t by simp
  qed
  show ?thesis using thr run by blast
qed

lemma cm_connected_fields:
  "clock cm_connected = 10000" "lastReconnectTime cm_connected = 0"
  "reconnectThrottleMs cm_connected = 5000" "socket cm_connected = Some 0"
  "timers cm_connected = []" "disconnect_calls cm_connected = []"
  "connectionParams cm_connected = Some p0" "status cm_connected = Connected"
  "reconnectAttempts cm_connected = 0" "transitions cm_connected = [Connecting, Connected]"
  "emitted cm_connected = [(''phoenix_connect'', [])]" "sockets cm_connected = sockets cm_waiting"
  by (simp_all add: cm_connected_def cm_waiting_def)

lemma fr_first_fields:
  "socket fr_first = None" "status fr_first = Disconnected"
  "clock fr_first = 10000" "lastReconnectTime fr_first = 10000"
  "reconnectThrottleMs fr_first = 5000" "timers fr_first = [(11000, ReconnectStored)]"
  "disconnect_calls fr_first = [(0, ''Force reconnect'')]"
  "connectionParams fr_first = Some p0" "length (sockets fr_first) = 1"
proof -
  have nt: "\<not> clock cm_connected - lastReconnectTime cm_connected
              < reconnectThrottleMs cm_connected"
    by (simp add: cm_connected_fields)
  note eff = forceReconnect_effect[OF nt]
  have "sockets (forceReconnect cm_connected) = sockets cm_connected"
    using nt by (simp add: forceReconnect_def Let_def disconnect_def cm_connected_fields
        updateState_def emit_def split: option.splits)
  then show "socket fr_first = None" "status fr_first = Disconnected"
  "clock fr_first = 10000" "lastReconnectTime fr_first = 10000"
  "reconnectThrottleMs fr_first = 5000" "timers fr_first = [(11000, ReconnectStored)]"
  "disconnect_calls fr_first = [(0, ''Force reconnect'')]"
  "connectionParams fr_first = Some p0" "length (sockets fr_first) = 1"
    using eff by (simp_all add: fr_first_def cm_connected_fields cm_waiting_def)
qed

lemma fr_fired_fields:
  "socket fr_fired = Some 1" "status fr_fired = Connecting"
  "clock fr_fired = 11000" "lastReconnectTime fr_fired = 10000"
  "reconnectThrottleMs fr_fired = 5000" "timers fr_fired = [(11000, ReconnectStored)]"
  "disconnect_calls fr_fired = [(0, ''Force reconnect'')]"
proof -
  let ?s = "advance 1000 fr_first"
  have c: "canConnect ?s" by (simp add: canConnect_def advance_def fr_first_fields)
  have w: "fst (connect_begin None p0 ?s) = Waiting"
    by (rule connect_begin_waits[OF c]) (simp add: p0_def truthy_def)
  have eq: "fr_fired = snd (connect_begin None p0 ?s)"
    by (simp add: fr_fired_def run_timer_def advance_def fr_first_fields)
  from connect_begin_cases[OF c, of None p0] w
  have "status (snd (connect_begin None p0 ?s)) = Connecting \<and>
        socket (snd (connect_begin None p0 ?s)) = Some (length (sockets ?s)) \<and>
        disconnect_calls (snd (connect_begin None p0 ?s)) = disconnect_calls ?s"
    by auto
  then show "socket fr_fired = Some 1" "status fr_fired = Connecting"
    "disconnect_calls fr_fired = [(0, ''Force reconnect'')]"
    unfolding eq by (simp_all add: advance_def fr_first_fields)
  show "clock fr_fired = 11000" "lastReconnectTime fr_fired = 10000"
    "reconnectThrottleMs fr_fired = 5000" "timers fr_fired = [(11000, ReconnectStored)]"
    unfolding eq connect_begin_keeps by (simp_all add: advance_def fr_first_fields)
qed

lemma fr_second_fields:
  "clock fr_second = 14000" "lastReconnectTime fr_second = 10000"
  "reconnectThrottleMs fr_second = 5000" "timers fr_second = [(11000, ReconnectStored)]"
  "socket fr_second = Some 1" "disconnect_calls fr_second = [(0, ''Force reconnect'')]"
  by (simp_all add: fr_second_def advance_def fr_fired_fields)

lemma fr_second_throttled:
  "forceReconnect fr_second = warn ''Force reconnect throttled - too frequent'' fr_second"
  by (rule forceReconnect_throttled) (simp add: fr_second_fields)

lemma fr_third_fields:
  "clock fr_third = 16000" "lastReconnectTime fr_third = 10000"
  "reconnectThrottleMs fr_third = 5000" "timers fr_third = [(11000, ReconnectStored)]"
  "socket fr_third = Some 1" "disconnect_calls fr_third = [(0, ''Force reconnect'')]"
  by (simp_all add: fr_third_def fr_second_throttled advance_def warn_def fr_second_fields)

text \<open>
  C5 as stated fails: after a cycle at 10000 ms, whose timer reconnects at 11000 ms, a call
  at 14000 ms is dropped, and the call at 16000 ms, 2 s after that one, runs a second
  cycle: it disconnects the new transport and schedules a second reconnect.
\<close>

theorem force_reconnect_throttle_counterexample:
  "clock fr_third - clock fr_second = 2000 \<and>
   reconnectThrottleMs fr_second = 5000 \<and>
   forceReconnect fr_second = warn ''Force reconnect throttled - too frequent'' fr_second \<and>
   forceReconnect fr_third \<noteq> warn ''Force reconnect throttled - too frequent'' fr_third \<and>
   disconnect_calls fr_third = [(0, ''Force reconnect'')] \<and>
   disconnect_calls (forceReconnect fr_third)
     = [(0, ''Force reconnect''), (1, ''Force reconnect'')] \<and>
   timers (forceReconnect fr_third) = [(11000, ReconnectStored), (17000, ReconnectStored)]"
proof -
  have nt: "\<not> clock fr_third - lastReconnectTime fr_third < reconnectThrottleMs fr_third"
    by (simp add: fr_third_fields)
  note eff = forceReconnect_effect[OF nt]
  have t3: "timers (forceReconnect fr_third) = [(11000, ReconnectStored), (17000, ReconnectStored)]"
    using eff by (simp add: fr_third_fields)
  have d3: "disconnect_calls (forceReconnect fr_third)
              = [(0, ''Force reconnect''), (1, ''Force reconnect'')]"
    using eff by (simp add: fr_third_fields)
  have "timers (warn ''Force reconnect throttled - too frequent'' fr_third)
          = [(11000, ReconnectStored)]"
    by (simp add: warn_def fr_third_fields)
  then have ne: "forceReconnect fr_third
                   \<noteq> warn ''Force reconnect throttled - too frequent'' fr_third"
    using t3 by auto
  show ?thesis using fr_second_throttled ne t3 d3 by (simp add: fr_third_fields fr_second_fields)
qed

theorem force_reconnect_throttle_witness:
  "lastReconnectTime fr_second = lastReconnectTime (forceReconnect cm_connected) \<and>
   reconnectThrottleMs fr_second = reconnectThrottleMs cm_connected \<and>
   clock fr_second - clock cm_connected < reconnectThrottleMs cm_connected \<and>
   \<not> clock cm_connected - lastReconnectTime cm_connected < reconnectThrottleMs cm_connected \<and>
   connectionParams cm_connected = Some p0 \<and>
   forceReconnect fr_second = warn ''Force reconnect throttled - too frequent'' fr_second \<and>
   socket (forceReconnect cm_connected) = None \<and>
   status (forceReconnect cm_connected) = Disconnected \<and>
   disconnect_calls (forceReconnect cm_connected) = [(0, ''Force reconnect'')] \<and>
   reconnectAttempts (forceReconnect cm_connected) = 0 \<and>
   timers (forceReconnect cm_connected) = [(11000, ReconnectStored)] \<and>
   run_timer None ReconnectStored (advance 1000 (forceReconnect cm_connected))
     = (Some (fst (connect_begin None p0 (advance 1000 (forceReconnect cm_connected)))),
        snd (connect_begin None p0 (advance 1000 (forceReconnect cm_connected)))) \<and>
   lastReconnectTime fr_third = lastReconnectTime (forceReconnect fr_second) \<and>
   reconnectThrottleMs fr_third = reconnectThrottleMs fr_second \<and>
   clock fr_third - clock fr_second < reconnectThrottleMs fr_second \<and>
   clock fr_second - lastReconnectTime fr_second < reconnectThrottleMs fr_second"
proof -
  have h1: "lastReconnectTime fr_second = lastReconnectTime (forceReconnect cm_connected)"
    using fr_first_fields(4) by (simp add: fr_second_fields fr_first_def)
  have h2: "reconnectThrottleMs fr_second = reconnectThrottleMs cm_connected"
    by (simp add: fr_second_fields cm_connected_fields)
  have h3: "clock fr_second - clock cm_connected < reconnectThrottleMs cm_connected"
    by (simp add: fr_second_fields cm_connected_fields)
  have nt: "\<not> clock cm_connected - lastReconnectTime cm_connected
              < reconnectThrottleMs cm_connected"
    by (simp add: cm_connected_fields)
  have k1: "lastReconnectTime fr_third = lastReconnectTime (forceReconnect fr_second)"
    by (simp add: fr_third_fields fr_second_throttled warn_def fr_second_fields)
  have k2: "reconnectThrottleMs fr_third = reconnectThrottleMs fr_second"
    by (simp add: fr_third_fields fr_second_fields)
  have k3: "clock fr_third - clock fr_second < reconnectThrottleMs fr_second"
    by (simp add: fr_third_fields fr_second_fields)
  have t: "clock fr_second - lastReconnectTime fr_second < reconnectThrottleMs fr_second"
    by (simp add: fr_second_fields)
  show ?thesis
    using force_reconnect_throttle[OF h1 h2 h3, of None]
      force_reconnect_throttle[OF k1 k2 k3, of None] h1 h2 h3 nt k1 k2 k3 t
    by (simp add: cm_connected_fields)
qed

lemma connect_guard: "\<not> canConnect s \<Longrightarrow> connect ctor obs p s = (Inr (socket s), s)"
  by (simp add: connect_def connect_begin_guard)

text \<open>
  C7, as amended. A \<open>connect\<close> call made while the status is \<open>connecting\<close>,
  \<open>connected\<close> or \<open>reconnecting\<close> returns the current handle at once and changes
  nothing; so a call that follows a suspended call directly constructs no second transport.
\<close>

theorem connect_guard_no_second_transport:
  "(status s = Connecting \<or> status s = Connected \<or> status s = Reconnecting \<longrightarrow>
      connect_begin ctor p s = (Returned (socket s), s)) \<and>
   (fst (connect_begin ctor p s) = Waiting \<longrightarrow>
      connect_begin ctor' q (snd (connect_begin ctor p s))
        = (Returned (socket (snd (connect_begin ctor p s))), snd (connect_begin ctor p s)) \<and>
      length (sockets (snd (connect_begin ctor p s))) = length (sockets s) + 1)"
proof -
  have a: "status s = Connecting \<or> status s = Connected \<or> status s = Reconnecting \<longrightarrow>
      connect_begin ctor p s = (Returned (socket s), s)"
    by (auto simp: connect_begin_guard canConnect_def)
  have b: "fst (connect_begin ctor p s) = Waiting \<longrightarrow>
      connect_begin ctor' q (snd (connect_begin ctor p s))
        = (Returned (socket (snd (connect_begin ctor p s))), snd (connect_begin ctor p s)) \<and>
      length (sockets (snd (connect_begin ctor p s))) = length (sockets s) + 1"
  proof
    assume w: "fst (connect_begin ctor p s) = Waiting"
    have cc: "canConnect s"
    proof (rule ccontr)
      assume "\<not> canConnect s"
      then show False using w by (simp add: connect_begin_guard)
    qed
    from connect_begin_cases[OF cc, of ctor p] w
    have st: "status (snd (connect_begin ctor p s)) = Connecting"
      and len: "length (sockets (snd (connect_begin ctor p s))) = length (sockets s) + 1"
      by auto
    from st have "\<not> canConnect (snd (connect_begin ctor p s))" by (simp add: canConnect_def)
    then show "connect_begin ctor' q (snd (connect_begin ctor p s))
        = (Returned (socket (snd (connect_begin ctor p s))), snd (connect_begin ctor p s)) \<and>
      length (sockets (snd (connect_begin ctor p s))) = length (sockets s) + 1"
      using len by (simp add: connect_begin_guard)
  qed
  show ?thesis using a b by blast
qed

theorem connect_guard_no_second_transport_witness:
  "status cm_waiting = Connecting \<and>
   connect_begin None p_other cm_waiting = (Returned (Some 0), cm_waiting) \<and>
   fst (connect_begin None p0 cm0) = Waiting \<and>
   connect_begin None p_other (snd (connect_begin None p0 cm0))
     = (Returned (Some 0), snd (connect_begin None p0 cm0)) \<and>
   length (sockets (snd (connect_begin None p0 cm0))) = 1"
proof -
  have v: "status cm_waiting = Connecting" "socket cm_waiting = Some 0"
    by (simp_all add: cm_waiting_def)
  have w: "fst (connect_begin None p0 cm0) = Waiting" by (simp add: cm_waiting_reached)
  have z: "sockets cm0 = []" by (simp add: cm0_def new_connection_manager_def)
  show ?thesis
    using connect_guard_no_second_transport[where s = cm_waiting and ctor = None and p = p_other]
      connect_guard_no_second_transport[where s = cm0 and ctor = None and p = p0
        and ctor' = None and q = p_other] v w z
    by (simp add: cm_waiting_reached)
qed

lemma socket_onError_generic:
  "\<not> str_includes (errorMessage err) ''unhandled poll status'' \<Longrightarrow> status s \<noteq> Reconnecting \<Longrightarrow>
   socket_onError err s =
     s\<lparr> status := ErrorStatus, error := Some err, transitions := transitions s @ [ErrorStatus],
        emitted := emitted s @ [(EV_ERROR, ''socket'')] \<rparr>"
  by (simp add: socket_onError_def handleSocketError_def updateState_def emit_def Let_def)

text \<open>
  C7 as stated fails: while a first \<open>connect\<close> is suspended in its wait, an error of
  the socket sets the status to \<open>error\<close>, and a second \<open>connect\<close> then constructs a
  second transport and is suspended too.
\<close>

theorem single_connect_in_flight_counterexample:
  "connect_begin None p0 cm0 = (Waiting, cm_waiting) \<and>
   status (socket_onError boom cm_waiting) = ErrorStatus \<and>
   fst (connect_begin None p0 (socket_onError boom cm_waiting)) = Waiting \<and>
   length (sockets (snd (connect_begin None p0 (socket_onError boom cm_waiting)))) = 2 \<and>
   socket (snd (connect_begin None p0 (socket_onError boom cm_waiting))) = Some 1"
proof -
  have ne: "\<not> str_includes (errorMessage boom) ''unhandled poll status''"
    by (simp add: boom_def)
  have e: "socket_onError boom cm_waiting =
     cm_waiting\<lparr> status := ErrorStatus, error := Some boom,
        transitions := transitions cm_waiting @ [ErrorStatus],
        emitted := emitted cm_waiting @ [(EV_ERROR, ''socket'')] \<rparr>"
    by (rule socket_onError_generic[OF ne]) (simp add: cm_waiting_def)
  have cc: "canConnect (socket_onError boom cm_waiting)" unfolding e by (simp add: canConnect_def)
  have url: "buildSocketUrl 
      (mergeConnectionParams p0 (updateState (\<lambda>t. t\<lparr> status := Connecting, error := None \<rparr>) (socket_onError boom cm_waiting))) 
      (updateState (\<lambda>t. t\<lparr> status := Connecting, error := None \<rparr>) (socket_onError boom cm_waiting)) = Inr ''wss://x/socket''"
    unfolding e
    by (simp add: buildSocketUrl_def mergeConnectionParams_def loadConnectionParams_def
        updateState_def cm_waiting_def p0_def truthy_def str_of_def Let_def)
  have "\<not> (\<exists>x. fst (connect_begin None p0 (socket_onError boom cm_waiting)) = Thrown x)"
    using cc url by (simp add: connect_begin_def Let_def createSocket_def)
  with connect_begin_cases[OF cc, of None p0]
  have w: "fst (connect_begin None p0 (socket_onError boom cm_waiting)) = Waiting"
    and so: "socket (snd (connect_begin None p0 (socket_onError boom cm_waiting)))
              = Some (length (sockets (socket_onError boom cm_waiting)))"
    and len: "length (sockets (snd (connect_begin None p0 (socket_onError boom cm_waiting))))
              = length (sockets (socket_onError boom cm_waiting)) + 1"
    by auto
  have l1: "length (sockets (socket_onError boom cm_waiting)) = 1"
    unfolding e by (simp add: cm_waiting_def)
  have st: "status (socket_onError boom cm_waiting) = ErrorStatus" unfolding e by simp
  show ?thesis using w so len l1 st by (simp add: cm_waiting_reached)
qed

lemma checkConnection_never:
  "\<forall>k. \<not> obs k \<Longrightarrow> a < maxAttempts \<Longrightarrow>
   checkConnection obs a
     = (Rejected (JsError ''Connection check limit exceeded'' None), (maxAttempts - 1) * checkInterval)"
proof (induction obs a rule: checkConnection.induct)
  case (1 obs attempts)
  have nt: "\<not> connectTimeoutMs \<le> attempts * checkInterval"
    using "1.prems"(2) by (simp add: connectTimeoutMs_def maxAttempts_def checkInterval_def)
  show ?case
  proof (cases "attempts + 1 \<ge> maxAttempts")
    case True
    then have "attempts = maxAttempts - 1" using "1.prems"(2) by simp
    then show ?thesis using nt True by (subst checkConnection.simps) simp
  next
    case False
    have no: "\<not> obs (attempts + 1)" using "1.prems"(1) by blast
    have step: "checkConnection obs attempts = checkConnection obs (attempts + 1)"
      using nt no False by (subst checkConnection.simps) simp
    have "attempts + 1 < maxAttempts" using False by simp
    then have "checkConnection obs (attempts + 1)
       = (Rejected (JsError ''Connection check limit exceeded'' None), (maxAttempts - 1) * checkInterval)"
      using "1.IH"[OF nt False no "1.prems"(1)] by simp
    then show ?thesis using step by simp
  qed
qed

lemma connect_failure:
  assumes "connect ctor obs p s = (Inl e, s')"
  shows "status s' = ErrorStatus \<and> reconnectAttempts s' = reconnectAttempts s + 1 \<and>
         error s' = Some (JsErr e) \<and> emitted s' = emitted s @ [(EV_ERROR, ''connection'')]"
proof (cases "canConnect s")
  case False
  then show ?thesis using assms by (simp add: connect_guard)
next
  case True
  let ?b = "connect_begin ctor p s"
  have pair: "?b = (fst ?b, snd ?b)" by simp
  from connect_begin_cases[OF True, of ctor p]
  consider (thrown) e0 where "fst ?b = Thrown e0"
      "snd ?b = handleConnectionError e0 (updateState (\<lambda>t. t\<lparr> status := Connecting, error := None \<rparr>) s)"
    | (waiting) "fst ?b = Waiting" "reconnectAttempts (snd ?b) = reconnectAttempts s"
        "emitted (snd ?b) = emitted s"
    by auto
  then show ?thesis
  proof cases
    case thrown
    then have "connect ctor obs p s = (Inl e0, snd ?b)"
      unfolding connect_def by (subst pair) simp
    then have "e0 = e" "s' = snd ?b" using assms by simp_all
    then show ?thesis using thrown(2) by (simp add: handleConnectionError_fields updateState_def)
  next
    case waiting
    let ?w = "waitForConnection (socket (snd ?b) \<noteq> None) obs"
    let ?s1 = "(snd ?b)\<lparr> clock := clock (snd ?b) + int (snd ?w) \<rparr>"
    have c: "connect ctor obs p s = connect_settle (fst ?w) ?s1"
      unfolding connect_def using waiting(1) by (subst pair) simp
    show ?thesis
    proof (cases "fst ?w")
      case Resolved
      then show ?thesis using c assms by (simp add: connect_settle_def)
    next
      case (Rejected e1)
      then have "connect ctor obs p s = (Inl e1, handleConnectionError e1 ?s1)"
        using c by (simp add: connect_settle_def)
      then have "e1 = e" "s' = handleConnectionError e1 ?s1" using assms by simp_all
      then show ?thesis using waiting(2,3) by (simp add: handleConnectionError_fields)
    qed
  qed
qed

text \<open>
  C8. The wait of a \<open>connect\<close> call settles within 10000 ms; a \<open>connect\<close> call that
  fails (in the \<open>try\<close> before the wait, or by the wait rejecting) leaves the status
  \<open>error\<close>, \<open>reconnectAttempts\<close> one higher, the error stored and given to the caller
  and an error event emitted; the open callback of the socket, which marks a successful
  (re)connect, sets \<open>reconnectAttempts\<close> to 0.
\<close>

theorem connect_wait_bound_and_failure:
  "snd (waitForConnection hs obs) \<le> 10000 \<and>
   (\<forall>e s'. connect ctor obs p s = (Inl e, s') \<longrightarrow>
      status s' = ErrorStatus \<and> reconnectAttempts s' = reconnectAttempts s + 1 \<and>
      error s' = Some (JsErr e) \<and> emitted s' = emitted s @ [(EV_ERROR, ''connection'')]) \<and>
   fst (connect_settle (Rejected e0) s) = Inl e0 \<and>
   status (snd (connect_settle (Rejected e0) s)) = ErrorStatus \<and>
   reconnectAttempts (snd (connect_settle (Rejected e0) s)) = reconnectAttempts s + 1 \<and>
   reconnectAttempts (socket_onOpen s) = 0 \<and> status (socket_onOpen s) = Connected"
proof -
  have a: "snd (waitForConnection hs obs) \<le> 10000"
    using waitForConnection_bound[of hs obs] by (simp add: connectTimeoutMs_def)
  have b: "\<forall>e s'. connect ctor obs p s = (Inl e, s') \<longrightarrow>
      status s' = ErrorStatus \<and> reconnectAttempts s' = reconnectAttempts s + 1 \<and>
      error s' = Some (JsErr e) \<and> emitted s' = emitted s @ [(EV_ERROR, ''connection'')]"
    using connect_failure by blast
  show ?thesis using a b
    by (simp add: connect_settle_rejected handleConnectionError_fields socket_onOpen_fields)
qed

lemma connect_never_connected:
  "connect None never_connected p0 cm0 =
     (Inl (JsError ''Connection check limit exceeded'' None),
      handleConnectionError (JsError ''Connection check limit exceeded'' None)
        (cm_waiting\<lparr> clock := 14950 \<rparr>))"
proof -
  have w: "waitForConnection True never_connected
             = (Rejected (JsError ''Connection check limit exceeded'' None), 4950)"
    using checkConnection_never[of never_connected 0]
    by (simp add: waitForConnection_def never_connected_def maxAttempts_def checkInterval_def)
  have s: "(socket cm_waiting \<noteq> None) = True" "clock cm_waiting = 10000"
    by (simp_all add: cm_waiting_def)
  show ?thesis
    by (simp add: connect_def cm_waiting_reached s w connect_settle_def del: not_None_eq)
qed

theorem connect_wait_bound_and_failure_witness:
  "fst (connect None never_connected p0 cm0)
     = Inl (JsError ''Connection check limit exceeded'' None) \<and>
   status (snd (connect None never_connected p0 cm0)) = ErrorStatus \<and>
   reconnectAttempts (snd (connect None never_connected p0 cm0)) = 1 \<and>
   error (snd (connect None never_connected p0 cm0))
     = Some (JsErr (JsError ''Connection check limit exceeded'' None)) \<and>
   emitted (snd (connect None never_connected p0 cm0)) = [(''phoenix_error'', ''connection'')] \<and>
   snd (waitForConnection True never_connected) \<le> 10000"
proof -
  have z: "reconnectAttempts cm0 = 0" "emitted cm0 = []"
    by (simp_all add: cm0_def new_connection_manager_def)
  show ?thesis
    using connect_wait_bound_and_failure[where hs = True and obs = never_connected
        and ctor = None and p = p0 and s = cm0] connect_never_connected z
    by (simp add: EV_ERROR_def)
qed

subsection \<open>Poll-status errors without a transport\<close>

lemma handlePollStatusError_sockets:
  "sockets (handlePollStatusError err s) = sockets s \<and>
   status (handlePollStatusError err s) = (if socket s = None then Reconnecting else Disconnected)"
proof (cases "socket s")
  case None
  then have "socket (poll_prep s) = None" by (simp add: poll_prep_fields)
  then have "disconnect (Some ''Poll status recovery'') (poll_prep s) = poll_prep s"
    by (rule disconnect_None)
  then show ?thesis using None
    by (simp add: handlePollStatusError_alt Let_def poll_prep_fields)
       (simp add: poll_prep_def updateState_def updateConfig_def saveConfig_def warn_def Let_def)
next
  case (Some h)
  then have "socket (poll_prep s) = Some h" by (simp add: poll_prep_fields)
  then show ?thesis using Some
    by (simp add: handlePollStatusError_alt Let_def disconnect_Some poll_prep_fields)
       (simp add: poll_prep_def updateState_def updateConfig_def saveConfig_def warn_def Let_def)
qed

lemma poll_error_matches:
  "socket_onError poll_error s = handlePollStatusError poll_error s"
proof -
  have "errorMessage poll_error = ''unhandled poll status undefined''"
    by (rule errorMessage_of_message) (simp_all add: poll_error_def)
  then show ?thesis by (simp add: socket_onError_def handleSocketError_def)
qed

lemma poll_once_fields:
  "socket poll_once = None" "status poll_once = Disconnected"
  "timers poll_once = [(12000, ReconnectStored)]" "connectionParams poll_once = Some p0"
  "clock poll_once = 10000" "sockets poll_once = sockets cm_connected"
  "reconnectAttempts poll_once = 0" "useLongPoll (config poll_once) = False"
  using handlePollStatusError_effect[of poll_error cm_connected]
    handlePollStatusError_sockets[of poll_error cm_connected]
  by (simp_all add: poll_once_def poll_error_matches cm_connected_fields)

lemma poll_twice_fields:
  "socket poll_twice = None" "status poll_twice = Reconnecting"
  "timers poll_twice = [(12000, ReconnectStored), (12500, ReconnectStored)]"
  "connectionParams poll_twice = Some p0" "clock poll_twice = 10500"
  "sockets poll_twice = sockets cm_connected" "reconnectAttempts poll_twice = 0"
  using handlePollStatusError_effect[of poll_error "advance 500 poll_once"]
    handlePollStatusError_sockets[of poll_error "advance 500 poll_once"]
  by (simp_all add: poll_twice_def poll_error_matches advance_def poll_once_fields)

text \<open>After one error on a connected manager the timer's \<open>connect\<close> constructs a transport.\<close>

lemma poll_once_reconnects:
  "fst (run_timer None ReconnectStored (advance 2000 poll_once)) = Some Waiting \<and>
   status (snd (run_timer None ReconnectStored (advance 2000 poll_once))) = Connecting \<and>
   socket (snd (run_timer None ReconnectStored (advance 2000 poll_once))) = Some 1 \<and>
   length (sockets (snd (run_timer None ReconnectStored (advance 2000 poll_once)))) = 2"
proof -
  let ?s = "advance 2000 poll_once"
  have c: "canConnect ?s" by (simp add: canConnect_def advance_def poll_once_fields)
  have w: "fst (connect_begin None p0 ?s) = Waiting"
    by (rule connect_begin_waits[OF c]) (simp add: p0_def truthy_def)
  have eq: "run_timer None ReconnectStored ?s
              = (Some (fst (connect_begin None p0 ?s)), snd (connect_begin None p0 ?s))"
    by (simp add: run_timer_def advance_def poll_once_fields)
  have l: "length (sockets ?s) = 1"
    by (simp add: advance_def poll_once_fields cm_connected_fields cm_waiting_def)
  from connect_begin_cases[OF c, of None p0] w
  have "status (snd (connect_begin None p0 ?s)) = Connecting \<and>
        socket (snd (connect_begin None p0 ?s)) = Some (length (sockets ?s)) \<and>
        length (sockets (snd (connect_begin None p0 ?s))) = length (sockets ?s) + 1"
    by auto
  then show ?thesis unfolding eq using w l by simp
qed

text \<open>
  C1 fails on the code. On a connected manager a first error whose message contains
  \<open>unhandled poll status\<close> releases the transport; a second one, 500 ms later, finds no
  transport: \<open>disconnect\<close> returns at once, the status stays \<open>reconnecting\<close>, and when
  the two timers are due, at 12000 ms and 12500 ms, \<open>connect\<close> returns at its guard with no
  handle: no transport is constructed and the status is still \<open>reconnecting\<close>.
\<close>

theorem poll_status_recovery_stuck:
  "str_includes (errorMessage poll_error) ''unhandled poll status'' \<and>
   poll_twice = socket_onError poll_error (advance 500 (socket_onError poll_error cm_connected)) \<and>
   status poll_once = Disconnected \<and> socket poll_once = None \<and>
   status poll_twice = Reconnecting \<and> socket poll_twice = None \<and>
   connectionParams poll_twice = Some p0 \<and>
   timers poll_twice = [(12000, ReconnectStored), (12500, ReconnectStored)] \<and>
   clock (advance 1500 poll_twice) = 12000 \<and>
   run_timer None ReconnectStored (advance 1500 poll_twice)
     = (Some (Returned None), advance 1500 poll_twice) \<and>
   run_timer None ReconnectStored (advance 2000 poll_twice)
     = (Some (Returned None), advance 2000 poll_twice) \<and>
   sockets (advance 2000 poll_twice) = sockets cm_connected \<and>
   length (sockets cm_connected) = 1 \<and>
   status (advance 2000 poll_twice) = Reconnecting"
proof -
  have m: "str_includes (errorMessage poll_error) ''unhandled poll status''"
  proof -
    have "errorMessage poll_error = ''unhandled poll status undefined''"
      by (rule errorMessage_of_message) (simp_all add: poll_error_def)
    then show ?thesis by simp
  qed
  have d: "poll_twice = socket_onError poll_error (advance 500 (socket_onError poll_error cm_connected))"
    by (simp add: poll_twice_def poll_once_def)
  have g: "\<not> canConnect (advance k poll_twice)" for k
    by (simp add: canConnect_def advance_def poll_twice_fields)
  have t: "run_timer None ReconnectStored (advance k poll_twice)
             = (Some (Returned None), advance k poll_twice)" for k
    using connect_begin_guard[OF g[of k], where ctor = None and p = p0]
    by (simp add: run_timer_def advance_def poll_twice_fields)
  have l: "length (sockets cm_connected) = 1"
    by (simp add: cm_connected_fields cm_waiting_def)
  show ?thesis using m d t[of 1500] t[of 2000] l
    by (simp add: poll_once_fields poll_twice_fields advance_def)
qed

text \<open>
  The single-class client takes the same recovery steps (status \<open>reconnecting\<close>, no
  transport held, \<open>connect\<close> from a timer), and its \<open>connect\<close> stops only in the status
  \<open>connecting\<close>: from \<open>reconnecting\<close> it constructs a transport.
\<close>

lemma lc_connect_from_reconnecting:
  assumes "lc_connectionState s = Reconnecting" "lc_socket s = None"
    "endpoint p = Some e" "e \<noteq> []"
  shows "fst (lc_connect None tc p s) = Inr (Some (length (lc_sockets s))) \<and>
         length (lc_sockets (snd (lc_connect None tc p s))) = length (lc_sockets s) + 1"
  using assms
  by (simp add: lc_connect_def lc_isConnected_def Let_def lc_effectiveOptions_def
      lc_getSocketUrl_def truthy_def lc_persistConnectionParams_def
      split: option.splits)

section \<open>Connect while connected\<close>

lemma lc_connect_unchanged:
  "lc_isConnected tc s \<Longrightarrow> \<not> lc_hasConnectionParamsChanged (lc_effectiveOptions p s) s \<Longrightarrow>
   lc_connect ctor tc p s = (Inr (lc_socket s), s)"
  by (simp add: lc_connect_def Let_def)

lemma lc_disconnect_fields:
  "lc_socket s = Some h \<Longrightarrow>
   lc_socket (lc_disconnect s) = None \<and> lc_connectionState (lc_disconnect s) = Disconnected \<and>
   lc_disconnect_calls (lc_disconnect s) = lc_disconnect_calls s @ [(h, ''Client disconnect'')] \<and>
   lc_connectionParams (lc_disconnect s) = lc_connectionParams s \<and>
   lc_sockets (lc_disconnect s) = lc_sockets s \<and> lc_config (lc_disconnect s) = lc_config s \<and>
   lc_env (lc_disconnect s) = lc_env s"
  by (simp add: lc_disconnect_def)

lemma lc_effectiveOptions_disconnect:
  "lc_effectiveOptions p (lc_disconnect s) = lc_effectiveOptions p s"
  by (simp add: lc_effectiveOptions_def lc_disconnect_def split: option.splits)

lemma lc_disconnect_idem: "lc_disconnect (lc_disconnect s) = lc_disconnect s"
  by (simp add: lc_disconnect_def split: option.splits)

lemma lc_connect_changed:
  assumes "lc_isConnected tc s"
    and "lc_hasConnectionParamsChanged (lc_effectiveOptions p s) s"
  shows "lc_connect ctor tc p s = lc_connect ctor False p (lc_disconnect s)"
proof -
  have a: "\<not> lc_isConnected False (lc_disconnect s)" by (simp add: lc_isConnected_def)
  show ?thesis using assms a
    by (simp add: lc_connect_def[of ctor tc p s] lc_connect_def[of ctor False p "lc_disconnect s"]
        lc_effectiveOptions_disconnect Let_def)
qed

lemma lc_connect_fresh:
  assumes "\<not> lc_isConnected tc s" and "lc_connectionState s \<noteq> Connecting"
  shows "lc_connectionParams (snd (lc_connect ctor tc p s)) = Some (lc_effectiveOptions p s) \<and>
         lc_disconnect_calls (snd (lc_connect ctor tc p s)) = lc_disconnect_calls s \<and>
         (\<forall>h. fst (lc_connect ctor tc p s) = Inr h \<longrightarrow>
            h = Some (length (lc_sockets s)) \<and>
            lc_socket (snd (lc_connect ctor tc p s)) = h \<and>
            lc_connectionState (snd (lc_connect ctor tc p s)) = Connecting \<and>
            length (lc_sockets (snd (lc_connect ctor tc p s))) = length (lc_sockets s) + 1)"
proof -
  let ?s2 = "lc_persistConnectionParams
               (s\<lparr> lc_connectionState := Connecting,
                   lc_connectionParams := Some (lc_effectiveOptions p s) \<rparr>)"
  have f: "lc_connectionParams ?s2 = Some (lc_effectiveOptions p s)"
    "lc_disconnect_calls ?s2 = lc_disconnect_calls s" "lc_sockets ?s2 = lc_sockets s"
    "lc_connectionState ?s2 = Connecting"
    by (simp_all add: lc_persistConnectionParams_def)
  show ?thesis
  proof (cases "lc_getSocketUrl (lc_effectiveOptions p s) ?s2")
    case (Inl e)
    then show ?thesis using assms f by (simp add: lc_connect_def Let_def)
  next
    case (Inr u)
    then show ?thesis using assms f by (cases ctor) (simp_all add: lc_connect_def Let_def)
  qed
qed

text \<open>
  C2, as amended. The connection manager's \<open>connect\<close>, called while the status is
  \<open>connected\<close>, returns the existing handle and changes nothing, whatever the parameters.
  It is \<open>PhoenixClient.connect\<close> that compares them: while the socket reports connected,
  it returns the existing handle when \<open>_hasConnectionParamsChanged\<close> finds no change in
  the effective parameters, and otherwise disconnects first and then connects anew with
  the effective parameters.
\<close>

theorem connect_while_connected:
  "(status s = Connected \<longrightarrow> connect ctor obs p s = (Inr (socket s), s)) \<and>
   (lc_isConnected tc c \<and> \<not> lc_hasConnectionParamsChanged (lc_effectiveOptions p c) c \<longrightarrow>
      lc_connect ctor tc p c = (Inr (lc_socket c), c)) \<and>
   (lc_isConnected tc c \<and> lc_hasConnectionParamsChanged (lc_effectiveOptions p c) c \<longrightarrow>
      lc_connect ctor tc p c = lc_connect ctor False p (lc_disconnect c) \<and>
      lc_socket (lc_disconnect c) = None \<and>
      lc_disconnect_calls (snd (lc_connect ctor tc p c))
        = lc_disconnect_calls c @ (case lc_socket c of None \<Rightarrow> []
                                   | Some k \<Rightarrow> [(k, ''Client disconnect'')]) \<and>
      lc_connectionParams (snd (lc_connect ctor tc p c)) = Some (lc_effectiveOptions p c) \<and>
      (\<forall>h. fst (lc_connect ctor tc p c) = Inr h \<longrightarrow>
         h = Some (length (lc_sockets c)) \<and>
         lc_socket (snd (lc_connect ctor tc p c)) = h \<and>
         lc_connectionState (snd (lc_connect ctor tc p c)) = Connecting \<and>
         length (lc_sockets (snd (lc_connect ctor tc p c))) = length (lc_sockets c) + 1))"
proof -
  have a: "status s = Connected \<longrightarrow> connect ctor obs p s = (Inr (socket s), s)"
    by (simp add: connect_guard canConnect_def)
  have b: "lc_isConnected tc c \<and> \<not> lc_hasConnectionParamsChanged (lc_effectiveOptions p c) c \<longrightarrow>
      lc_connect ctor tc p c = (Inr (lc_socket c), c)"
    by (simp add: lc_connect_unchanged)
  have d: "lc_isConnected tc c \<and> lc_hasConnectionParamsChanged (lc_effectiveOptions p c) c \<longrightarrow>
      lc_connect ctor tc p c = lc_connect ctor False p (lc_disconnect c) \<and>
      lc_socket (lc_disconnect c) = None \<and>
      lc_disconnect_calls (snd (lc_connect ctor tc p c))
        = lc_disconnect_calls c @ (case lc_socket c of None \<Rightarrow> []
                                   | Some k \<Rightarrow> [(k, ''Client disconnect'')]) \<and>
      lc_connectionParams (snd (lc_connect ctor tc p c)) = Some (lc_effectiveOptions p c) \<and>
      (\<forall>h. fst (lc_connect ctor tc p c) = Inr h \<longrightarrow>
         h = Some (length (lc_sockets c)) \<and>
         lc_socket (snd (lc_connect ctor tc p c)) = h \<and>
         lc_connectionState (snd (lc_connect ctor tc p c)) = Connecting \<and>
         length (lc_sockets (snd (lc_connect ctor tc p c))) = length (lc_sockets c) + 1)"
  proof
    assume h: "lc_isConnected tc c \<and> lc_hasConnectionParamsChanged (lc_effectiveOptions p c) c"
    then obtain k where k: "lc_socket c = Some k" by (auto simp: lc_isConnected_def)
    note df = lc_disconnect_fields[OF k]
    have eq: "lc_connect ctor tc p c = lc_connect ctor False p (lc_disconnect c)"
      using h by (simp add: lc_connect_changed)
    have nc: "\<not> lc_isConnected False (lc_disconnect c)" by (simp add: lc_isConnected_def)
    have ns: "lc_connectionState (lc_disconnect c) \<noteq> Connecting" using df by simp
    note fr = lc_connect_fresh[OF nc ns, of ctor p]
    show "lc_connect ctor tc p c = lc_connect ctor False p (lc_disconnect c) \<and>
      lc_socket (lc_disconnect c) = None \<and>
      lc_disconnect_calls (snd (lc_connect ctor tc p c))
        = lc_disconnect_calls c @ (case lc_socket c of None \<Rightarrow> []
                                   | Some k \<Rightarrow> [(k, ''Client disconnect'')]) \<and>
      lc_connectionParams (snd (lc_connect ctor tc p c)) = Some (lc_effectiveOptions p c) \<and>
      (\<forall>h. fst (lc_connect ctor tc p c) = Inr h \<longrightarrow>
         h = Some (length (lc_sockets c)) \<and>
         lc_socket (snd (lc_connect ctor tc p c)) = h \<and>
         lc_connectionState (snd (lc_connect ctor tc p c)) = Connecting \<and>
         length (lc_sockets (snd (lc_connect ctor tc p c))) = length (lc_sockets c) + 1)"
      using fr df k by (simp add: eq lc_effectiveOptions_disconnect)
  qed
  show ?thesis using a b d by blast
qed

text \<open>
  C2 as stated fails for the connection manager: connected with endpoint
  \<open>wss://x/socket\<close>, a \<open>connect\<close> with endpoint \<open>wss://other/socket\<close> returns the
  existing handle; nothing is disconnected and no transport is constructed.
\<close>

theorem connect_while_connected_counterexample:
  "status cm_connected = Connected \<and> isConnected True cm_connected \<and>
   connectionParams cm_connected = Some p0 \<and> endpoint p0 = Some ''wss://x/socket'' \<and>
   endpoint (mergeConnectionParams p_other cm_connected) = Some ''wss://other/socket'' \<and>
   connect None never_connected p_other cm_connected = (Inr (Some 0), cm_connected) \<and>
   disconnect_calls cm_connected = [] \<and> length (sockets cm_connected) = 1"
proof -
  have nc: "\<not> canConnect cm_connected"
    by (simp add: canConnect_def cm_connected_def cm_waiting_def)
  have m: "endpoint (mergeConnectionParams p_other cm_connected) = Some ''wss://other/socket''"
    by (simp add: mergeConnectionParams_def p_other_def Let_def)
  have i: "isConnected True cm_connected"
    by (simp add: isConnected_def cm_connected_def cm_waiting_def)
  show ?thesis using connect_guard[OF nc, of None never_connected p_other] m i
    by (simp add: cm_connected_def cm_waiting_def p0_def)
qed

lemma lc_changed_other:
  "lc_hasConnectionParamsChanged (lc_effectiveOptions p_other lc_connected) lc_connected"
  by (simp add: lc_hasConnectionParamsChanged_def lc_effectiveOptions_def lc_connected_def
      p_other_def p0_def or_else_def truthy_def Let_def)

lemma lc_unchanged_same:
  "\<not> lc_hasConnectionParamsChanged (lc_effectiveOptions p0 lc_connected) lc_connected"
  by (simp add: lc_hasConnectionParamsChanged_def lc_effectiveOptions_def lc_connected_def
      p0_def or_else_def truthy_def or_empty_def spread_def Let_def)

lemma lc_connect_other_result: "fst (lc_connect None True p_other lc_connected) = Inr (Some 1)"
proof -
  have "lc_getSocketUrl (lc_effectiveOptions p_other lc_connected)
          (lc_persistConnectionParams
             ((lc_disconnect lc_connected)\<lparr> lc_connectionState := Connecting,
                 lc_connectionParams := Some (lc_effectiveOptions p_other lc_connected) \<rparr>))
        = Inr ''wss://other/socket''"
    by (simp add: lc_getSocketUrl_def lc_effectiveOptions_def p_other_def lc_connected_def
        truthy_def str_of_def Let_def)
  moreover have "lc_isConnected True lc_connected"
    "lc_connectionState (lc_disconnect lc_connected) \<noteq> Connecting"
    "lc_sockets (lc_disconnect lc_connected) = lc_sockets lc_connected"
    "length (lc_sockets lc_connected) = 1"
    by (simp_all add: lc_isConnected_def lc_disconnect_def lc_connected_def)
  ultimately show ?thesis using lc_changed_other
    by (simp add: lc_connect_def Let_def lc_persistConnectionParams_def)
qed

theorem connect_while_connected_witness:
  "status cm_connected = Connected \<and>
   connect None never_connected p_other cm_connected = (Inr (Some 0), cm_connected) \<and>
   lc_isConnected True lc_connected \<and>
   \<not> lc_hasConnectionParamsChanged (lc_effectiveOptions p0 lc_connected) lc_connected \<and>
   lc_connect None True p0 lc_connected = (Inr (Some 0), lc_connected) \<and>
   lc_hasConnectionParamsChanged (lc_effectiveOptions p_other lc_connected) lc_connected \<and>
   fst (lc_connect None True p_other lc_connected) = Inr (Some 1) \<and>
   lc_disconnect_calls (snd (lc_connect None True p_other lc_connected))
     = [(0, ''Client disconnect'')] \<and>
   lc_connectionParams (snd (lc_connect None True p_other lc_connected))
     = Some \<lparr> endpoint = Some ''wss://other/socket'', params = Some [(''token'', ''abc'')] \<rparr> \<and>
   lc_socket (snd (lc_connect None True p_other lc_connected)) = Some 1 \<and>
   length (lc_sockets (snd (lc_connect None True p_other lc_connected))) = 2"
proof -
  have i: "lc_isConnected True lc_connected" by (simp add: lc_isConnected_def lc_connected_def)
  have st: "status cm_connected = Connected" "socket cm_connected = Some 0"
    by (simp_all add: cm_connected_def cm_waiting_def)
  have v: "lc_socket lc_connected = Some 0" "lc_disconnect_calls lc_connected = []"
    "length (lc_sockets lc_connected) = 1"
    by (simp_all add: lc_connected_def)
  have e: "lc_effectiveOptions p_other lc_connected
            = \<lparr> endpoint = Some ''wss://other/socket'', params = Some [(''token'', ''abc'')] \<rparr>"
    by (simp add: lc_effectiveOptions_def lc_connected_def p_other_def p0_def or_empty_def
        spread_def Let_def)
  note T1 = connect_while_connected[where s = cm_connected and ctor = None
      and obs = never_connected and p = p_other and tc = True and c = lc_connected]
  note T2 = connect_while_connected[where s = cm_connected and ctor = None
      and obs = never_connected and p = p0 and tc = True and c = lc_connected]
  from T1 st have a: "connect None never_connected p_other cm_connected = (Inr (Some 0), cm_connected)"
    by simp
  from T2 i lc_unchanged_same
  have b: "lc_connect None True p0 lc_connected = (Inr (Some 0), lc_connected)"
    using v by simp
  from T1 i lc_changed_other
  have d: "lc_disconnect_calls (snd (lc_connect None True p_other lc_connected))
             = lc_disconnect_calls lc_connected @ (case lc_socket lc_connected of None \<Rightarrow> []
                                   | Some k \<Rightarrow> [(k, ''Client disconnect'')])"
    and f: "lc_connectionParams (snd (lc_connect None True p_other lc_connected))
             = Some (lc_effectiveOptions p_other lc_connected)"
    and g: "\<forall>h. fst (lc_connect None True p_other lc_connected) = Inr h \<longrightarrow>
         h = Some (length (lc_sockets lc_connected)) \<and>
         lc_socket (snd (lc_connect None True p_other lc_connected)) = h \<and>
         lc_connectionState (snd (lc_connect None True p_other lc_connected)) = Connecting \<and>
         length (lc_sockets (snd (lc_connect None True p_other lc_connected)))
           = length (lc_sockets lc_connected) + 1"
    by blast+
  from g lc_connect_other_result
  have k: "lc_socket (snd (lc_connect None True p_other lc_connected)) = Some 1"
    "length (lc_sockets (snd (lc_connect None True p_other lc_connected))) = 2"
    using v by simp_all
  show ?thesis
    using a b d f k i st v e lc_changed_other lc_unchanged_same lc_connect_other_result
    by simp
qed

section \<open>Properties of the channel manager\<close>

lemma upd_chan_fields [simp]:
  "channels (upd_chan c f s) = channels s"
  "channelStates (upd_chan c f s) = channelStates s"
  "messageListeners (upd_chan c f s) = messageListeners s"
  "maxChannels (upd_chan c f s) = maxChannels s"
  "maxListenersPerEvent (upd_chan c f s) = maxListenersPerEvent s"
  "cm_socket (upd_chan c f s) = cm_socket s"
  "cm_clock (upd_chan c f s) = cm_clock s"
  "cm_emitted (upd_chan c f s) = cm_emitted s"
  "cm_warnings (upd_chan c f s) = cm_warnings s"
  "length (chans (upd_chan c f s)) = length (chans s)"
  by (simp_all add: upd_chan_def)

lemma upd_chan_nth:
  "c' < length (chans s) \<Longrightarrow>
   chans (upd_chan c f s) ! c' = (if c' = c then f (chans s ! c) else chans s ! c')"
  by (simp add: upd_chan_def)

lemma updateChannelState_fields [simp]:
  "channels (updateChannelState t u s) = channels s"
  "messageListeners (updateChannelState t u s) = messageListeners s"
  "maxChannels (updateChannelState t u s) = maxChannels s"
  "maxListenersPerEvent (updateChannelState t u s) = maxListenersPerEvent s"
  "cm_socket (updateChannelState t u s) = cm_socket s"
  "cm_clock (updateChannelState t u s) = cm_clock s"
  "cm_emitted (updateChannelState t u s) = cm_emitted s"
  "cm_warnings (updateChannelState t u s) = cm_warnings s"
  "chans (updateChannelState t u s) = chans s"
  by (simp_all add: updateChannelState_def Let_def)

lemma updateChannelState_present [simp]:
  "map_of (channelStates (updateChannelState t u s)) t \<noteq> None"
  by (simp add: updateChannelState_def Let_def AList.update_conv')

lemma updateChannelState_other:
  "map_of (channelStates s) t' \<noteq> None \<Longrightarrow>
   map_of (channelStates (updateChannelState t u s)) t' \<noteq> None"
  by (simp add: updateChannelState_def Let_def AList.update_conv')

lemma cm_emit_fields [simp]:
  "channels (cm_emit e t s) = channels s"
  "channelStates (cm_emit e t s) = channelStates s"
  "messageListeners (cm_emit e t s) = messageListeners s"
  "maxChannels (cm_emit e t s) = maxChannels s"
  "maxListenersPerEvent (cm_emit e t s) = maxListenersPerEvent s"
  "cm_socket (cm_emit e t s) = cm_socket s"
  "cm_clock (cm_emit e t s) = cm_clock s"
  "cm_warnings (cm_emit e t s) = cm_warnings s"
  "chans (cm_emit e t s) = chans s"
  by (simp_all add: cm_emit_def)

lemma cm_warn_fields [simp]:
  "channels (cm_warn m s) = channels s"
  "channelStates (cm_warn m s) = channelStates s"
  "messageListeners (cm_warn m s) = messageListeners s"
  "maxChannels (cm_warn m s) = maxChannels s"
  "maxListenersPerEvent (cm_warn m s) = maxListenersPerEvent s"
  "cm_socket (cm_warn m s) = cm_socket s"
  "cm_clock (cm_warn m s) = cm_clock s"
  "cm_emitted (cm_warn m s) = cm_emitted s"
  "chans (cm_warn m s) = chans s"
  "cm_warnings (cm_warn m s) = cm_warnings s @ [m]"
  by (simp_all add: cm_warn_def)

lemma setupChannelHandlers_fields [simp]:
  "channels (setupChannelHandlers t c s) = channels s"
  "channelStates (setupChannelHandlers t c s) = channelStates s"
  "messageListeners (setupChannelHandlers t c s) = messageListeners s"
  "maxChannels (setupChannelHandlers t c s) = maxChannels s"
  "maxListenersPerEvent (setupChannelHandlers t c s) = maxListenersPerEvent s"
  "cm_socket (setupChannelHandlers t c s) = cm_socket s"
  "cm_clock (setupChannelHandlers t c s) = cm_clock s"
  "cm_emitted (setupChannelHandlers t c s) = cm_emitted s"
  "cm_warnings (setupChannelHandlers t c s) = cm_warnings s"
  "length (chans (setupChannelHandlers t c s)) = length (chans s)"
  by (simp_all add: setupChannelHandlers_def)

lemma update_new_key: "map_of al k = None \<Longrightarrow> AList.update k v al = al @ [(k, v)]"
  by (induction al) (auto split: if_splits)

lemma show_nat_50: "show_nat 50 = ''50''"
  by (simp add: show_nat.simps)

lemma show_nat_10: "show_nat 10 = ''10''"
  by (simp add: show_nat.simps)

lemma joinChannel_begin_no_socket:
  "cm_socket s = None \<Longrightarrow>
   joinChannel_begin t ps s
     = (JThrown (createError ''Socket not connected'' (Some ''SOCKET_NOT_CONNECTED'')), s)"
  by (simp add: joinChannel_begin_def)

lemma joinChannel_begin_full:
  "cm_socket s \<noteq> None \<Longrightarrow> length (channels s) \<ge> maxChannels s \<Longrightarrow>
   joinChannel_begin t ps s
     = (JThrown (createError (''Maximum channels limit ('' @ show_nat (maxChannels s)
                              @ '') exceeded'') (Some ''MAX_CHANNELS_EXCEEDED'')), s)"
  by (auto simp add: joinChannel_begin_def)

lemma joinChannel_begin_joined:
  "cm_socket s \<noteq> None \<Longrightarrow> length (channels s) < maxChannels s \<Longrightarrow>
   map_of (channels s) t = Some c \<Longrightarrow> chan_state c s = Some ''joined'' \<Longrightarrow>
   joinChannel_begin t ps s = (JReturned c, s)"
  by (simp add: joinChannel_begin_def)

lemma joinChannel_begin_existing:
  assumes "cm_socket s \<noteq> None" "length (channels s) < maxChannels s"
    "map_of (channels s) t = Some c" "chan_state c s \<noteq> Some ''joined''"
  shows "joinChannel_begin t ps s =
     (case channel_join c (setupChannelHandlers t c
             (updateChannelState t (\<lambda>st. st\<lparr> cs_status := ChJoining \<rparr>) s)) of
        Inl e \<Rightarrow> (JThrown e, join_failed t e (setupChannelHandlers t c
             (updateChannelState t (\<lambda>st. st\<lparr> cs_status := ChJoining \<rparr>) s)))
      | Inr s5 \<Rightarrow> (JPending c, s5))"
proof -
  let ?s1 = "updateChannelState t (\<lambda>st. st\<lparr> cs_status := ChJoining \<rparr>) s"
  have "?s1\<lparr> channels := AList.update t c (channels ?s1) \<rparr> = ?s1"
    using assms(3) by (simp add: AList.update_triv)
  then show ?thesis using assms
    by (simp add: joinChannel_begin_def Let_def del: not_None_eq split: sum.splits)
qed

text \<open>
  A second \<open>join\<close> on a channel object: the transport throws, the \<open>catch\<close> of \<open>joinChannel\<close>
  sets the status to \<open>error\<close> and emits the channel error event, and the call rejects.
\<close>

lemma joinChannel_begin_rejoin:
  assumes "cm_socket s \<noteq> None" "length (channels s) < maxChannels s"
    "map_of (channels s) t = Some c" "chan_state c s \<noteq> Some ''joined''"
    "c < length (chans s)" "ch_joinedOnce (chans s ! c)"
  shows "joinChannel_begin t ps s =
     (JThrown join_twice_error,
      join_failed t join_twice_error
        (setupChannelHandlers t c
           (updateChannelState t (\<lambda>st. st\<lparr> cs_status := ChJoining \<rparr>) s)))"
proof -
  let ?s4 = "setupChannelHandlers t c
               (updateChannelState t (\<lambda>st. st\<lparr> cs_status := ChJoining \<rparr>) s)"
  have "ch_joinedOnce (chans ?s4 ! c)"
    using assms(5,6) by (simp add: setupChannelHandlers_def upd_chan_def)
  then have "channel_join c ?s4 = Inl join_twice_error"
    using assms(5) by (simp add: channel_join_def)
  then show ?thesis by (simp add: joinChannel_begin_existing[OF assms(1-4)])
qed

lemma joinChannel_begin_reuse:
  assumes "cm_socket s \<noteq> None" "length (channels s) < maxChannels s"
    "map_of (channels s) t = Some c" "chan_state c s \<noteq> Some ''joined''"
    "\<not> (c < length (chans s) \<and> ch_joinedOnce (chans s ! c))"
  shows "joinChannel_begin t ps s =
     (JPending c,
      upd_chan c (\<lambda>ch. ch\<lparr> ch_joinedOnce := True, ch_state := ''joining'' \<rparr>)
        (setupChannelHandlers t c
           (updateChannelState t (\<lambda>st. st\<lparr> cs_status := ChJoining \<rparr>) s)))"
proof -
  let ?s4 = "setupChannelHandlers t c
               (updateChannelState t (\<lambda>st. st\<lparr> cs_status := ChJoining \<rparr>) s)"
  have "\<not> (c < length (chans ?s4) \<and> ch_joinedOnce (chans ?s4 ! c))"
    using assms(5) by (auto simp: setupChannelHandlers_def upd_chan_def)
  then have "channel_join c ?s4
      = Inr (upd_chan c (\<lambda>ch. ch\<lparr> ch_joinedOnce := True, ch_state := ''joining'' \<rparr>) ?s4)"
    by (simp add: channel_join_def)
  then show ?thesis by (simp add: joinChannel_begin_existing[OF assms(1-4)])
qed

lemma joinChannel_begin_create:
  "cm_socket s \<noteq> None \<Longrightarrow> length (channels s) < maxChannels s \<Longrightarrow>
   map_of (channels s) t = None \<Longrightarrow>
   joinChannel_begin t ps s =
     (JPending (length (chans s)),
      upd_chan (length (chans s)) (\<lambda>ch. ch\<lparr> ch_joinedOnce := True, ch_state := ''joining'' \<rparr>)
        (setupChannelHandlers t (length (chans s))
           ((snd (socket_channel t ps
                    (updateChannelState t (\<lambda>st. st\<lparr> cs_status := ChJoining \<rparr>) s)))
              \<lparr> channels := channels s @ [(t, length (chans s))] \<rparr>)))"
  by (simp add: joinChannel_begin_def Let_def socket_channel_def update_new_key
      channel_join_def setupChannelHandlers_def upd_chan_def)

lemma join_failed_fields [simp]:
  "channels (join_failed t e s) = channels s"
  "maxChannels (join_failed t e s) = maxChannels s"
  "chans (join_failed t e s) = chans s"
  "messageListeners (join_failed t e s) = messageListeners s"
  "maxListenersPerEvent (join_failed t e s) = maxListenersPerEvent s"
  "cm_socket (join_failed t e s) = cm_socket s"
  "cm_clock (join_failed t e s) = cm_clock s"
  "cm_warnings (join_failed t e s) = cm_warnings s"
  by (simp_all add: join_failed_def)

text \<open>The three ways a \<open>joinChannel\<close> call goes on an existing, not joined channel or a new one.\<close>

lemma joinChannel_begin_cases:
  assumes "cm_socket s \<noteq> None" "length (channels s) < maxChannels s"
  obtains
    (joined) c where "map_of (channels s) t = Some c" "chan_state c s = Some ''joined''"
      "joinChannel_begin t ps s = (JReturned c, s)"
  | (rejoin) c where "map_of (channels s) t = Some c" "chan_state c s \<noteq> Some ''joined''"
      "c < length (chans s)" "ch_joinedOnce (chans s ! c)"
      "joinChannel_begin t ps s =
         (JThrown join_twice_error,
          join_failed t join_twice_error
            (setupChannelHandlers t c
               (updateChannelState t (\<lambda>st. st\<lparr> cs_status := ChJoining \<rparr>) s)))"
  | (reuse) c where "map_of (channels s) t = Some c" "chan_state c s \<noteq> Some ''joined''"
      "\<not> (c < length (chans s) \<and> ch_joinedOnce (chans s ! c))"
      "joinChannel_begin t ps s =
         (JPending c,
          upd_chan c (\<lambda>ch. ch\<lparr> ch_joinedOnce := True, ch_state := ''joining'' \<rparr>)
            (setupChannelHandlers t c
               (updateChannelState t (\<lambda>st. st\<lparr> cs_status := ChJoining \<rparr>) s)))"
  | (create) "map_of (channels s) t = None"
      "joinChannel_begin t ps s =
         (JPending (length (chans s)),
          upd_chan (length (chans s)) (\<lambda>ch. ch\<lparr> ch_joinedOnce := True, ch_state := ''joining'' \<rparr>)
            (setupChannelHandlers t (length (chans s))
               ((snd (socket_channel t ps
                        (updateChannelState t (\<lambda>st. st\<lparr> cs_status := ChJoining \<rparr>) s)))
                  \<lparr> channels := channels s @ [(t, length (chans s))] \<rparr>)))"
proof (cases "map_of (channels s) t")
  case None
  from joinChannel_begin_create[OF assms None] None show ?thesis by (rule create[rotated])
next
  case (Some c)
  show ?thesis
  proof (cases "chan_state c s = Some ''joined''")
    case True
    from joinChannel_begin_joined[OF assms Some True] show ?thesis
      using Some True by (rule joined[rotated 2])
  next
    case nj: False
    show ?thesis
    proof (cases "c < length (chans s) \<and> ch_joinedOnce (chans s ! c)")
      case True
      then have a: "c < length (chans s)" and b: "ch_joinedOnce (chans s ! c)" by simp_all
      from joinChannel_begin_rejoin[OF assms Some nj a b] show ?thesis
        using Some nj a b by (rule rejoin[rotated 4])
    next
      case False
      from joinChannel_begin_reuse[OF assms Some nj False] show ?thesis
        using Some nj False by (rule reuse[rotated 3])
    qed
  qed
qed

lemma joinChannel_begin_max [simp]:
  "maxChannels (snd (joinChannel_begin t ps s)) = maxChannels s"
proof (cases "cm_socket s \<noteq> None \<and> length (channels s) < maxChannels s")
  case False
  then show ?thesis by (auto simp: joinChannel_begin_def)
next
  case True
  then have a: "cm_socket s \<noteq> None" "length (channels s) < maxChannels s" by simp_all
  show ?thesis using a
    by (cases rule: joinChannel_begin_cases[where t = t and ps = ps])
       (simp_all add: socket_channel_def)
qed

lemma joinChannel_begin_length:
  "length (channels s) \<le> maxChannels s \<Longrightarrow>
   length (channels (snd (joinChannel_begin t ps s))) \<le> maxChannels s"
proof (cases "cm_socket s \<noteq> None \<and> length (channels s) < maxChannels s")
  case False
  assume "length (channels s) \<le> maxChannels s"
  then show ?thesis using False by (auto simp: joinChannel_begin_def)
next
  case True
  then have a: "cm_socket s \<noteq> None" "length (channels s) < maxChannels s" by simp_all
  have le: "Suc (length (channels s)) \<le> maxChannels s" using a by simp
  show ?thesis using a
    by (cases rule: joinChannel_begin_cases[where t = t and ps = ps]) (insert le, simp_all)
qed

lemma joinChannel_settle_fields [simp]:
  "channels (snd (joinChannel_settle t c ack s)) = channels s"
  "maxChannels (snd (joinChannel_settle t c ack s)) = maxChannels s"
  "chans (snd (joinChannel_settle t c ack s)) = chans s"
  "messageListeners (snd (joinChannel_settle t c ack s)) = messageListeners s"
  "maxListenersPerEvent (snd (joinChannel_settle t c ack s)) = maxListenersPerEvent s"
  "cm_socket (snd (joinChannel_settle t c ack s)) = cm_socket s"
  by (cases ack; simp add: joinChannel_settle_def join_failed_def Let_def)+

lemma leaveChannel_max [simp]: "maxChannels (leaveChannel t s) = maxChannels s"
  by (simp add: leaveChannel_def Let_def split: option.splits)

lemma leaveChannel_channels: "channels (leaveChannel t s) = AList.delete t (channels s)"
proof (cases "map_of (channels s) t")
  case None
  then have "t \<notin> fst ` set (channels s)" by (simp add: map_of_eq_None_iff)
  then have "AList.delete t (channels s) = channels s" by (simp add: AList.delete_id)
  then show ?thesis using None by (simp add: leaveChannel_def)
next
  case (Some c)
  then show ?thesis by (simp add: leaveChannel_def Let_def)
qed

lemma sendMessage_begin_fields [simp]:
  "channels (snd (sendMessage_begin t e p s)) = channels s"
  "maxChannels (snd (sendMessage_begin t e p s)) = maxChannels s"
  "channelStates (snd (sendMessage_begin t e p s)) = channelStates s"
  "length (chans (snd (sendMessage_begin t e p s))) = length (chans s)"
  by (simp_all add: sendMessage_begin_def channel_push_def split: option.splits)

lemma incrementMessageCount_fields [simp]:
  "channels (incrementMessageCount t s) = channels s"
  "maxChannels (incrementMessageCount t s) = maxChannels s"
  "chans (incrementMessageCount t s) = chans s"
  by (simp_all add: incrementMessageCount_def split: option.splits)

lemma sendMessage_settle_fields [simp]:
  "channels (snd (sendMessage_settle t ack s)) = channels s"
  "maxChannels (snd (sendMessage_settle t ack s)) = maxChannels s"
  "chans (snd (sendMessage_settle t ack s)) = chans s"
  by (cases ack; simp add: sendMessage_settle_def)+

lemma onMessage_fields [simp]:
  "channels (onMessage t e cb s) = channels s"
  "maxChannels (onMessage t e cb s) = maxChannels s"
  "maxListenersPerEvent (onMessage t e cb s) = maxListenersPerEvent s"
  "channelStates (onMessage t e cb s) = channelStates s"
  "length (chans (onMessage t e cb s)) = length (chans s)"
  by (simp_all add: onMessage_def Let_def split: option.splits)

lemma offMessage_fields [simp]:
  "channels (offMessage t e cb s) = channels s"
  "maxChannels (offMessage t e cb s) = maxChannels s"
  "channelStates (offMessage t e cb s) = channelStates s"
  "length (chans (offMessage t e cb s)) = length (chans s)"
  by (simp_all add: offMessage_def Let_def split: option.splits)

lemma fold_leaveChannel_max [simp]: "maxChannels (fold leaveChannel ts s) = maxChannels s"
  by (induction ts arbitrary: s) simp_all

lemma cleanup_fields [simp]:
  "channels (cleanup s) = []" "maxChannels (cleanup s) = maxChannels s"
  "channelStates (cleanup s) = []" "messageListeners (cleanup s) = []"
  by (simp_all add: cleanup_def)

lemma handler_funpow_fields:
  fixes f :: "channel_manager \<Rightarrow> channel_manager"
  assumes "\<And>s. channels (f s) = channels s" "\<And>s. maxChannels (f s) = maxChannels s"
  shows "channels ((f ^^ n) s) = channels s \<and> maxChannels ((f ^^ n) s) = maxChannels s"
proof (induction n)
  case 0
  show ?case by simp
next
  case (Suc n)
  then show ?case using assms by simp
qed

lemma channel_error_fields [simp]:
  "channels (channel_error c err s) = channels s"
  "maxChannels (channel_error c err s) = maxChannels s"
  using handler_funpow_fields[of "onError_handler (ch_topic (chans s ! c)) err"
      "ch_onError (chans s ! c)" s]
  by (simp_all add: channel_error_def onError_handler_def)

lemma channel_close_fields [simp]:
  "channels (channel_close c s) = channels s"
  "maxChannels (channel_close c s) = maxChannels s"
  using handler_funpow_fields[of "onClose_handler (ch_topic (chans s ! c))"
      "ch_onClose (chans s ! c)" s]
  by (simp_all add: channel_close_def onClose_handler_def)

lemma transport_state_fields [simp]:
  "channels (transport_state c st s) = channels s"
  "maxChannels (transport_state c st s) = maxChannels s"
  "channelStates (transport_state c st s) = channelStates s"
  "cm_socket (transport_state c st s) = cm_socket s"
  "length (chans (transport_state c st s)) = length (chans s)"
  by (simp_all add: transport_state_def)

lemma apply_op_max [simp]: "maxChannels (apply_op op s) = maxChannels s"
  by (cases op) (simp_all add: setSocket_def)

lemma apply_op_length:
  "length (channels s) \<le> maxChannels s \<Longrightarrow> length (channels (apply_op op s)) \<le> maxChannels s"
proof (cases op)
  case (OpLeave t)
  assume "length (channels s) \<le> maxChannels s"
  moreover have "length (AList.delete t (channels s)) \<le> length (channels s)"
    by (simp add: AList.delete_eq)
  ultimately show ?thesis using OpLeave by (simp add: leaveChannel_channels)
qed (simp_all add: setSocket_def joinChannel_begin_length)

lemma run_max [simp]: "maxChannels (run ops s) = maxChannels s"
  unfolding run_def by (induction ops arbitrary: s) simp_all

lemma run_length:
  "length (channels s) \<le> maxChannels s \<Longrightarrow> length (channels (run ops s)) \<le> maxChannels s"
  unfolding run_def
proof (induction ops arbitrary: s)
  case Nil
  then show ?case by simp
next
  case (Cons op ops)
  have "length (channels (apply_op op s)) \<le> maxChannels (apply_op op s)"
    using Cons.prems by (simp add: apply_op_length)
  from Cons.IH[OF this] show ?case by simp
qed

lemma joinChannel_at_guard:
  "cm_socket s = None \<or> maxChannels s \<le> length (channels s) \<Longrightarrow>
   joinChannel t ps ack s =
     (Inl (if cm_socket s = None
           then createError ''Socket not connected'' (Some ''SOCKET_NOT_CONNECTED'')
           else createError (''Maximum channels limit ('' @ show_nat (maxChannels s)
                             @ '') exceeded'') (Some ''MAX_CHANNELS_EXCEEDED'')), s)"
proof (cases "cm_socket s = None")
  case True
  then show ?thesis by (simp add: joinChannel_def joinChannel_begin_no_socket)
next
  case False
  assume "cm_socket s = None \<or> maxChannels s \<le> length (channels s)"
  then have "maxChannels s \<le> length (channels s)" using False by simp
  from joinChannel_begin_full[OF False this] show ?thesis using False
    by (simp add: joinChannel_def del: not_None_eq)
qed

text \<open>
  C4, as amended. Over every run of a channel manager the number of channels stays at or
  below \<open>maxChannels\<close> (50 for a new manager); a \<open>joinChannel\<close> call made while the count
  has reached the cap rejects and changes nothing, so it creates no channel: the error is
  the capacity error when a socket is set, and the socket error when none is.
\<close>

theorem channel_capacity:
  "(length (channels s) \<le> maxChannels s \<longrightarrow>
      getChannelCount (run ops s) \<le> maxChannels (run ops s)) \<and>
   getChannelCount (run ops (new_channel_manager sock now)) \<le> 50 \<and>
   (maxChannels s \<le> getChannelCount s \<longrightarrow>
      joinChannel t ps ack s =
        (Inl (if cm_socket s = None
              then createError ''Socket not connected'' (Some ''SOCKET_NOT_CONNECTED'')
              else createError (''Maximum channels limit ('' @ show_nat (maxChannels s)
                                @ '') exceeded'') (Some ''MAX_CHANNELS_EXCEEDED'')), s))"
proof -
  have a: "length (channels s) \<le> maxChannels s \<longrightarrow>
      getChannelCount (run ops s) \<le> maxChannels (run ops s)"
    by (simp add: getChannelCount_def run_length)
  have "length (channels (new_channel_manager sock now))
          \<le> maxChannels (new_channel_manager sock now)"
    by (simp add: new_channel_manager_def)
  from run_length[OF this, of ops]
  have b: "getChannelCount (run ops (new_channel_manager sock now)) \<le> 50"
    by (simp add: getChannelCount_def new_channel_manager_def)
  have c: "maxChannels s \<le> getChannelCount s \<longrightarrow>
      joinChannel t ps ack s =
        (Inl (if cm_socket s = None
              then createError ''Socket not connected'' (Some ''SOCKET_NOT_CONNECTED'')
              else createError (''Maximum channels limit ('' @ show_nat (maxChannels s)
                                @ '') exceeded'') (Some ''MAX_CHANNELS_EXCEEDED'')), s)"
    by (simp add: getChannelCount_def joinChannel_at_guard)
  show ?thesis using a b c by blast
qed

lemma cm_full_fields:
  "cm_socket cm_full = Some 0" "maxChannels cm_full = 50" "length (channels cm_full) = 50"
  "length (chans cm_full) = 50"
  by (simp_all add: cm_full_def cm_joined_def)

theorem channel_capacity_witness:
  "length (channels cm_full) \<le> maxChannels cm_full \<and>
   maxChannels cm_full \<le> getChannelCount cm_full \<and>
   getChannelCount (run [OpJoinBegin ''room:new'' [], OpSetSocket None,
                         OpJoinBegin ''room:new'' []] cm_full) \<le> 50 \<and>
   joinChannel ''room:new'' [] (JoinOk []) cm_full =
     (Inl (JsError ''Maximum channels limit (50) exceeded'' (Some ''MAX_CHANNELS_EXCEEDED'')),
      cm_full)"
  using channel_capacity[where s = cm_full and t = "''room:new''" and ps = "[]"
      and ack = "JoinOk []"
      and ops = "[OpJoinBegin ''room:new'' [], OpSetSocket None, OpJoinBegin ''room:new'' []]"]
  by (simp add: cm_full_fields getChannelCount_def createError_def show_nat_50)

text \<open>
  C4 as stated fails: with 50 channels and no socket set, \<open>joinChannel\<close> rejects with the
  socket error, not the capacity error.
\<close>

theorem channel_capacity_counterexample:
  "getChannelCount cm_full_no_socket = maxChannels cm_full_no_socket \<and>
   cm_full_no_socket = run [OpSetSocket None] cm_full \<and>
   joinChannel ''room:new'' [] (JoinOk []) cm_full_no_socket =
     (Inl (JsError ''Socket not connected'' (Some ''SOCKET_NOT_CONNECTED'')), cm_full_no_socket)"
proof -
  have n: "cm_socket cm_full_no_socket = None"
    by (simp add: cm_full_no_socket_def setSocket_def)
  then have j: "joinChannel ''room:new'' [] (JoinOk []) cm_full_no_socket =
     (Inl (JsError ''Socket not connected'' (Some ''SOCKET_NOT_CONNECTED'')), cm_full_no_socket)"
    by (simp add: joinChannel_at_guard createError_def)
  show ?thesis using j
    by (simp add: cm_full_no_socket_def setSocket_def getChannelCount_def run_def cm_full_fields)
qed

lemma handles_valid_lookup:
  "handles_valid s \<Longrightarrow> map_of (channels s) t = Some c \<Longrightarrow> c < length (chans s)"
  by (auto simp: handles_valid_def list_all_iff dest: map_of_SomeD)

lemma joined_once_lookup:
  "joined_once s \<Longrightarrow> map_of (channels s) t = Some c \<Longrightarrow> ch_joinedOnce (chans s ! c)"
  by (auto simp: joined_once_def list_all_iff dest: map_of_SomeD)

lemma setupChannelHandlers_nth:
  "c' < length (chans s) \<Longrightarrow>
   chans (setupChannelHandlers t c s) ! c' =
     (if c' = c \<and> \<not> ch_handlersFlag (chans s ! c)
      then (chans s ! c)\<lparr> ch_handlersFlag := True, ch_onError := ch_onError (chans s ! c) + 1,
                            ch_onClose := ch_onClose (chans s ! c) + 1 \<rparr>
      else chans s ! c')"
  by (auto simp: setupChannelHandlers_def upd_chan_def)

lemma handlers_once_nth:
  "handlers_once s =
     (\<forall>n < length (chans s).
        ch_onError (chans s ! n) = (if ch_handlersFlag (chans s ! n) then 1 else 0) \<and>
        ch_onClose (chans s ! n) = (if ch_handlersFlag (chans s ! n) then 1 else 0))"
  by (simp add: handlers_once_def list_all_length)

lemma handlers_once_setup:
  "handlers_once s \<Longrightarrow> handlers_once (setupChannelHandlers t c s)"
  by (simp add: handlers_once_nth setupChannelHandlers_nth)

lemma handlers_once_upd:
  assumes "\<And>ch. ch_handlersFlag (f ch) = ch_handlersFlag ch \<and>
                 ch_onError (f ch) = ch_onError ch \<and> ch_onClose (f ch) = ch_onClose ch"
    and "handlers_once s"
  shows "handlers_once (upd_chan c f s)"
  using assms by (simp add: handlers_once_nth upd_chan_nth)

lemma handlers_once_state [simp]:
  "handlers_once (updateChannelState t u s) = handlers_once s"
  by (simp add: handlers_once_def)

lemma handlers_once_chans: "chans s' = chans s \<Longrightarrow> handlers_once s' = handlers_once s"
  by (simp add: handlers_once_def)

lemma handles_valid_cong:
  "channels s' = channels s \<Longrightarrow> length (chans s') = length (chans s) \<Longrightarrow>
   handles_valid s' = handles_valid s"
  by (simp add: handles_valid_def)

lemma handles_valid_mono:
  assumes "handles_valid s" "set (channels s') \<subseteq> set (channels s)"
    "length (chans s) \<le> length (chans s')"
  shows "handles_valid s'"
  using assms unfolding handles_valid_def list_all_iff by fastforce

lemma handlers_once_bound:
  "handlers_once s \<Longrightarrow> list_all (\<lambda>ch. ch_onError ch \<le> 1 \<and> ch_onClose ch \<le> 1) (chans s)"
  by (auto simp: handlers_once_def list_all_iff)

lemma joined_once_nth:
  assumes "joined_once s" "handles_valid s" "set (channels s') \<subseteq> set (channels s)"
    "length (chans s) \<le> length (chans s')"
    "\<And>n. n < length (chans s) \<Longrightarrow> ch_joinedOnce (chans s ! n) \<Longrightarrow> ch_joinedOnce (chans s' ! n)"
  shows "joined_once s'"
  unfolding joined_once_def list_all_iff
proof (rule ballI)
  fix x assume x: "x \<in> set (channels s')"
  obtain t c where tc: "x = (t, c)" by (cases x)
  have m: "(t, c) \<in> set (channels s)" using x tc assms(3) by auto
  then have "c < length (chans s)" using assms(2) by (auto simp: handles_valid_def list_all_iff)
  moreover have "ch_joinedOnce (chans s ! c)"
    using m assms(1) by (auto simp: joined_once_def list_all_iff)
  ultimately have "ch_joinedOnce (chans s' ! c)" by (rule assms(5))
  then show "case x of (t, c) \<Rightarrow> ch_joinedOnce (chans s' ! c)" using tc by simp
qed

text \<open>How the three properties pass from a state to one with the same or a smaller registry.\<close>

lemma cm_inv_same:
  assumes "cm_inv s" "set (channels s') \<subseteq> set (channels s)" "chans s' = chans s"
  shows "cm_inv s'"
proof -
  have hv: "handles_valid s" and ho: "handlers_once s" and jo: "joined_once s"
    using assms(1) by (simp_all add: cm_inv_def)
  have v: "handles_valid s'" using hv assms(2) by (rule handles_valid_mono) (simp add: assms(3))
  have h: "handlers_once s'" using ho handlers_once_chans[OF assms(3)] by simp
  have j: "joined_once s'"
    using jo hv assms(2) by (rule joined_once_nth) (simp_all add: assms(3))
  show ?thesis using v h j by (simp add: cm_inv_def)
qed

lemma cm_inv_upd:
  assumes "cm_inv s" "set (channels s') \<subseteq> set (channels s)"
    "chans s' = chans (upd_chan c f s)"
    "\<And>ch. ch_handlersFlag (f ch) = ch_handlersFlag ch \<and>
           ch_onError (f ch) = ch_onError ch \<and> ch_onClose (f ch) = ch_onClose ch \<and>
           (ch_joinedOnce ch \<longrightarrow> ch_joinedOnce (f ch))"
  shows "cm_inv s'"
proof -
  have hv: "handles_valid s" and ho: "handlers_once s" and jo: "joined_once s"
    using assms(1) by (simp_all add: cm_inv_def)
  have len: "length (chans s') = length (chans s)" using assms(3) by simp
  have v: "handles_valid s'" using hv assms(2) by (rule handles_valid_mono) (simp add: len)
  have "handlers_once (upd_chan c f s)" by (rule handlers_once_upd[OF _ ho]) (simp add: assms(4))
  then have h: "handlers_once s'" using handlers_once_chans[OF assms(3)] by simp
  have j: "joined_once s'"
    using jo hv assms(2)
  proof (rule joined_once_nth)
    show "length (chans s) \<le> length (chans s')" using len by simp
  next
    fix n assume "n < length (chans s)" "ch_joinedOnce (chans s ! n)"
    then show "ch_joinedOnce (chans s' ! n)"
      unfolding assms(3) using assms(4) by (auto simp: upd_chan_nth)
  qed
  show ?thesis using v h j by (simp add: cm_inv_def)
qed

lemma cm_inv_setup:
  assumes "cm_inv s"
  shows "cm_inv (setupChannelHandlers t c s)"
proof -
  have hv: "handles_valid s" and ho: "handlers_once s" and jo: "joined_once s"
    using assms by (simp_all add: cm_inv_def)
  have "handles_valid (setupChannelHandlers t c s) = handles_valid s"
    by (rule handles_valid_cong) simp_all
  then have v: "handles_valid (setupChannelHandlers t c s)" using hv by simp
  have h: "handlers_once (setupChannelHandlers t c s)" using ho by (rule handlers_once_setup)
  have j: "joined_once (setupChannelHandlers t c s)"
    using jo hv by (rule joined_once_nth) (auto simp: setupChannelHandlers_nth)
  show ?thesis using v h j by (simp add: cm_inv_def)
qed

lemma cm_inv_state [simp]: "cm_inv (updateChannelState t u s) = cm_inv s"
  by (simp add: cm_inv_def handles_valid_def joined_once_def)

lemma cm_inv_emit [simp]: "cm_inv (cm_emit e t s) = cm_inv s"
  by (simp add: cm_inv_def handles_valid_def joined_once_def handlers_once_def)

lemma cm_inv_join_failed [simp]: "cm_inv (join_failed t e s) = cm_inv s"
  by (simp add: join_failed_def)

text \<open>
  A \<open>joinChannel\<close> call for a topic that has a channel keeps the registry and the channel
  objects' number, whatever its outcome; the handle it carries, if any, is the registered
  one.
\<close>

lemma join_existing:
  assumes "cm_socket s \<noteq> None" "length (channels s) < maxChannels s"
    "cm_inv s" "map_of (channels s) t = Some c"
  shows "channels (snd (joinChannel_begin t ps s)) = channels s \<and>
         length (chans (snd (joinChannel_begin t ps s))) = length (chans s) \<and>
         cm_socket (snd (joinChannel_begin t ps s)) = cm_socket s \<and>
         cm_inv (snd (joinChannel_begin t ps s)) \<and>
         (\<forall>c'. step_chan (fst (joinChannel_begin t ps s)) = Some c' \<longrightarrow> c' = c)"
  using assms(1,2)
proof (cases rule: joinChannel_begin_cases[where t = t and ps = ps])
  case (joined c')
  then show ?thesis using assms by simp
next
  case (rejoin c')
  have "cm_inv (setupChannelHandlers t c'
           (updateChannelState t (\<lambda>st. st\<lparr> cs_status := ChJoining \<rparr>) s))"
    by (rule cm_inv_setup) (simp add: assms(3))
  then show ?thesis using rejoin by simp
next
  case (reuse c')
  let ?s4 = "setupChannelHandlers t c'
           (updateChannelState t (\<lambda>st. st\<lparr> cs_status := ChJoining \<rparr>) s)"
  have i4: "cm_inv ?s4" by (rule cm_inv_setup) (simp add: assms(3))
  have "cm_inv (upd_chan c' (\<lambda>ch. ch\<lparr> ch_joinedOnce := True, ch_state := ''joining'' \<rparr>) ?s4)"
    by (rule cm_inv_upd[OF i4, where c = c'
          and f = "\<lambda>ch. ch\<lparr> ch_joinedOnce := True, ch_state := ''joining'' \<rparr>"]) simp_all
  then show ?thesis using reuse assms(4) by simp
next
  case create
  then show ?thesis using assms(4) by simp
qed

text \<open>A \<open>joinChannel\<close> call for a topic without a channel creates one and registers it.\<close>

lemma join_new:
  assumes "cm_socket s \<noteq> None" "length (channels s) < maxChannels s"
    "cm_inv s" "map_of (channels s) t = None"
  shows "fst (joinChannel_begin t ps s) = JPending (length (chans s)) \<and>
         channels (snd (joinChannel_begin t ps s)) = channels s @ [(t, length (chans s))] \<and>
         length (chans (snd (joinChannel_begin t ps s))) = length (chans s) + 1 \<and>
         cm_socket (snd (joinChannel_begin t ps s)) = cm_socket s \<and>
         cm_inv (snd (joinChannel_begin t ps s))"
proof -
  have hv: "handles_valid s" and ho: "handlers_once s" and jo: "joined_once s"
    using assms(3) by (simp_all add: cm_inv_def)
  let ?n = "length (chans s)"
  let ?new = "\<lparr> ch_topic = t, ch_params = ps, ch_state = ''closed'',
               ch_handlersFlag = False, ch_onError = 0, ch_onClose = 0, ch_joinedOnce = False,
               ch_leaves = 0, ch_pushes = [], ch_bindings = [], ch_bindingRef = 0 \<rparr>"
  let ?x = "(snd (socket_channel t ps
                    (updateChannelState t (\<lambda>st. st\<lparr> cs_status := ChJoining \<rparr>) s)))
              \<lparr> channels := channels s @ [(t, ?n)] \<rparr>"
  let ?s1 = "upd_chan ?n (\<lambda>ch. ch\<lparr> ch_joinedOnce := True, ch_state := ''joining'' \<rparr>)
               (setupChannelHandlers t ?n ?x)"
  have eq: "joinChannel_begin t ps s = (JPending ?n, ?s1)"
    using assms by (simp add: joinChannel_begin_create)
  have cx: "chans ?x = chans s @ [?new]" by (simp add: socket_channel_def)
  have hx: "handlers_once ?x" using ho by (simp add: handlers_once_def cx)
  have h: "handlers_once ?s1"
    by (rule handlers_once_upd, simp, rule handlers_once_setup) (rule hx)
  have len: "length (chans ?s1) = ?n + 1" by (simp add: cx)
  have ch: "channels ?s1 = channels s @ [(t, ?n)]" by simp
  have "list_all (\<lambda>(t, c). c < ?n + 1) (channels s)"
    using hv by (auto simp: handles_valid_def list_all_iff)
  then have v: "handles_valid ?s1" unfolding handles_valid_def len ch by simp
  have nth: "chans ?s1 ! k = (if k = ?n
               then ?new\<lparr> ch_handlersFlag := True, ch_onError := 1, ch_onClose := 1,
                          ch_joinedOnce := True, ch_state := ''joining'' \<rparr>
               else chans s ! k)" if "k \<le> ?n" for k
    using that by (simp add: upd_chan_nth setupChannelHandlers_nth cx nth_append)
  have j: "joined_once ?s1"
    unfolding joined_once_def list_all_iff ch
  proof (rule ballI)
    fix x assume x: "x \<in> set (channels s @ [(t, ?n)])"
    obtain t' c' where tc: "x = (t', c')" by (cases x)
    show "case x of (t, c) \<Rightarrow> ch_joinedOnce (chans ?s1 ! c)"
    proof (cases "c' = ?n")
      case True
      then show ?thesis using tc nth[of ?n] by simp
    next
      case False
      then have m: "(t', c') \<in> set (channels s)" using x tc by auto
      then have lt: "c' < ?n" using hv by (auto simp: handles_valid_def list_all_iff)
      have "ch_joinedOnce (chans s ! c')"
        using m jo by (auto simp: joined_once_def list_all_iff)
      then show ?thesis using tc lt nth[of c'] by simp
    qed
  qed
  have so: "cm_socket ?s1 = cm_socket s" by (simp add: socket_channel_def)
  show ?thesis using h v j len so by (simp add: eq cm_inv_def)
qed

text \<open>
  After a \<open>joinChannel\<close> call made with a socket and below the cap, the registry holds a
  handle for the topic; a channel object was created only when it held none before.
\<close>

lemma join_first:
  assumes "cm_socket s \<noteq> None" "length (channels s) < maxChannels s" "cm_inv s"
  shows "(\<exists>c. map_of (channels (snd (joinChannel_begin t ps s))) t = Some c \<and>
              c < length (chans (snd (joinChannel_begin t ps s))) \<and>
              (\<forall>c'. step_chan (fst (joinChannel_begin t ps s)) = Some c' \<longrightarrow> c' = c)) \<and>
         length (chans (snd (joinChannel_begin t ps s)))
           = length (chans s) + (if map_of (channels s) t = None then 1 else 0) \<and>
         cm_socket (snd (joinChannel_begin t ps s)) \<noteq> None \<and>
         cm_inv (snd (joinChannel_begin t ps s))"
proof (cases "map_of (channels s) t")
  case None
  from join_new[OF assms None, of ps] show ?thesis using None assms(1)
    by (simp add: map_add_def)
next
  case (Some c)
  note e = join_existing[OF assms Some, of ps]
  have "c < length (chans s)"
    using assms(3) Some by (auto simp: cm_inv_def dest: handles_valid_lookup)
  then show ?thesis using e Some assms(1) by simp
qed

lemma chan_state_transport:
  "c < length (chans s) \<Longrightarrow> chan_state c (transport_state c st s) = Some st"
  by (simp add: chan_state_def transport_state_def upd_chan_def)

section \<open>Invariants of runs\<close>

text \<open>
  Every handle stored in the channel map refers to a transport channel that exists and on
  which \<open>join\<close> has been called, and \<open>setupChannelHandlers\<close> has run at most once on each
  transport channel. This holds in a new channel manager and is kept by every operation,
  so it holds after every run.
\<close>

lemma leaveChannel_chans:
  "chans (leaveChannel t s)
     = (case map_of (channels s) t of None \<Rightarrow> chans s
        | Some c \<Rightarrow> chans (upd_chan c (\<lambda>ch. ch\<lparr> ch_leaves := ch_leaves ch + 1 \<rparr>) s))"
  by (cases "map_of (channels s) t") (simp_all add: leaveChannel_def Let_def)

lemma leaveChannel_inv:
  assumes "cm_inv s"
  shows "cm_inv (leaveChannel t s)"
proof -
  have sub: "set (channels (leaveChannel t s)) \<subseteq> set (channels s)"
    unfolding leaveChannel_channels AList.delete_eq by (rule filter_is_subset)
  show ?thesis
  proof (cases "map_of (channels s) t")
    case None
    then have "chans (leaveChannel t s) = chans s" by (simp add: leaveChannel_chans)
    with assms sub show ?thesis by (rule cm_inv_same)
  next
    case (Some c)
    then have "chans (leaveChannel t s)
                 = chans (upd_chan c (\<lambda>ch. ch\<lparr> ch_leaves := ch_leaves ch + 1 \<rparr>) s)"
      by (simp add: leaveChannel_chans)
    with assms sub show ?thesis by (rule cm_inv_upd) simp
  qed
qed

lemma fold_leaveChannel_inv: "cm_inv s \<Longrightarrow> cm_inv (fold leaveChannel ts s)"
proof (induction ts arbitrary: s)
  case Nil
  then show ?case by simp
next
  case (Cons t ts)
  from Cons.IH[OF leaveChannel_inv[OF Cons.prems]] show ?case by simp
qed

lemma handler_funpow_chans:
  fixes f :: "channel_manager \<Rightarrow> channel_manager"
  assumes "\<And>s. chans (f s) = chans s"
  shows "chans ((f ^^ n) s) = chans s"
  by (induction n) (simp_all add: assms)

lemma sendMessage_begin_chans:
  "chans (snd (sendMessage_begin t e p s)) = chans s \<or>
   (\<exists>c. chans (snd (sendMessage_begin t e p s))
          = chans (upd_chan c (\<lambda>ch. ch\<lparr> ch_pushes := ch_pushes ch @ [(e, p)] \<rparr>) s))"
  by (auto simp: sendMessage_begin_def channel_push_def split: option.splits)

lemma onMessage_chans:
  "chans (onMessage t e cb s) = chans s \<or>
   (\<exists>c. chans (onMessage t e cb s) = chans (upd_chan c (channel_on e cb) s))"
proof (cases "map_of (channels s) t")
  case None
  then show ?thesis by (simp add: onMessage_def)
next
  case (Some c)
  let ?ls = "entry (ensure e (entry (ensure t (messageListeners s)) t)) e"
  show ?thesis
  proof (cases "length ?ls \<ge> maxListenersPerEvent s")
    case True
    then show ?thesis using Some by (simp add: onMessage_def Let_def)
  next
    case nf: False
    show ?thesis
    proof (cases "cb \<in> set ?ls")
      case True
      then show ?thesis using Some nf by (simp add: onMessage_def Let_def)
    next
      case False
      then have "chans (onMessage t e cb s) = chans (upd_chan c (channel_on e cb) s)"
        using Some nf by (simp add: onMessage_def Let_def upd_chan_def)
      then show ?thesis by blast
    qed
  qed
qed

lemma offMessage_chans:
  "chans (offMessage t e cb s) = chans s \<or>
   (\<exists>c. chans (offMessage t e cb s) = chans (upd_chan c (channel_off e (RefFunction cb)) s))"
proof (cases "map_of (messageListeners s) t")
  case None
  then show ?thesis by (simp add: offMessage_def)
next
  case tl: (Some tl)
  show ?thesis
  proof (cases "map_of tl e")
    case None
    then show ?thesis using tl by (simp add: offMessage_def)
  next
    case el: (Some el)
    show ?thesis
    proof (cases "map_of (channels s) t")
      case None
      then show ?thesis using tl el by (simp add: offMessage_def Let_def)
    next
      case (Some c)
      then have "chans (offMessage t e cb s)
          = chans (upd_chan c (channel_off e (RefFunction cb)) s)"
        using tl el by (simp add: offMessage_def Let_def)
      then show ?thesis by blast
    qed
  qed
qed

lemma inv_step:
  assumes "cm_inv s"
  shows "cm_inv (apply_op op s)"
proof (cases op)
  case (OpSetSocket x)
  show ?thesis unfolding OpSetSocket apply_op.simps
    by (rule cm_inv_same[OF assms]) (simp_all add: setSocket_def)
next
  case (OpJoinBegin t ps)
  show ?thesis
  proof (cases "cm_socket s \<noteq> None \<and> length (channels s) < maxChannels s")
    case True
    then have a: "cm_socket s \<noteq> None" "length (channels s) < maxChannels s" by simp_all
    from join_first[OF a assms, of t ps] show ?thesis using OpJoinBegin by simp
  next
    case False
    then have "snd (joinChannel_begin t ps s) = s" by (auto simp: joinChannel_begin_def)
    then show ?thesis using assms OpJoinBegin by simp
  qed
next
  case (OpJoinSettle t c ack)
  show ?thesis unfolding OpJoinSettle apply_op.simps
    by (rule cm_inv_same[OF assms]) simp_all
next
  case (OpLeave t)
  then show ?thesis using leaveChannel_inv[OF assms] by simp
next
  case (OpSendBegin t e p)
  from sendMessage_begin_chans[of t e p s] show ?thesis unfolding OpSendBegin apply_op.simps
  proof
    assume ceq: "chans (snd (sendMessage_begin t e p s)) = chans s"
    show "cm_inv (snd (sendMessage_begin t e p s))"
      by (rule cm_inv_same[OF assms _ ceq]) simp
  next
    assume "\<exists>c. chans (snd (sendMessage_begin t e p s))
          = chans (upd_chan c (\<lambda>ch. ch\<lparr> ch_pushes := ch_pushes ch @ [(e, p)] \<rparr>) s)"
    then obtain c where ceq: "chans (snd (sendMessage_begin t e p s))
          = chans (upd_chan c (\<lambda>ch. ch\<lparr> ch_pushes := ch_pushes ch @ [(e, p)] \<rparr>) s)"
      by blast
    show "cm_inv (snd (sendMessage_begin t e p s))"
      by (rule cm_inv_upd[OF assms _ ceq]) simp_all
  qed
next
  case (OpSendSettle t ack)
  show ?thesis unfolding OpSendSettle apply_op.simps
    by (rule cm_inv_same[OF assms]) simp_all
next
  case (OpOnMessage t e cb)
  from onMessage_chans[of t e cb s] show ?thesis unfolding OpOnMessage apply_op.simps
  proof
    assume ceq: "chans (onMessage t e cb s) = chans s"
    show "cm_inv (onMessage t e cb s)"
      by (rule cm_inv_same[OF assms _ ceq]) simp
  next
    assume "\<exists>c. chans (onMessage t e cb s) = chans (upd_chan c (channel_on e cb) s)"
    then obtain c where ceq: "chans (onMessage t e cb s) = chans (upd_chan c (channel_on e cb) s)"
      by blast
    show "cm_inv (onMessage t e cb s)"
      by (rule cm_inv_upd[OF assms _ ceq]) (simp_all add: channel_on_def)
  qed
next
  case (OpOffMessage t e cb)
  from offMessage_chans[of t e cb s] show ?thesis unfolding OpOffMessage apply_op.simps
  proof
    assume ceq: "chans (offMessage t e cb s) = chans s"
    show "cm_inv (offMessage t e cb s)"
      by (rule cm_inv_same[OF assms _ ceq]) simp
  next
    assume "\<exists>c. chans (offMessage t e cb s)
                 = chans (upd_chan c (channel_off e (RefFunction cb)) s)"
    then obtain c where ceq: "chans (offMessage t e cb s)
                 = chans (upd_chan c (channel_off e (RefFunction cb)) s)"
      by blast
    show "cm_inv (offMessage t e cb s)"
      by (rule cm_inv_upd[OF assms _ ceq]) (simp_all add: channel_off_def)
  qed
next
  case OpCleanup
  have "cm_inv (fold leaveChannel (map fst (channels s)) s)"
    using assms by (rule fold_leaveChannel_inv)
  then have "handlers_once (fold leaveChannel (map fst (channels s)) s)"
    by (simp add: cm_inv_def)
  then show ?thesis using OpCleanup
    by (simp add: cleanup_def cm_inv_def handles_valid_def handlers_once_def joined_once_def)
next
  case (OpTransportState c st)
  have ceq: "chans (transport_state c st s) = chans (upd_chan c (\<lambda>ch. ch\<lparr> ch_state := st \<rparr>) s)"
    by (simp add: transport_state_def)
  show ?thesis unfolding OpTransportState apply_op.simps
    by (rule cm_inv_upd[OF assms _ ceq]) simp_all
next
  case (OpChannelError c err)
  have ceq: "chans (channel_error c err s) = chans s"
    using handler_funpow_chans[of "onError_handler (ch_topic (chans s ! c)) err"]
    by (simp add: channel_error_def onError_handler_def)
  show ?thesis unfolding OpChannelError apply_op.simps
    by (rule cm_inv_same[OF assms _ ceq]) simp
next
  case (OpChannelClose c)
  have ceq: "chans (channel_close c s) = chans s"
    using handler_funpow_chans[of "onClose_handler (ch_topic (chans s ! c))"]
    by (simp add: channel_close_def onClose_handler_def)
  show ?thesis unfolding OpChannelClose apply_op.simps
    by (rule cm_inv_same[OF assms _ ceq]) simp
next
  case (OpTick d)
  show ?thesis unfolding OpTick apply_op.simps
    by (rule cm_inv_same[OF assms]) simp_all
qed

lemma inv_run: "cm_inv s \<Longrightarrow> cm_inv (run ops s)"
  unfolding run_def
proof (induction ops arbitrary: s)
  case Nil
  then show ?case by simp
next
  case (Cons op ops)
  from Cons.IH[OF inv_step[OF Cons.prems]] show ?case by simp
qed

lemma inv_new: "cm_inv (run ops (new_channel_manager sock now))"
  by (rule inv_run)
     (simp add: cm_inv_def handles_valid_def handlers_once_def joined_once_def
        new_channel_manager_def)

section \<open>Joining twice\<close>

lemma joinChannel_returned:
  "joinChannel_begin t ps s = (JReturned c, s') \<Longrightarrow> joinChannel t ps ack s = (Inr c, s')"
  by (simp add: joinChannel_def)

lemma join_again:
  assumes "cm_socket s \<noteq> None" "cm_inv s" "map_of (channels s) t = Some c"
  shows "channels (snd (joinChannel_begin t ps s)) = channels s \<and>
         length (chans (snd (joinChannel_begin t ps s))) = length (chans s) \<and>
         cm_inv (snd (joinChannel_begin t ps s))"
proof (cases "length (channels s) < maxChannels s")
  case True
  from join_existing[OF assms(1) True assms(2,3), of ps] show ?thesis by simp
next
  case False
  then have "maxChannels s \<le> length (channels s)" by simp
  from joinChannel_begin_full[OF assms(1) this, of t ps] show ?thesis using assms(2) by simp
qed

text \<open>
  C3, as amended. A \<open>joinChannel\<close> call made with a socket set and the channel count below
  the cap creates a channel object only when the registry holds none for the topic, and
  leaves the registry with one handle for the topic, which is the handle the call carries.
  A second call for the topic then creates no channel object and leaves the registry as it
  is, whatever its outcome. No channel object ever has more than one error callback and
  one close callback, after these two calls and after every run of a new manager. When
  the first call waits, is acknowledged and the transport reports the channel joined, the
  second call, made below the cap, returns the same handle at once and changes nothing;
  so does a second call after a first that returned the joined channel.
\<close>

theorem join_idempotent:
  assumes "cm_socket s \<noteq> None" and "length (channels s) < maxChannels s" and "cm_inv s"
  shows "length (chans (snd (joinChannel_begin t ps s)))
           = length (chans s) + (if map_of (channels s) t = None then 1 else 0) \<and>
         (\<exists>c. map_of (channels (snd (joinChannel_begin t ps s))) t = Some c \<and>
              (\<forall>c'. step_chan (fst (joinChannel_begin t ps s)) = Some c' \<longrightarrow> c' = c)) \<and>
         length (chans (snd (joinChannel_begin t ps' (snd (joinChannel_begin t ps s)))))
           = length (chans (snd (joinChannel_begin t ps s))) \<and>
         channels (snd (joinChannel_begin t ps' (snd (joinChannel_begin t ps s))))
           = channels (snd (joinChannel_begin t ps s)) \<and>
         list_all (\<lambda>ch. ch_onError ch \<le> 1 \<and> ch_onClose ch \<le> 1)
           (chans (snd (joinChannel_begin t ps' (snd (joinChannel_begin t ps s))))) \<and>
         list_all (\<lambda>ch. ch_onError ch \<le> 1 \<and> ch_onClose ch \<le> 1)
           (chans (run ops (new_channel_manager sock now))) \<and>
         (\<forall>c r. fst (joinChannel_begin t ps s) = JPending c \<and>
                 length (channels (snd (joinChannel_begin t ps s))) < maxChannels s \<longrightarrow>
            joinChannel t ps' ack
              (snd (joinChannel_settle t c (JoinOk r)
                      (transport_state c ''joined'' (snd (joinChannel_begin t ps s)))))
            = (Inr c, snd (joinChannel_settle t c (JoinOk r)
                             (transport_state c ''joined'' (snd (joinChannel_begin t ps s)))))) \<and>
         (\<forall>c. fst (joinChannel_begin t ps s) = JReturned c \<longrightarrow>
            joinChannel t ps' ack (snd (joinChannel_begin t ps s))
            = (Inr c, snd (joinChannel_begin t ps s)))"
proof -
  let ?s1 = "snd (joinChannel_begin t ps s)"
  let ?s2 = "snd (joinChannel_begin t ps' ?s1)"
  note f = join_first[OF assms, of t ps]
  from f obtain c where m: "map_of (channels ?s1) t = Some c"
    and lt: "c < length (chans ?s1)"
    and carried: "\<forall>c'. step_chan (fst (joinChannel_begin t ps s)) = Some c' \<longrightarrow> c' = c"
    by blast
  have so: "cm_socket ?s1 \<noteq> None" and i1: "cm_inv ?s1" using f by simp_all
  have n1: "length (chans ?s1) = length (chans s) + (if map_of (channels s) t = None then 1 else 0)"
    using f by simp
  have reg: "\<exists>c. map_of (channels ?s1) t = Some c \<and>
              (\<forall>c'. step_chan (fst (joinChannel_begin t ps s)) = Some c' \<longrightarrow> c' = c)"
    using m carried by blast
  note e = join_again[OF so i1 m, of ps']
  have n2: "length (chans ?s2) = length (chans ?s1)" and r2: "channels ?s2 = channels ?s1"
    using e by simp_all
  have "handlers_once ?s2" using e by (simp add: cm_inv_def)
  then have b2: "list_all (\<lambda>ch. ch_onError ch \<le> 1 \<and> ch_onClose ch \<le> 1) (chans ?s2)"
    by (rule handlers_once_bound)
  have "handlers_once (run ops (new_channel_manager sock now))"
    using inv_new[of ops sock now] by (simp add: cm_inv_def)
  then have b3: "list_all (\<lambda>ch. ch_onError ch \<le> 1 \<and> ch_onClose ch \<le> 1)
                   (chans (run ops (new_channel_manager sock now)))"
    by (rule handlers_once_bound)
  have joined: "\<forall>c r. fst (joinChannel_begin t ps s) = JPending c \<and>
                 length (channels ?s1) < maxChannels s \<longrightarrow>
            joinChannel t ps' ack
              (snd (joinChannel_settle t c (JoinOk r) (transport_state c ''joined'' ?s1)))
            = (Inr c, snd (joinChannel_settle t c (JoinOk r) (transport_state c ''joined'' ?s1)))"
  proof (intro allI impI)
    fix c' r
    assume h: "fst (joinChannel_begin t ps s) = JPending c' \<and>
               length (channels ?s1) < maxChannels s"
    then have cc: "c' = c" using carried by simp
    let ?j = "snd (joinChannel_settle t c (JoinOk r) (transport_state c ''joined'' ?s1))"
    have a1: "cm_socket ?j \<noteq> None" using so by simp
    have a2: "length (channels ?j) < maxChannels ?j" using h by simp
    have a3: "map_of (channels ?j) t = Some c" using m by simp
    have "chan_state c (transport_state c ''joined'' ?s1) = Some ''joined''"
      using lt by (rule chan_state_transport)
    moreover have "chan_state c ?j = chan_state c (transport_state c ''joined'' ?s1)"
      unfolding chan_state_def by simp
    ultimately have a4: "chan_state c ?j = Some ''joined''" by simp
    have "joinChannel_begin t ps' ?j = (JReturned c, ?j)"
      using a1 a2 a3 a4 by (rule joinChannel_begin_joined)
    then show "joinChannel t ps' ack
              (snd (joinChannel_settle t c' (JoinOk r) (transport_state c' ''joined'' ?s1)))
            = (Inr c', snd (joinChannel_settle t c' (JoinOk r)
                              (transport_state c' ''joined'' ?s1)))"
      unfolding cc by (rule joinChannel_returned)
  qed
  have returned: "\<forall>c. fst (joinChannel_begin t ps s) = JReturned c \<longrightarrow>
            joinChannel t ps' ack ?s1 = (Inr c, ?s1)"
  proof (intro allI impI)
    fix c' assume h: "fst (joinChannel_begin t ps s) = JReturned c'"
    show "joinChannel t ps' ack ?s1 = (Inr c', ?s1)"
      using assms(1,2)
    proof (cases rule: joinChannel_begin_cases[where t = t and ps = ps])
      case (joined k)
      then have "joinChannel_begin t ps' s = (JReturned k, s)"
        using assms(1,2) by (simp add: joinChannel_begin_joined)
      then show ?thesis using joined h by (simp add: joinChannel_def)
    next
      case (rejoin k)
      then show ?thesis using h by simp
    next
      case (reuse k)
      then show ?thesis using h by simp
    next
      case create
      then show ?thesis using h by simp
    qed
  qed
  show ?thesis using n1 reg n2 r2 b2 b3 joined returned by blast
qed

lemma topic_n_inj: "topic_n i = topic_n j \<Longrightarrow> i = j"
proof -
  assume "topic_n i = topic_n j"
  then have "length (topic_n i) = length (topic_n j)" by simp
  then show "i = j" by (simp add: topic_n_def)
qed

lemma map_of_topics_None:
  "map_of (map (\<lambda>i. (topic_n i, f i)) [0..<n]) (topic_n n) = None"
proof -
  have "topic_n n \<notin> fst ` set (map (\<lambda>i. (topic_n i, f i)) [0..<n])"
    by (auto dest: topic_n_inj)
  then show ?thesis by (simp add: map_of_eq_None_iff)
qed

lemma map_of_topics_Some:
  "k < n \<Longrightarrow> map_of (map (\<lambda>i. (topic_n i, f i)) [0..<n]) (topic_n k) = Some (f k)"
proof (induction n)
  case 0
  then show ?case by simp
next
  case (Suc n)
  show ?case
  proof (cases "k = n")
    case True
    then show ?thesis by (simp add: map_of_topics_None map_add_def)
  next
    case False
    then have "k < n" using Suc.prems by simp
    from Suc.IH[OF this] show ?thesis by (simp add: map_add_def)
  qed
qed

lemma cm_joined_fields:
  "cm_socket (cm_joined n) = Some 0" "maxChannels (cm_joined n) = 50"
  "length (channels (cm_joined n)) = n" "length (chans (cm_joined n)) = n"
  "map_of (channels (cm_joined n)) (topic_n n) = None"
  by (simp_all add: cm_joined_def map_of_topics_None)

lemma cm_joined_lookup:
  "k < n \<Longrightarrow> map_of (channels (cm_joined n)) (topic_n k) = Some k"
  "k < n \<Longrightarrow> chan_state k (cm_joined n) = Some ''joined''"
  "k < n \<Longrightarrow> isChannelJoined (topic_n k) (cm_joined n)"
  by (simp_all add: cm_joined_def map_of_topics_Some chan_state_def joined_chan_def
      isChannelJoined_def joined_state_def)

lemma cm_pending_eq:
  "joinChannel_begin ''room:lobby'' [] cm_empty =
     (JPending 0,
      \<lparr> cm_socket = Some 0, channels = [(''room:lobby'', 0)],
        channelStates = [(''room:lobby'',
           \<lparr> cs_topic = ''room:lobby'', cs_status = ChJoining, cs_error = None,
             cs_lastJoined = None, cs_lastLeft = None, messageCount = 0 \<rparr>)],
        messageListeners = [], maxChannels = 50, maxListenersPerEvent = 10,
        chans = [\<lparr> ch_topic = ''room:lobby'', ch_params = [], ch_state = ''joining'',
                   ch_handlersFlag = True, ch_onError = 1, ch_onClose = 1,
                   ch_joinedOnce = True, ch_leaves = 0, ch_pushes = [], ch_bindings = [],
                   ch_bindingRef = 0 \<rparr>],
        cm_clock = 0, cm_emitted = [], cm_warnings = [] \<rparr>)"
  by (simp add: joinChannel_begin_def cm_empty_def new_channel_manager_def updateChannelState_def
      socket_channel_def setupChannelHandlers_def upd_chan_def channel_join_def Let_def)

lemma cm_pending_fields:
  "cm_socket cm_pending = Some 0" "channels cm_pending = [(''room:lobby'', 0)]"
  "maxChannels cm_pending = 50" "length (chans cm_pending) = 1"
  "chan_state 0 cm_pending = Some ''joining''"
  "map_of (channelStates cm_pending) ''room:lobby'' =
     Some \<lparr> cs_topic = ''room:lobby'', cs_status = ChJoining, cs_error = None,
            cs_lastJoined = None, cs_lastLeft = None, messageCount = 0 \<rparr>"
  "messageListeners cm_pending = []" "maxListenersPerEvent cm_pending = 10"
  "ch_bindings (chans cm_pending ! 0) = []" "ch_joinedOnce (chans cm_pending ! 0)"
  "ch_pushes (chans cm_pending ! 0) = []" "cm_emitted cm_pending = []"
  "cm_warnings cm_pending = []" "ch_bindingRef (chans cm_pending ! 0) = 0"
  "ch_handlersFlag (chans cm_pending ! 0)"
  by (simp_all add: cm_pending_def cm_pending_eq chan_state_def)

lemma cm_pending_run: "cm_pending = run [OpJoinBegin ''room:lobby'' []] cm_empty"
  by (simp add: run_def cm_pending_def)

text \<open>The second \<open>joinChannel\<close> of a topic whose join is pending, below the cap.\<close>

lemma cm_pending_rejoin:
  "joinChannel_begin ''room:lobby'' ps cm_pending =
     (JThrown join_twice_error,
      join_failed ''room:lobby'' join_twice_error
        (updateChannelState ''room:lobby'' (\<lambda>st. st\<lparr> cs_status := ChJoining \<rparr>) cm_pending))"
proof -
  have a: "cm_socket cm_pending \<noteq> None" "length (channels cm_pending) < maxChannels cm_pending"
    "map_of (channels cm_pending) ''room:lobby'' = Some 0"
    "chan_state 0 cm_pending \<noteq> Some ''joined''" "0 < length (chans cm_pending)"
    "ch_joinedOnce (chans cm_pending ! 0)"
    by (simp_all add: cm_pending_fields)
  have "setupChannelHandlers ''room:lobby'' 0
          (updateChannelState ''room:lobby'' (\<lambda>st. st\<lparr> cs_status := ChJoining \<rparr>) cm_pending)
        = updateChannelState ''room:lobby'' (\<lambda>st. st\<lparr> cs_status := ChJoining \<rparr>) cm_pending"
    by (simp add: setupChannelHandlers_def cm_pending_fields)
  then show ?thesis using joinChannel_begin_rejoin[OF a, of ps] by simp
qed

text \<open>
  C3 as stated fails. At the cap: with 49 channels, the first \<open>joinChannel\<close> of a new topic
  creates the 50th channel and waits; the second call for the same topic is rejected with
  the capacity error, and it is rejected too once the channel is joined. Below the cap: the
  second call made while the first is pending calls \<open>join\<close> again on the same channel
  object, which the transport refuses; the call rejects, the topic's status becomes
  \<open>error\<close> and the channel error event is emitted.
\<close>

theorem join_idempotent_counterexample:
  "cm_socket (cm_joined 49) \<noteq> None \<and>
   length (channels (cm_joined 49)) < maxChannels (cm_joined 49) \<and>
   fst (joinChannel_begin (topic_n 49) [] (cm_joined 49)) = JPending 49 \<and>
   joinChannel (topic_n 49) [] (JoinOk [])
     (snd (joinChannel_begin (topic_n 49) [] (cm_joined 49)))
     = (Inl (JsError ''Maximum channels limit (50) exceeded'' (Some ''MAX_CHANNELS_EXCEEDED'')),
        snd (joinChannel_begin (topic_n 49) [] (cm_joined 49))) \<and>
   map_of (channels cm_full) (topic_n 49) = Some 49 \<and>
   chan_state 49 cm_full = Some ''joined'' \<and>
   joinChannel (topic_n 49) [] (JoinOk []) cm_full
     = (Inl (JsError ''Maximum channels limit (50) exceeded'' (Some ''MAX_CHANNELS_EXCEEDED'')),
        cm_full) \<and>
   joinChannel_begin ''room:lobby'' [] cm_empty = (JPending 0, cm_pending) \<and>
   length (channels cm_pending) < maxChannels cm_pending \<and>
   fst (joinChannel ''room:lobby'' [] (JoinOk []) cm_pending) = Inl join_twice_error \<and>
   map_option cs_status
     (map_of (channelStates (snd (joinChannel ''room:lobby'' [] (JoinOk []) cm_pending)))
        ''room:lobby'') = Some ChError \<and>
   cm_emitted (snd (joinChannel ''room:lobby'' [] (JoinOk []) cm_pending))
     = [(''phoenix_channel_error'', ''room:lobby'')]"
proof -
  let ?s1 = "snd (joinChannel_begin (topic_n 49) [] (cm_joined 49))"
  have a: "cm_socket (cm_joined 49) \<noteq> None" "length (channels (cm_joined 49)) < maxChannels (cm_joined 49)"
    by (simp_all add: cm_joined_fields)
  have n: "map_of (channels (cm_joined 49)) (topic_n 49) = None" by (rule cm_joined_fields)
  have b: "fst (joinChannel_begin (topic_n 49) [] (cm_joined 49)) = JPending 49"
    using a n by (simp add: joinChannel_begin_create cm_joined_fields)
  have l: "maxChannels ?s1 \<le> length (channels ?s1)" "cm_socket ?s1 \<noteq> None" "maxChannels ?s1 = 50"
    using a n by (simp_all add: joinChannel_begin_create cm_joined_fields socket_channel_def)
  have c: "joinChannel (topic_n 49) [] (JoinOk []) ?s1
     = (Inl (JsError ''Maximum channels limit (50) exceeded'' (Some ''MAX_CHANNELS_EXCEEDED'')), ?s1)"
    using l by (simp add: joinChannel_at_guard createError_def show_nat_50 del: not_None_eq)
  have d: "joinChannel (topic_n 49) [] (JoinOk []) cm_full
     = (Inl (JsError ''Maximum channels limit (50) exceeded'' (Some ''MAX_CHANNELS_EXCEEDED'')), cm_full)"
    by (simp add: joinChannel_at_guard createError_def show_nat_50 cm_full_fields)
  have e: "map_of (channels cm_full) (topic_n 49) = Some 49" "chan_state 49 cm_full = Some ''joined''"
    by (simp_all add: cm_full_def cm_joined_lookup)
  have p: "joinChannel_begin ''room:lobby'' [] cm_empty = (JPending 0, cm_pending)"
    by (simp add: cm_pending_def cm_pending_eq)
  have q: "length (channels cm_pending) < maxChannels cm_pending"
    by (simp add: cm_pending_fields)
  have r: "joinChannel ''room:lobby'' [] (JoinOk []) cm_pending
     = (Inl join_twice_error,
        join_failed ''room:lobby'' join_twice_error
          (updateChannelState ''room:lobby'' (\<lambda>st. st\<lparr> cs_status := ChJoining \<rparr>) cm_pending))"
    by (simp add: joinChannel_def cm_pending_rejoin)
  have r1: "map_option cs_status
     (map_of (channelStates (snd (joinChannel ''room:lobby'' [] (JoinOk []) cm_pending)))
        ''room:lobby'') = Some ChError"
    unfolding r by (simp add: join_failed_def cm_emit_def updateChannelState_def AList.update_conv')
  have r2: "cm_emitted (snd (joinChannel ''room:lobby'' [] (JoinOk []) cm_pending))
     = [(''phoenix_channel_error'', ''room:lobby'')]"
    unfolding r by (simp add: join_failed_def cm_emit_def EV_CHANNEL_ERROR_def cm_pending_fields)
  have r0: "fst (joinChannel ''room:lobby'' [] (JoinOk []) cm_pending) = Inl join_twice_error"
    unfolding r by simp
  show ?thesis using a b c d e p q r0 r1 r2 by simp
qed

theorem join_idempotent_witness:
  "cm_socket cm_empty \<noteq> None \<and> length (channels cm_empty) < maxChannels cm_empty \<and>
   cm_inv cm_empty \<and>
   fst (joinChannel_begin ''room:lobby'' [] cm_empty) = JPending 0 \<and>
   length (channels cm_pending) < maxChannels cm_empty \<and>
   length (chans cm_pending) = 1 \<and>
   map_of (channels cm_pending) ''room:lobby'' = Some 0 \<and>
   length (chans (snd (joinChannel_begin ''room:lobby'' [] cm_pending))) = 1 \<and>
   channels (snd (joinChannel_begin ''room:lobby'' [] cm_pending)) = [(''room:lobby'', 0)] \<and>
   list_all (\<lambda>ch. ch_onError ch \<le> 1 \<and> ch_onClose ch \<le> 1)
     (chans (snd (joinChannel_begin ''room:lobby'' [] cm_pending))) \<and>
   list_all (\<lambda>ch. ch_onError ch \<le> 1 \<and> ch_onClose ch \<le> 1)
     (chans (run [OpJoinBegin ''room:lobby'' [], OpJoinBegin ''room:lobby'' []]
               (new_channel_manager (Some 0) 0))) \<and>
   joinChannel ''room:lobby'' [] JoinTimeout
     (snd (joinChannel_settle ''room:lobby'' 0 (JoinOk [])
             (transport_state 0 ''joined'' cm_pending)))
     = (Inr 0, snd (joinChannel_settle ''room:lobby'' 0 (JoinOk [])
                      (transport_state 0 ''joined'' cm_pending)))"
proof -
  have h: "cm_socket cm_empty \<noteq> None" "length (channels cm_empty) < maxChannels cm_empty"
    "cm_inv cm_empty"
    by (simp_all add: cm_empty_def new_channel_manager_def cm_inv_def handles_valid_def
        handlers_once_def joined_once_def)
  have mx: "maxChannels cm_empty = 50" by (simp add: cm_empty_def new_channel_manager_def)
  have b: "fst (joinChannel_begin ''room:lobby'' [] cm_empty) = JPending 0"
    by (simp add: cm_pending_eq)
  have p: "snd (joinChannel_begin ''room:lobby'' [] cm_empty) = cm_pending"
    by (simp add: cm_pending_def)
  have n: "map_of (channels cm_empty) ''room:lobby'' = None"
    by (simp add: cm_empty_def new_channel_manager_def)
  have l0: "length (chans cm_empty) = 0" by (simp add: cm_empty_def new_channel_manager_def)
  note T = join_idempotent[OF h, where t = "''room:lobby''" and ps = "[]" and ps' = "[]"
      and ack = JoinTimeout
      and ops = "[OpJoinBegin ''room:lobby'' [], OpJoinBegin ''room:lobby'' []]"
      and sock = "Some 0" and now = 0, unfolded p b]
  from T have t1: "length (chans cm_pending)
      = length (chans cm_empty) + (if map_of (channels cm_empty) ''room:lobby'' = None then 1 else 0)"
    by blast
  from T have t2: "\<exists>c. map_of (channels cm_pending) ''room:lobby'' = Some c \<and>
              (\<forall>c'. step_chan (JPending 0) = Some c' \<longrightarrow> c' = c)" by blast
  from T have t3: "length (chans (snd (joinChannel_begin ''room:lobby'' [] cm_pending)))
                     = length (chans cm_pending)" by blast
  from T have t4: "channels (snd (joinChannel_begin ''room:lobby'' [] cm_pending))
                     = channels cm_pending" by blast
  from T have t5: "list_all (\<lambda>ch. ch_onError ch \<le> 1 \<and> ch_onClose ch \<le> 1)
                     (chans (snd (joinChannel_begin ''room:lobby'' [] cm_pending)))" by blast
  from T have t6: "list_all (\<lambda>ch. ch_onError ch \<le> 1 \<and> ch_onClose ch \<le> 1)
     (chans (run [OpJoinBegin ''room:lobby'' [], OpJoinBegin ''room:lobby'' []]
               (new_channel_manager (Some 0) 0)))" by blast
  from T have t7: "\<forall>c r. JPending 0 = JPending c \<and>
                 length (channels cm_pending) < maxChannels cm_empty \<longrightarrow>
            joinChannel ''room:lobby'' [] JoinTimeout
              (snd (joinChannel_settle ''room:lobby'' c (JoinOk r)
                      (transport_state c ''joined'' cm_pending)))
            = (Inr c, snd (joinChannel_settle ''room:lobby'' c (JoinOk r)
                             (transport_state c ''joined'' cm_pending)))" by blast
  have s0: "length (channels cm_pending) < maxChannels cm_empty"
    using mx by (simp add: cm_pending_fields)
  have s1: "length (chans cm_pending) = 1" using t1 n l0 by simp
  have s2: "map_of (channels cm_pending) ''room:lobby'' = Some 0" using t2 by auto
  have s3: "length (chans (snd (joinChannel_begin ''room:lobby'' [] cm_pending))) = 1"
    using t3 s1 by simp
  have s4: "channels (snd (joinChannel_begin ''room:lobby'' [] cm_pending)) = [(''room:lobby'', 0)]"
    using t4 by (simp add: cm_pending_fields)
  have s7: "joinChannel ''room:lobby'' [] JoinTimeout
     (snd (joinChannel_settle ''room:lobby'' 0 (JoinOk [])
             (transport_state 0 ''joined'' cm_pending)))
     = (Inr 0, snd (joinChannel_settle ''room:lobby'' 0 (JoinOk [])
                      (transport_state 0 ''joined'' cm_pending)))"
    using t7 s0 by blast
  show ?thesis using h b s0 s1 s2 s3 s4 t5 t6 s7 by blast
qed

section \<open>Sending\<close>

lemma states_present_mono:
  assumes "states_present s" "set (channels s') \<subseteq> set (channels s)"
    "\<And>t. map_of (channelStates s) t \<noteq> None \<Longrightarrow> map_of (channelStates s') t \<noteq> None"
  shows "states_present s'"
  using assms unfolding states_present_def list_all_iff by fastforce

lemma states_present_lookup:
  "states_present s \<Longrightarrow> map_of (channels s) t = Some c \<Longrightarrow> map_of (channelStates s) t \<noteq> None"
  unfolding states_present_def list_all_iff by (auto dest: map_of_SomeD)

lemma incrementMessageCount_present:
  "map_of (channelStates s) t' \<noteq> None \<Longrightarrow>
   map_of (channelStates (incrementMessageCount t s)) t' \<noteq> None"
  by (simp add: incrementMessageCount_def AList.update_conv' split: option.splits)

lemma states_present_update:
  assumes "states_present s"
  shows "states_present (updateChannelState t u s)"
  using assms by (rule states_present_mono) (simp_all add: updateChannelState_other)

lemma handler_funpow_present:
  fixes f :: "channel_manager \<Rightarrow> channel_manager"
  assumes "\<And>s. states_present s \<Longrightarrow> states_present (f s)"
  shows "states_present s \<Longrightarrow> states_present ((f ^^ n) s)"
  by (induction n) (simp_all add: assms)

lemma states_present_emit [simp]: "states_present (cm_emit e t s) = states_present s"
  by (simp add: states_present_def)

lemma states_present_upd_chan [simp]: "states_present (upd_chan c f s) = states_present s"
  by (simp add: states_present_def)

lemma states_present_setup [simp]:
  "states_present (setupChannelHandlers t c s) = states_present s"
  by (simp add: states_present_def)

lemma states_present_join_failed:
  "states_present s \<Longrightarrow> states_present (join_failed t e s)"
  by (simp add: join_failed_def states_present_update)

lemma states_present_join_begin:
  assumes "states_present s"
  shows "states_present (snd (joinChannel_begin t ps s))"
proof (cases "cm_socket s \<noteq> None \<and> length (channels s) < maxChannels s")
  case False
  then show ?thesis using assms by (auto simp: joinChannel_begin_def)
next
  case True
  then have a: "cm_socket s \<noteq> None" "length (channels s) < maxChannels s" by simp_all
  let ?u = "updateChannelState t (\<lambda>st. st\<lparr> cs_status := ChJoining \<rparr>) s"
  have u: "states_present ?u" using assms by (rule states_present_update)
  show ?thesis using a
  proof (cases rule: joinChannel_begin_cases[where t = t and ps = ps])
    case (joined c)
    then show ?thesis using assms by simp
  next
    case (rejoin c)
    then show ?thesis using u by (simp add: states_present_join_failed)
  next
    case (reuse c)
    then show ?thesis using u by simp
  next
    case create
    have "map_of (channelStates ?u) t \<noteq> None" by (rule updateChannelState_present)
    then obtain y where y: "map_of (channelStates ?u) t = Some y" by blast
    have "states_present ((snd (socket_channel t ps ?u))
              \<lparr> channels := channels s @ [(t, length (chans s))] \<rparr>)"
      using u y by (simp add: states_present_def socket_channel_def)
    then show ?thesis using create by simp
  qed
qed

lemma states_present_step: "states_present s \<Longrightarrow> states_present (apply_op op s)"
proof (cases op)
  case (OpJoinBegin t ps)
  assume "states_present s"
  then show ?thesis using OpJoinBegin by (simp add: states_present_join_begin)
next
  case (OpJoinSettle t c ack)
  assume "states_present s"
  then show ?thesis using OpJoinSettle
    by (cases ack) (simp_all add: joinChannel_settle_def join_failed_def Let_def states_present_update)
next
  case (OpLeave t)
  assume a: "states_present s"
  show ?thesis
  proof (cases "map_of (channels s) t")
    case None
    then show ?thesis using a OpLeave by (simp add: leaveChannel_def)
  next
    case (Some c)
    let ?s2 = "(upd_chan c (\<lambda>ch. ch\<lparr> ch_leaves := ch_leaves ch + 1 \<rparr>) s)
                 \<lparr> channels := AList.delete t (channels s),
                   messageListeners := AList.delete t (messageListeners s) \<rparr>"
    have "states_present ?s2"
      using a by (rule states_present_mono) (auto simp: AList.delete_eq)
    then show ?thesis using Some OpLeave
      by (simp add: leaveChannel_def Let_def states_present_update)
  qed
next
  case (OpSendSettle t ack)
  assume a: "states_present s"
  then have "states_present (incrementMessageCount t s)"
    by (rule states_present_mono) (simp_all add: incrementMessageCount_present)
  then show ?thesis using a OpSendSettle by (cases ack) (simp_all add: sendMessage_settle_def)
next
  case (OpChannelError c err)
  assume a: "states_present s"
  have "\<And>x. states_present x \<Longrightarrow> states_present (onError_handler (ch_topic (chans s ! c)) err x)"
    by (simp add: onError_handler_def states_present_update)
  from handler_funpow_present[OF this a] show ?thesis using a OpChannelError
    by (simp add: channel_error_def)
next
  case (OpChannelClose c)
  assume a: "states_present s"
  have "\<And>x. states_present x \<Longrightarrow> states_present (onClose_handler (ch_topic (chans s ! c)) x)"
    by (simp add: onClose_handler_def states_present_update)
  from handler_funpow_present[OF this a] show ?thesis using a OpChannelClose
    by (simp add: channel_close_def)
next
  case OpCleanup
  then show ?thesis by (simp add: states_present_def)
qed (simp_all add: states_present_def setSocket_def transport_state_def)

lemma states_present_run: "states_present s \<Longrightarrow> states_present (run ops s)"
  unfolding run_def by (induction ops arbitrary: s) (simp_all add: states_present_step)

lemma sendMessage_begin_found:
  "map_of (channels s) t = Some c \<Longrightarrow> c < length (chans s) \<Longrightarrow> ch_joinedOnce (chans s ! c) \<Longrightarrow>
   sendMessage_begin t ev pl s
     = (SPending c, upd_chan c (\<lambda>ch. ch\<lparr> ch_pushes := ch_pushes ch @ [(ev, pl)] \<rparr>) s)"
  by (simp add: sendMessage_begin_def channel_push_def)

lemma sendMessage_found:
  "map_of (channels s) t = Some c \<Longrightarrow> c < length (chans s) \<Longrightarrow> ch_joinedOnce (chans s ! c) \<Longrightarrow>
   sendMessage t ev pl ack s
     = sendMessage_settle t ack
         (upd_chan c (\<lambda>ch. ch\<lparr> ch_pushes := ch_pushes ch @ [(ev, pl)] \<rparr>) s)"
  by (simp add: sendMessage_def sendMessage_begin_found)

lemma sendMessage_not_found:
  "map_of (channels s) t = None \<Longrightarrow>
   sendMessage t ev pl ack s
     = (Inl (createError (''Channel '' @ t @ '' not found'') (Some ''CHANNEL_NOT_FOUND'')), s)"
  by (simp add: sendMessage_def sendMessage_begin_def)

lemma sendMessage_settle_ok:
  "fst (sendMessage_settle t (PushOk r) s) = Inr r \<and>
   (\<forall>st. map_of (channelStates s) t = Some st \<longrightarrow>
      map_of (channelStates (snd (sendMessage_settle t (PushOk r) s))) t
        = Some (st\<lparr> messageCount := messageCount st + 1 \<rparr>))"
  by (simp add: sendMessage_settle_def incrementMessageCount_def AList.update_conv')

text \<open>What a send does on a registered channel object on which \<open>join\<close> has been called.\<close>

lemma sendMessage_pushes:
  assumes "map_of (channels s) t = Some c" "c < length (chans s)" "ch_joinedOnce (chans s ! c)"
  shows "sendMessage_begin t ev pl s
           = (SPending c, upd_chan c (\<lambda>ch. ch\<lparr> ch_pushes := ch_pushes ch @ [(ev, pl)] \<rparr>) s) \<and>
         ch_pushes (chans (snd (sendMessage_begin t ev pl s)) ! c)
           = ch_pushes (chans s ! c) @ [(ev, pl)] \<and>
         fst (sendMessage t ev pl (PushOk r) s) = Inr r \<and>
         (\<forall>st. map_of (channelStates s) t = Some st \<longrightarrow>
            map_of (channelStates (snd (sendMessage t ev pl (PushOk r) s))) t
              = Some (st\<lparr> messageCount := messageCount st + 1 \<rparr>)) \<and>
         sendMessage t ev pl (PushError er) s
           = (Inl (createError (''Message failed: '' @ er) (Some ''MESSAGE_ERROR'')),
              snd (sendMessage_begin t ev pl s)) \<and>
         sendMessage t ev pl PushTimeout s
           = (Inl (createError ''Message timeout'' (Some ''MESSAGE_TIMEOUT'')),
              snd (sendMessage_begin t ev pl s)) \<and>
         channelStates (snd (sendMessage_begin t ev pl s)) = channelStates s"
proof -
  let ?p = "upd_chan c (\<lambda>ch. ch\<lparr> ch_pushes := ch_pushes ch @ [(ev, pl)] \<rparr>) s"
  note bg = sendMessage_begin_found[OF assms, of ev pl]
  have pu: "ch_pushes (chans ?p ! c) = ch_pushes (chans s ! c) @ [(ev, pl)]"
    using assms(2) by (simp add: upd_chan_nth)
  show ?thesis
    using sendMessage_settle_ok[of t r ?p] pu
    by (simp add: sendMessage_found[OF assms] bg sendMessage_settle_def)
qed

text \<open>
  C6, as amended. \<open>sendMessage\<close> on a topic with no registered channel rejects with the
  not-found error and changes nothing. On a topic with a registered channel it gives the
  message to \<open>channel.push\<close>, and then: an \<open>ok\<close> acknowledgment resolves with the response and
  raises the \<open>messageCount\<close> of the topic's \<open>ChannelState\<close> by one; an \<open>error\<close> acknowledgment
  rejects with the message error and a \<open>timeout\<close> with the timeout error, the counters
  unchanged. In every state a run reaches from a new manager, a registered handle is a
  channel object on which \<open>join\<close> has been called and the topic has a
  \<open>ChannelState\<close>, so there \<open>push\<close> does not throw and the call settles as said. A join that has begun and waits has registered the channel: a send
  made while the join is pending is pushed like any other.
\<close>

theorem send_message_outcomes:
  "(map_of (channels s) t = None \<longrightarrow>
      sendMessage t ev pl ack s
        = (Inl (createError (''Channel '' @ t @ '' not found'') (Some ''CHANNEL_NOT_FOUND'')), s)) \<and>
   (map_of (channels s) t = Some k \<and> k < length (chans s) \<and> ch_joinedOnce (chans s ! k) \<longrightarrow>
      sendMessage_begin t ev pl s
        = (SPending k, upd_chan k (\<lambda>ch. ch\<lparr> ch_pushes := ch_pushes ch @ [(ev, pl)] \<rparr>) s) \<and>
      ch_pushes (chans (snd (sendMessage_begin t ev pl s)) ! k)
        = ch_pushes (chans s ! k) @ [(ev, pl)] \<and>
      fst (sendMessage t ev pl (PushOk r) s) = Inr r \<and>
      (\<forall>st. map_of (channelStates s) t = Some st \<longrightarrow>
         map_of (channelStates (snd (sendMessage t ev pl (PushOk r) s))) t
           = Some (st\<lparr> messageCount := messageCount st + 1 \<rparr>)) \<and>
      sendMessage t ev pl (PushError er) s
        = (Inl (createError (''Message failed: '' @ er) (Some ''MESSAGE_ERROR'')),
           snd (sendMessage_begin t ev pl s)) \<and>
      sendMessage t ev pl PushTimeout s
        = (Inl (createError ''Message timeout'' (Some ''MESSAGE_TIMEOUT'')),
           snd (sendMessage_begin t ev pl s)) \<and>
      channelStates (snd (sendMessage_begin t ev pl s)) = channelStates s) \<and>
   (map_of (channels (run ops (new_channel_manager sock now))) t = Some k \<longrightarrow>
      k < length (chans (run ops (new_channel_manager sock now))) \<and>
      ch_joinedOnce (chans (run ops (new_channel_manager sock now)) ! k) \<and>
      map_of (channelStates (run ops (new_channel_manager sock now))) t \<noteq> None \<and>
      sendMessage_begin t ev pl (run ops (new_channel_manager sock now))
        = (SPending k, upd_chan k (\<lambda>ch. ch\<lparr> ch_pushes := ch_pushes ch @ [(ev, pl)] \<rparr>)
                         (run ops (new_channel_manager sock now))) \<and>
      fst (sendMessage t ev pl (PushOk r) (run ops (new_channel_manager sock now))) = Inr r \<and>
      fst (sendMessage t ev pl (PushError er) (run ops (new_channel_manager sock now)))
        = Inl (createError (''Message failed: '' @ er) (Some ''MESSAGE_ERROR'')) \<and>
      fst (sendMessage t ev pl PushTimeout (run ops (new_channel_manager sock now)))
        = Inl (createError ''Message timeout'' (Some ''MESSAGE_TIMEOUT''))) \<and>
   (cm_inv s \<and> fst (joinChannel_begin t ps s) = JPending c \<longrightarrow>
      map_of (channels (snd (joinChannel_begin t ps s))) t = Some c \<and>
      sendMessage_begin t ev pl (snd (joinChannel_begin t ps s))
        = (SPending c, upd_chan c (\<lambda>ch. ch\<lparr> ch_pushes := ch_pushes ch @ [(ev, pl)] \<rparr>)
                         (snd (joinChannel_begin t ps s))) \<and>
      ch_pushes (chans (snd (sendMessage_begin t ev pl (snd (joinChannel_begin t ps s)))) ! c)
        = ch_pushes (chans (snd (joinChannel_begin t ps s)) ! c) @ [(ev, pl)] \<and>
      fst (sendMessage t ev pl (PushOk r) (snd (joinChannel_begin t ps s))) = Inr r)"
proof -
  have a: "map_of (channels s) t = None \<longrightarrow>
      sendMessage t ev pl ack s
        = (Inl (createError (''Channel '' @ t @ '' not found'') (Some ''CHANNEL_NOT_FOUND'')), s)"
    by (simp add: sendMessage_not_found)
  have b: "map_of (channels s) t = Some k \<and> k < length (chans s) \<and> ch_joinedOnce (chans s ! k) \<longrightarrow>
      sendMessage_begin t ev pl s
        = (SPending k, upd_chan k (\<lambda>ch. ch\<lparr> ch_pushes := ch_pushes ch @ [(ev, pl)] \<rparr>) s) \<and>
      ch_pushes (chans (snd (sendMessage_begin t ev pl s)) ! k)
        = ch_pushes (chans s ! k) @ [(ev, pl)] \<and>
      fst (sendMessage t ev pl (PushOk r) s) = Inr r \<and>
      (\<forall>st. map_of (channelStates s) t = Some st \<longrightarrow>
         map_of (channelStates (snd (sendMessage t ev pl (PushOk r) s))) t
           = Some (st\<lparr> messageCount := messageCount st + 1 \<rparr>)) \<and>
      sendMessage t ev pl (PushError er) s
        = (Inl (createError (''Message failed: '' @ er) (Some ''MESSAGE_ERROR'')),
           snd (sendMessage_begin t ev pl s)) \<and>
      sendMessage t ev pl PushTimeout s
        = (Inl (createError ''Message timeout'' (Some ''MESSAGE_TIMEOUT'')),
           snd (sendMessage_begin t ev pl s)) \<and>
      channelStates (snd (sendMessage_begin t ev pl s)) = channelStates s"
  proof
    assume h: "map_of (channels s) t = Some k \<and> k < length (chans s) \<and> ch_joinedOnce (chans s ! k)"
    then have h1: "map_of (channels s) t = Some k" and h2: "k < length (chans s)"
      and h3: "ch_joinedOnce (chans s ! k)" by simp_all
    from sendMessage_pushes[OF h1 h2 h3] show "sendMessage_begin t ev pl s
        = (SPending k, upd_chan k (\<lambda>ch. ch\<lparr> ch_pushes := ch_pushes ch @ [(ev, pl)] \<rparr>) s) \<and>
      ch_pushes (chans (snd (sendMessage_begin t ev pl s)) ! k)
        = ch_pushes (chans s ! k) @ [(ev, pl)] \<and>
      fst (sendMessage t ev pl (PushOk r) s) = Inr r \<and>
      (\<forall>st. map_of (channelStates s) t = Some st \<longrightarrow>
         map_of (channelStates (snd (sendMessage t ev pl (PushOk r) s))) t
           = Some (st\<lparr> messageCount := messageCount st + 1 \<rparr>)) \<and>
      sendMessage t ev pl (PushError er) s
        = (Inl (createError (''Message failed: '' @ er) (Some ''MESSAGE_ERROR'')),
           snd (sendMessage_begin t ev pl s)) \<and>
      sendMessage t ev pl PushTimeout s
        = (Inl (createError ''Message timeout'' (Some ''MESSAGE_TIMEOUT'')),
           snd (sendMessage_begin t ev pl s)) \<and>
      channelStates (snd (sendMessage_begin t ev pl s)) = channelStates s" .
  qed
  let ?R = "run ops (new_channel_manager sock now)"
  have "states_present (new_channel_manager sock now)"
    by (simp add: states_present_def new_channel_manager_def)
  then have sp: "states_present ?R" by (rule states_present_run)
  have iR: "cm_inv ?R" by (rule inv_new)
  have d: "map_of (channels ?R) t = Some k \<longrightarrow>
      k < length (chans ?R) \<and> ch_joinedOnce (chans ?R ! k) \<and> map_of (channelStates ?R) t \<noteq> None \<and>
      sendMessage_begin t ev pl ?R
        = (SPending k, upd_chan k (\<lambda>ch. ch\<lparr> ch_pushes := ch_pushes ch @ [(ev, pl)] \<rparr>) ?R) \<and>
      fst (sendMessage t ev pl (PushOk r) ?R) = Inr r \<and>
      fst (sendMessage t ev pl (PushError er) ?R)
        = Inl (createError (''Message failed: '' @ er) (Some ''MESSAGE_ERROR'')) \<and>
      fst (sendMessage t ev pl PushTimeout ?R)
        = Inl (createError ''Message timeout'' (Some ''MESSAGE_TIMEOUT''))"
  proof
    assume m: "map_of (channels ?R) t = Some k"
    have v: "k < length (chans ?R)" using iR m by (auto simp: cm_inv_def dest: handles_valid_lookup)
    have j: "ch_joinedOnce (chans ?R ! k)"
      using iR m by (auto simp: cm_inv_def dest: joined_once_lookup)
    have p: "map_of (channelStates ?R) t \<noteq> None" using sp m by (rule states_present_lookup)
    note o = sendMessage_pushes[OF m v j, where ev = ev and pl = pl and r = r and er = er]
    from o have o1: "sendMessage_begin t ev pl ?R
        = (SPending k, upd_chan k (\<lambda>ch. ch\<lparr> ch_pushes := ch_pushes ch @ [(ev, pl)] \<rparr>) ?R)"
      and o2: "fst (sendMessage t ev pl (PushOk r) ?R) = Inr r"
      and o3: "sendMessage t ev pl (PushError er) ?R
           = (Inl (createError (''Message failed: '' @ er) (Some ''MESSAGE_ERROR'')),
              snd (sendMessage_begin t ev pl ?R))"
      and o4: "sendMessage t ev pl PushTimeout ?R
           = (Inl (createError ''Message timeout'' (Some ''MESSAGE_TIMEOUT'')),
              snd (sendMessage_begin t ev pl ?R))"
      by blast+
    have o3': "fst (sendMessage t ev pl (PushError er) ?R)
        = Inl (createError (''Message failed: '' @ er) (Some ''MESSAGE_ERROR''))"
      unfolding o3 by simp
    have o4': "fst (sendMessage t ev pl PushTimeout ?R)
        = Inl (createError ''Message timeout'' (Some ''MESSAGE_TIMEOUT''))"
      unfolding o4 by simp
    show "k < length (chans ?R) \<and> ch_joinedOnce (chans ?R ! k) \<and> map_of (channelStates ?R) t \<noteq> None \<and>
      sendMessage_begin t ev pl ?R
        = (SPending k, upd_chan k (\<lambda>ch. ch\<lparr> ch_pushes := ch_pushes ch @ [(ev, pl)] \<rparr>) ?R) \<and>
      fst (sendMessage t ev pl (PushOk r) ?R) = Inr r \<and>
      fst (sendMessage t ev pl (PushError er) ?R)
        = Inl (createError (''Message failed: '' @ er) (Some ''MESSAGE_ERROR'')) \<and>
      fst (sendMessage t ev pl PushTimeout ?R)
        = Inl (createError ''Message timeout'' (Some ''MESSAGE_TIMEOUT''))"
      using v j p o1 o2 o3' o4' by blast
  qed
  let ?s1 = "snd (joinChannel_begin t ps s)"
  have e: "cm_inv s \<and> fst (joinChannel_begin t ps s) = JPending c \<longrightarrow>
      map_of (channels ?s1) t = Some c \<and>
      sendMessage_begin t ev pl ?s1
        = (SPending c, upd_chan c (\<lambda>ch. ch\<lparr> ch_pushes := ch_pushes ch @ [(ev, pl)] \<rparr>) ?s1) \<and>
      ch_pushes (chans (snd (sendMessage_begin t ev pl ?s1)) ! c)
        = ch_pushes (chans ?s1 ! c) @ [(ev, pl)] \<and>
      fst (sendMessage t ev pl (PushOk r) ?s1) = Inr r"
  proof
    assume h: "cm_inv s \<and> fst (joinChannel_begin t ps s) = JPending c"
    then have i: "cm_inv s" and p: "fst (joinChannel_begin t ps s) = JPending c" by simp_all
    have g1: "cm_socket s \<noteq> None"
    proof
      assume "cm_socket s = None"
      then show False using p by (simp add: joinChannel_begin_no_socket)
    qed
    have g2: "length (channels s) < maxChannels s"
    proof (rule ccontr)
      assume "\<not> length (channels s) < maxChannels s"
      then have "maxChannels s \<le> length (channels s)" by simp
      from joinChannel_begin_full[OF g1 this, of t ps] show False using p by simp
    qed
    note f = join_first[OF g1 g2 i, of t ps]
    from f obtain c' where m: "map_of (channels ?s1) t = Some c'"
      and lt: "c' < length (chans ?s1)"
      and carried: "\<forall>x. step_chan (fst (joinChannel_begin t ps s)) = Some x \<longrightarrow> x = c'"
      by blast
    have cc: "c' = c" using carried p by simp
    have i1: "cm_inv ?s1" using f by simp
    have jo: "ch_joinedOnce (chans ?s1 ! c')"
      using i1 m by (auto simp: cm_inv_def dest: joined_once_lookup)
    from sendMessage_pushes[OF m lt jo, where ev = ev and pl = pl and r = r and er = er] m
    show "map_of (channels ?s1) t = Some c \<and>
      sendMessage_begin t ev pl ?s1
        = (SPending c, upd_chan c (\<lambda>ch. ch\<lparr> ch_pushes := ch_pushes ch @ [(ev, pl)] \<rparr>) ?s1) \<and>
      ch_pushes (chans (snd (sendMessage_begin t ev pl ?s1)) ! c)
        = ch_pushes (chans ?s1 ! c) @ [(ev, pl)] \<and>
      fst (sendMessage t ev pl (PushOk r) ?s1) = Inr r"
      unfolding cc by blast
  qed
  show ?thesis using a b d e by blast
qed

text \<open>
  C6 as stated fails: \<open>joinChannel\<close> registers the channel before it waits, so a send made
  while the join is still pending finds the channel, gives it the message, and resolves on
  \<open>ok\<close>.
\<close>

theorem send_message_outcomes_counterexample:
  "joinChannel_begin ''room:lobby'' [] cm_empty = (JPending 0, cm_pending) \<and>
   cm_pending = run [OpJoinBegin ''room:lobby'' []] cm_empty \<and>
   \<not> isChannelJoined ''room:lobby'' cm_pending \<and>
   fst (sendMessage_begin ''room:lobby'' ''msg'' ''hi'' cm_pending) = SPending 0 \<and>
   ch_pushes (chans (snd (sendMessage_begin ''room:lobby'' ''msg'' ''hi'' cm_pending)) ! 0)
     = [(''msg'', ''hi'')] \<and>
   fst (sendMessage ''room:lobby'' ''msg'' ''hi'' (PushOk ''ok'') cm_pending) = Inr ''ok''"
proof -
  have a: "joinChannel_begin ''room:lobby'' [] cm_empty = (JPending 0, cm_pending)"
    by (simp add: cm_pending_def cm_pending_eq)
  have b: "\<not> isChannelJoined ''room:lobby'' cm_pending"
    by (simp add: isChannelJoined_def cm_pending_fields)
  have m: "map_of (channels cm_pending) ''room:lobby'' = Some 0" "0 < length (chans cm_pending)"
    "ch_joinedOnce (chans cm_pending ! 0)"
    by (simp_all add: cm_pending_fields)
  note p = sendMessage_pushes[OF m, where ev = "''msg''" and pl = "''hi''" and r = "''ok''"
      and er = "''denied''"]
  from p have "sendMessage_begin ''room:lobby'' ''msg'' ''hi'' cm_pending
        = (SPending 0, upd_chan 0 (\<lambda>ch. ch\<lparr> ch_pushes := ch_pushes ch @ [(''msg'', ''hi'')] \<rparr>)
                         cm_pending)" by blast
  then have c: "fst (sendMessage_begin ''room:lobby'' ''msg'' ''hi'' cm_pending) = SPending 0"
    by simp
  from p have "ch_pushes (chans (snd (sendMessage_begin ''room:lobby'' ''msg'' ''hi'' cm_pending)) ! 0)
     = ch_pushes (chans cm_pending ! 0) @ [(''msg'', ''hi'')]" by blast
  then have d: "ch_pushes (chans (snd (sendMessage_begin ''room:lobby'' ''msg'' ''hi'' cm_pending)) ! 0)
     = [(''msg'', ''hi'')]"
    unfolding cm_pending_fields by simp
  have e: "fst (sendMessage ''room:lobby'' ''msg'' ''hi'' (PushOk ''ok'') cm_pending) = Inr ''ok''"
    using p by blast
  show ?thesis using a b c d e cm_pending_run by simp
qed

theorem send_message_outcomes_witness:
  "map_of (channels cm_pending) ''room:none'' = None \<and>
   sendMessage ''room:none'' ''msg'' ''hi'' PushTimeout cm_pending
     = (Inl (JsError ''Channel room:none not found'' (Some ''CHANNEL_NOT_FOUND'')), cm_pending) \<and>
   map_of (channels cm_pending) ''room:lobby'' = Some 0 \<and> 0 < length (chans cm_pending) \<and>
   ch_joinedOnce (chans cm_pending ! 0) \<and>
   fst (sendMessage_begin ''room:lobby'' ''msg'' ''hi'' cm_pending) = SPending 0 \<and>
   ch_pushes (chans (snd (sendMessage_begin ''room:lobby'' ''msg'' ''hi'' cm_pending)) ! 0)
     = [(''msg'', ''hi'')] \<and>
   fst (sendMessage ''room:lobby'' ''msg'' ''hi'' (PushOk ''ok'') cm_pending) = Inr ''ok'' \<and>
   map_of (channelStates (snd (sendMessage ''room:lobby'' ''msg'' ''hi'' (PushOk ''ok'') cm_pending)))
       ''room:lobby''
     = Some \<lparr> cs_topic = ''room:lobby'', cs_status = ChJoining, cs_error = None,
              cs_lastJoined = None, cs_lastLeft = None, messageCount = 1 \<rparr> \<and>
   fst (sendMessage ''room:lobby'' ''msg'' ''hi'' (PushError ''denied'') cm_pending)
     = Inl (JsError ''Message failed: denied'' (Some ''MESSAGE_ERROR'')) \<and>
   fst (sendMessage ''room:lobby'' ''msg'' ''hi'' PushTimeout cm_pending)
     = Inl (JsError ''Message timeout'' (Some ''MESSAGE_TIMEOUT'')) \<and>
   map_of (channels (run [OpJoinBegin ''room:lobby'' []] (new_channel_manager (Some 0) 0)))
       ''room:lobby'' = Some 0 \<and>
   map_of (channelStates (run [OpJoinBegin ''room:lobby'' []] (new_channel_manager (Some 0) 0)))
       ''room:lobby'' \<noteq> None \<and>
   cm_inv cm_empty \<and>
   fst (joinChannel_begin ''room:lobby'' [] cm_empty) = JPending 0 \<and>
   ch_pushes (chans (snd (sendMessage_begin ''room:lobby'' ''msg'' ''hi''
                            (snd (joinChannel_begin ''room:lobby'' [] cm_empty)))) ! 0)
     = [(''msg'', ''hi'')] \<and>
   fst (sendMessage ''room:lobby'' ''msg'' ''hi'' (PushOk ''ok'')
          (snd (joinChannel_begin ''room:lobby'' [] cm_empty))) = Inr ''ok''"
proof -
  have n: "map_of (channels cm_pending) ''room:none'' = None"
    and f: "map_of (channels cm_pending) ''room:lobby'' = Some 0 \<and> 0 < length (chans cm_pending) \<and>
            ch_joinedOnce (chans cm_pending ! 0)"
    by (simp_all add: cm_pending_fields)
  have r: "run [OpJoinBegin ''room:lobby'' []] (new_channel_manager (Some 0) 0) = cm_pending"
    by (simp add: cm_pending_run cm_empty_def)
  have i: "cm_inv cm_empty"
    by (simp add: cm_empty_def new_channel_manager_def cm_inv_def handles_valid_def
        handlers_once_def joined_once_def)
  have p: "fst (joinChannel_begin ''room:lobby'' [] cm_empty) = JPending 0"
    by (simp add: cm_pending_eq)
  have sp: "snd (joinChannel_begin ''room:lobby'' [] cm_empty) = cm_pending"
    by (simp add: cm_pending_def)
  note T1 = send_message_outcomes[where s = cm_pending and t = "''room:lobby''" and k = 0
      and ev = "''msg''" and pl = "''hi''" and r = "''ok''" and er = "''denied''"
      and ops = "[OpJoinBegin ''room:lobby'' []]" and sock = "Some 0" and now = 0, unfolded r]
  note T2 = send_message_outcomes[where s = cm_pending and t = "''room:none''"
      and ev = "''msg''" and pl = "''hi''" and ack = PushTimeout]
  note T3 = send_message_outcomes[where s = cm_empty and t = "''room:lobby''"
      and ev = "''msg''" and pl = "''hi''" and r = "''ok''" and ps = "[]" and c = 0, unfolded sp]
  from T2 n have a: "sendMessage ''room:none'' ''msg'' ''hi'' PushTimeout cm_pending
     = (Inl (createError (''Channel '' @ ''room:none'' @ '' not found'') (Some ''CHANNEL_NOT_FOUND'')),
        cm_pending)" by blast
  from T1 f have "sendMessage_begin ''room:lobby'' ''msg'' ''hi'' cm_pending
        = (SPending 0, upd_chan 0 (\<lambda>ch. ch\<lparr> ch_pushes := ch_pushes ch @ [(''msg'', ''hi'')] \<rparr>)
                         cm_pending)" by blast
  then have b0: "fst (sendMessage_begin ''room:lobby'' ''msg'' ''hi'' cm_pending) = SPending 0"
    by simp
  from T1 f have bp: "ch_pushes (chans (snd (sendMessage_begin ''room:lobby'' ''msg'' ''hi'' cm_pending)) ! 0)
        = ch_pushes (chans cm_pending ! 0) @ [(''msg'', ''hi'')]" by blast
  from T1 f have b1: "fst (sendMessage ''room:lobby'' ''msg'' ''hi'' (PushOk ''ok'') cm_pending) = Inr ''ok''"
    and b2: "\<forall>st. map_of (channelStates cm_pending) ''room:lobby'' = Some st \<longrightarrow>
         map_of (channelStates (snd (sendMessage ''room:lobby'' ''msg'' ''hi'' (PushOk ''ok'') cm_pending)))
            ''room:lobby'' = Some (st\<lparr> messageCount := messageCount st + 1 \<rparr>)"
    and b3: "sendMessage ''room:lobby'' ''msg'' ''hi'' (PushError ''denied'') cm_pending
        = (Inl (createError (''Message failed: '' @ ''denied'') (Some ''MESSAGE_ERROR'')),
           snd (sendMessage_begin ''room:lobby'' ''msg'' ''hi'' cm_pending))"
    and b4: "sendMessage ''room:lobby'' ''msg'' ''hi'' PushTimeout cm_pending
        = (Inl (createError ''Message timeout'' (Some ''MESSAGE_TIMEOUT'')),
           snd (sendMessage_begin ''room:lobby'' ''msg'' ''hi'' cm_pending))"
    by blast+
  from T1 f have d: "map_of (channelStates cm_pending) ''room:lobby'' \<noteq> None" by blast
  from T3 i p have e1: "ch_pushes (chans (snd (sendMessage_begin ''room:lobby'' ''msg'' ''hi''
                            cm_pending)) ! 0)
        = ch_pushes (chans cm_pending ! 0) @ [(''msg'', ''hi'')]"
    and e2: "fst (sendMessage ''room:lobby'' ''msg'' ''hi'' (PushOk ''ok'') cm_pending) = Inr ''ok''"
    by blast+
  have c: "map_of (channelStates (snd (sendMessage ''room:lobby'' ''msg'' ''hi'' (PushOk ''ok'') cm_pending)))
       ''room:lobby''
     = Some \<lparr> cs_topic = ''room:lobby'', cs_status = ChJoining, cs_error = None,
              cs_lastJoined = None, cs_lastLeft = None, messageCount = 1 \<rparr>"
    using b2 by (simp add: cm_pending_fields)
  have bp': "ch_pushes (chans (snd (sendMessage_begin ''room:lobby'' ''msg'' ''hi'' cm_pending)) ! 0)
        = [(''msg'', ''hi'')]"
    using bp by (simp add: cm_pending_fields)
  show ?thesis using n f a b0 bp' b1 c b3 b4 d e1 e2 i p
    unfolding r sp by (simp add: createError_def cm_pending_fields)
qed

section \<open>Message listeners\<close>

lemma entry_update: "entry (AList.update k v al) k' = (if k' = k then v else entry al k')"
  by (simp add: entry_def AList.update_conv')

lemma entry_delete: "entry (AList.delete k al) k' = (if k' = k then [] else entry al k')"
  by (simp add: entry_def AList.delete_conv')

lemma entry_ensure: "entry (ensure k al) k' = entry al k'"
  by (simp add: ensure_def entry_update) (simp add: entry_def)

lemma deliver_channel_on:
  "c < length (chans s) \<Longrightarrow>
   deliver c' e' (upd_chan c (channel_on e cb) s)
     = (if c' = c \<and> e' = e then deliver c e s @ [cb] else deliver c' e' s)"
  by (auto simp: deliver_def upd_chan_def channel_on_def nth_list_update)

text \<open>
  \<open>channel.off\<close> given a function removes no binding: a binding's number is never a
  function.
\<close>

lemma channel_off_function: "channel_off e (RefFunction cb) = (\<lambda>ch. ch)"
proof (rule ext)
  fix ch :: channel_obj
  have "filter (\<lambda>(e', r, cb'). \<not> (e' = e \<and> (RefFunction cb = RefUndefined \<or> RefFunction cb = RefNumber r)))
          (ch_bindings ch) = ch_bindings ch"
    by (rule filter_True) auto
  then show "channel_off e (RefFunction cb) ch = ch" by (simp add: channel_off_def)
qed

lemma upd_chan_id: "upd_chan c (\<lambda>ch. ch) s = s"
  by (simp add: upd_chan_def)

text \<open>What one \<open>onMessage\<close> call does on a topic with a channel.\<close>

lemma onMessage_step:
  assumes "map_of (channels s) t = Some c" and "c < length (chans s)"
  shows "listeners t e (onMessage t e cb s)
           = (if length (listeners t e s) \<ge> maxListenersPerEvent s \<or> cb \<in> set (listeners t e s)
              then listeners t e s else listeners t e s @ [cb]) \<and>
         deliver c e (onMessage t e cb s)
           = (if length (listeners t e s) \<ge> maxListenersPerEvent s \<or> cb \<in> set (listeners t e s)
              then deliver c e s else deliver c e s @ [cb]) \<and>
         cm_warnings (onMessage t e cb s)
           = (if length (listeners t e s) \<ge> maxListenersPerEvent s
              then cm_warnings s @ [''[ChannelManager] Maximum listeners (''
                                    @ show_nat (maxListenersPerEvent s) @ '') exceeded for ''
                                    @ t @ '':'' @ e]
              else cm_warnings s)"
proof -
  let ?ml1 = "ensure t (messageListeners s)"
  let ?tl = "ensure e (entry ?ml1 t)"
  let ?el = "entry ?tl e"
  let ?w = "''[ChannelManager] Maximum listeners ('' @ show_nat (maxListenersPerEvent s)
            @ '') exceeded for '' @ t @ '':'' @ e"
  have el: "?el = listeners t e s" by (simp add: listeners_def entry_ensure)
  let ?s1 = "s\<lparr> messageListeners := AList.update t ?tl ?ml1 \<rparr>"
  have l1: "listeners t e ?s1 = listeners t e s"
    by (simp add: listeners_def entry_update entry_ensure)
  have d1: "deliver c e ?s1 = deliver c e s" by (simp add: deliver_def)
  show ?thesis
  proof (cases "length (listeners t e s) \<ge> maxListenersPerEvent s")
    case True
    then have "onMessage t e cb s = cm_warn ?w ?s1"
      using assms(1) el by (simp add: onMessage_def Let_def)
    then show ?thesis using True l1 d1 by (simp add: listeners_def deliver_def)
  next
    case False
    show ?thesis
    proof (cases "cb \<in> set (listeners t e s)")
      case True
      then have "onMessage t e cb s = ?s1"
        using assms(1) el False by (simp add: onMessage_def Let_def)
      then show ?thesis using True False l1 d1 by simp
    next
      case nin: False
      let ?s2 = "upd_chan c (channel_on e cb)
                     (?s1\<lparr> messageListeners :=
                            AList.update t (AList.update e (?el @ [cb]) ?tl) ?ml1 \<rparr>)"
      have eq: "onMessage t e cb s = ?s2"
        using assms(1) el False nin by (simp add: onMessage_def Let_def)
      have l2: "listeners t e ?s2 = listeners t e s @ [cb]"
        using el by (simp add: listeners_def entry_update)
      have d2: "deliver c e ?s2 = deliver c e s @ [cb]"
        using assms(2) by (simp add: deliver_channel_on) (simp add: deliver_def)
      show ?thesis using False nin l2 d2 by (simp add: eq)
    qed
  qed
qed

lemma onMessage_fold:
  assumes "map_of (channels s) t = Some c" and "c < length (chans s)"
    and "distinct (listeners t e s @ cbs)"
  shows "listeners t e (fold (onMessage t e) cbs s)
           = listeners t e s @ take (maxListenersPerEvent s - length (listeners t e s)) cbs \<and>
         deliver c e (fold (onMessage t e) cbs s)
           = deliver c e s @ take (maxListenersPerEvent s - length (listeners t e s)) cbs \<and>
         cm_warnings (fold (onMessage t e) cbs s)
           = cm_warnings s
             @ replicate (length cbs - (maxListenersPerEvent s - length (listeners t e s)))
                 (''[ChannelManager] Maximum listeners ('' @ show_nat (maxListenersPerEvent s)
                  @ '') exceeded for '' @ t @ '':'' @ e)"
  using assms
proof (induction cbs arbitrary: s)
  case Nil
  then show ?case by simp
next
  case (Cons cb cbs)
  let ?s' = "onMessage t e cb s"
  let ?w = "''[ChannelManager] Maximum listeners ('' @ show_nat (maxListenersPerEvent s)
            @ '') exceeded for '' @ t @ '':'' @ e"
  note st = onMessage_step[OF Cons.prems(1,2), of e cb]
  have p1: "map_of (channels ?s') t = Some c" using Cons.prems(1) by simp
  have p2: "c < length (chans ?s')" using Cons.prems(2) by simp
  have nin: "cb \<notin> set (listeners t e s)" using Cons.prems(3) by auto
  show ?case
  proof (cases "length (listeners t e s) \<ge> maxListenersPerEvent s")
    case True
    then have l: "listeners t e ?s' = listeners t e s" and d: "deliver c e ?s' = deliver c e s"
      and w: "cm_warnings ?s' = cm_warnings s @ [?w]"
      using st by simp_all
    have p3: "distinct (listeners t e ?s' @ cbs)" using Cons.prems(3) l by simp
    from Cons.IH[OF p1 p2 p3] show ?thesis using True l d w
      by (simp add: replicate_append_same)
  next
    case False
    then have l: "listeners t e ?s' = listeners t e s @ [cb]"
      and d: "deliver c e ?s' = deliver c e s @ [cb]"
      and w: "cm_warnings ?s' = cm_warnings s"
      using st nin by simp_all
    have p3: "distinct (listeners t e ?s' @ cbs)" using Cons.prems(3) l by simp
    have m: "maxListenersPerEvent s - length (listeners t e s)
               = Suc (maxListenersPerEvent s - Suc (length (listeners t e s)))"
      using False by simp
    from Cons.IH[OF p1 p2 p3] show ?thesis using False l d w
      by (simp add: m)
  qed
qed

text \<open>
  What \<open>offMessage\<close> does: the callback leaves the manager's registry, and the channel
  object keeps every binding, so the callback is still called.
\<close>

lemma offMessage_chans_same: "chans (offMessage t e cb s) = chans s"
  by (simp add: offMessage_def Let_def channel_off_function upd_chan_id split: option.splits)

lemma offMessage_deliver: "deliver c e' (offMessage t e cb s) = deliver c e' s"
  by (simp add: deliver_def offMessage_chans_same)

lemma offMessage_listeners:
  "listeners t e (offMessage t e cb s) = filter (\<lambda>y. y \<noteq> cb) (listeners t e s)"
proof (cases "map_of (messageListeners s) t")
  case None
  then show ?thesis by (simp add: offMessage_def listeners_def entry_def)
next
  case tl: (Some tl)
  show ?thesis
  proof (cases "map_of tl e")
    case None
    then show ?thesis using tl by (simp add: offMessage_def listeners_def entry_def)
  next
    case el: (Some el)
    have ls: "listeners t e s = el" using tl el by (simp add: listeners_def entry_def)
    let ?el1 = "set_delete cb el"
    let ?tl1 = "if length ?el1 = 0 then AList.delete e tl else AList.update e ?el1 tl"
    have ml: "messageListeners (offMessage t e cb s)
                = (if length ?tl1 = 0 then AList.delete t (messageListeners s)
                   else AList.update t ?tl1 (messageListeners s))"
      using tl el
      by (simp add: offMessage_def Let_def channel_off_function upd_chan_id split: option.splits)
    have e1: "entry ?tl1 e = ?el1" by (simp add: entry_update entry_delete)
    have "entry (entry (messageListeners (offMessage t e cb s)) t) e = ?el1"
    proof (cases "length ?tl1 = 0")
      case True
      then have "?tl1 = []" by simp
      then have "entry ?tl1 e = []" by (simp add: entry_def)
      then have "?el1 = []" using e1 by simp
      then show ?thesis using True ml by (simp add: entry_delete) (simp add: entry_def)
    next
      case False
      then show ?thesis using ml e1 by (simp add: entry_update)
    qed
    then show ?thesis using ls by (simp add: listeners_def set_delete_def)
  qed
qed

lemma cm_off_fields:
  "map_of (channels cm_off) ''room:lobby'' = Some 0" "0 < length (chans cm_off)"
  "listeners ''room:lobby'' ''msg'' cm_off = []" "deliver 0 ''msg'' cm_off = [7]"
  "maxListenersPerEvent cm_off = 10" "cm_warnings cm_off = []"
proof -
  let ?s1 = "onMessage ''room:lobby'' ''msg'' 7 cm_pending"
  have m: "map_of (channels cm_pending) ''room:lobby'' = Some 0" "0 < length (chans cm_pending)"
    by (simp_all add: cm_pending_fields)
  have l0: "listeners ''room:lobby'' ''msg'' cm_pending = []"
    by (simp add: listeners_def entry_def cm_pending_fields)
  have d0: "deliver 0 ''msg'' cm_pending = []"
    by (simp add: deliver_def cm_pending_fields)
  note st = onMessage_step[OF m, of "''msg''" 7]
  have l1: "listeners ''room:lobby'' ''msg'' ?s1 = [7]" and d1: "deliver 0 ''msg'' ?s1 = [7]"
    and w1: "cm_warnings ?s1 = []"
    using st by (simp_all add: l0 d0 cm_pending_fields)
  have "length (chans cm_off) = 1"
    by (simp add: cm_off_def offMessage_chans_same cm_pending_fields)
  then show "0 < length (chans cm_off)" by simp
  show "map_of (channels cm_off) ''room:lobby'' = Some 0"
    by (simp add: cm_off_def cm_pending_fields)
  have "maxListenersPerEvent (offMessage t e cb s) = maxListenersPerEvent s" for t e cb s
    by (simp add: offMessage_def Let_def split: option.splits)
  then show "maxListenersPerEvent cm_off = 10"
    by (simp add: cm_off_def cm_pending_fields)
  show "listeners ''room:lobby'' ''msg'' cm_off = []"
    unfolding cm_off_def offMessage_listeners l1 by simp
  show "deliver 0 ''msg'' cm_off = [7]"
    unfolding cm_off_def offMessage_deliver d1 by simp
  have "cm_warnings (offMessage t e cb s) = cm_warnings s" for t e cb s
    by (simp add: offMessage_def Let_def channel_off_function upd_chan_id split: option.splits)
  then show "cm_warnings cm_off = []" using w1 by (simp add: cm_off_def)
qed

lemma cm_off_run:
  "cm_off = run [OpJoinBegin ''room:lobby'' [], OpOnMessage ''room:lobby'' ''msg'' 7,
                 OpOffMessage ''room:lobby'' ''msg'' 7] (new_channel_manager (Some 0) 0)"
  by (simp add: run_def cm_off_def cm_pending_def cm_empty_def)

lemma cm_off_full_fields:
  "map_of (channels cm_off_full) ''room:lobby'' = Some 0" "0 < length (chans cm_off_full)"
  "listeners ''room:lobby'' ''msg'' cm_off_full = [1, 2, 3, 4, 5, 6, 8, 9, 10, 11]"
  "deliver 0 ''msg'' cm_off_full = [7, 1, 2, 3, 4, 5, 6, 8, 9, 10, 11]"
  "maxListenersPerEvent cm_off_full = 10" "cm_warnings cm_off_full = []"
proof -
  have fm: "map_of (channels (fold (onMessage t e) cbs s)) t' = map_of (channels s) t' \<and>
            length (chans (fold (onMessage t e) cbs s)) = length (chans s) \<and>
            maxListenersPerEvent (fold (onMessage t e) cbs s) = maxListenersPerEvent s"
    for t e cbs s t'
    by (induction cbs arbitrary: s) simp_all
  have d: "distinct (listeners ''room:lobby'' ''msg'' cm_off @ [1, 2, 3, 4, 5, 6, 8, 9, 10, 11 :: nat])"
    by (simp add: cm_off_fields)
  note f = onMessage_fold[OF cm_off_fields(1,2) d]
  note fm' = fm[of "''room:lobby''" "''msg''" "[1, 2, 3, 4, 5, 6, 8, 9, 10, 11]" cm_off
      "''room:lobby''", folded cm_off_full_def]
  show "map_of (channels cm_off_full) ''room:lobby'' = Some 0"
    using fm' by (simp add: cm_off_fields)
  have "length (chans cm_off_full) = length (chans cm_off)" using fm' by blast
  then show "0 < length (chans cm_off_full)" using cm_off_fields(2) by simp
  show "maxListenersPerEvent cm_off_full = 10" using fm' by (simp add: cm_off_fields)
  show "listeners ''room:lobby'' ''msg'' cm_off_full = [1, 2, 3, 4, 5, 6, 8, 9, 10, 11]"
    unfolding cm_off_full_def using f[THEN conjunct1] by (simp add: cm_off_fields)
  show "deliver 0 ''msg'' cm_off_full = [7, 1, 2, 3, 4, 5, 6, 8, 9, 10, 11]"
    unfolding cm_off_full_def using f[THEN conjunct2, THEN conjunct1] by (simp add: cm_off_fields)
  show "cm_warnings cm_off_full = []"
    unfolding cm_off_full_def using f[THEN conjunct2, THEN conjunct2] by (simp add: cm_off_fields)
qed

text \<open>
  C9 fails on the code. The callback 7 is registered for \<open>msg\<close> on a topic with a channel and
  removed again with \<open>offMessage\<close>: the registry no longer lists it, and the channel object
  still holds its binding. Registered twice after that, it is listed once and bound a
  second time, so that a message of the event calls it twice. And with ten other
  callbacks registered, its registration is dropped at the cap with the warning, and a
  message of the event calls it all the same.
\<close>

theorem on_message_after_off:
  "cm_off = run [OpJoinBegin ''room:lobby'' [], OpOnMessage ''room:lobby'' ''msg'' 7,
                 OpOffMessage ''room:lobby'' ''msg'' 7] (new_channel_manager (Some 0) 0) \<and>
   listeners ''room:lobby'' ''msg'' cm_off = [] \<and>
   deliver 0 ''msg'' cm_off = [7] \<and>
   listeners ''room:lobby'' ''msg''
     (onMessage ''room:lobby'' ''msg'' 7 (onMessage ''room:lobby'' ''msg'' 7 cm_off)) = [7] \<and>
   deliver 0 ''msg''
     (onMessage ''room:lobby'' ''msg'' 7 (onMessage ''room:lobby'' ''msg'' 7 cm_off)) = [7, 7] \<and>
   listeners ''room:lobby'' ''msg'' cm_off_full = [1, 2, 3, 4, 5, 6, 8, 9, 10, 11] \<and>
   listeners ''room:lobby'' ''msg'' (onMessage ''room:lobby'' ''msg'' 7 cm_off_full)
     = [1, 2, 3, 4, 5, 6, 8, 9, 10, 11] \<and>
   cm_warnings (onMessage ''room:lobby'' ''msg'' 7 cm_off_full)
     = [''[ChannelManager] Maximum listeners (10) exceeded for room:lobby:msg''] \<and>
   deliver 0 ''msg'' (onMessage ''room:lobby'' ''msg'' 7 cm_off_full)
     = [7, 1, 2, 3, 4, 5, 6, 8, 9, 10, 11]"
proof -
  let ?s1 = "onMessage ''room:lobby'' ''msg'' 7 cm_off"
  note st1 = onMessage_step[OF cm_off_fields(1,2), of "''msg''" 7]
  have l1: "listeners ''room:lobby'' ''msg'' ?s1 = [7]" and d1: "deliver 0 ''msg'' ?s1 = [7, 7]"
    using st1 by (simp_all add: cm_off_fields)
  have p: "map_of (channels ?s1) ''room:lobby'' = Some 0" "maxListenersPerEvent ?s1 = 10"
    by (simp_all add: cm_off_fields)
  have "length (chans ?s1) = length (chans cm_off)" by simp
  then have p2: "0 < length (chans ?s1)" using cm_off_fields(2) by simp
  note st2 = onMessage_step[OF p(1) p2, of "''msg''" 7]
  have l2: "listeners ''room:lobby'' ''msg'' (onMessage ''room:lobby'' ''msg'' 7 ?s1) = [7]"
    and d2: "deliver 0 ''msg'' (onMessage ''room:lobby'' ''msg'' 7 ?s1) = [7, 7]"
    using st2 by (simp_all add: l1 d1 p)
  note st3 = onMessage_step[OF cm_off_full_fields(1,2), of "''msg''" 7]
  have l3: "listeners ''room:lobby'' ''msg'' (onMessage ''room:lobby'' ''msg'' 7 cm_off_full)
              = [1, 2, 3, 4, 5, 6, 8, 9, 10, 11]"
    and d3: "deliver 0 ''msg'' (onMessage ''room:lobby'' ''msg'' 7 cm_off_full)
              = [7, 1, 2, 3, 4, 5, 6, 8, 9, 10, 11]"
    and w3: "cm_warnings (onMessage ''room:lobby'' ''msg'' 7 cm_off_full)
              = [''[ChannelManager] Maximum listeners (10) exceeded for room:lobby:msg'']"
    using st3 by (simp_all add: cm_off_full_fields show_nat_10)
  show ?thesis
    using cm_off_run cm_off_fields(3,4) l2 d2 cm_off_full_fields(3) l3 w3 d3 by blast
qed

section \<open>The concrete states are reached\<close>

text \<open>The channel manager with \<open>n\<close> joined topics is what \<open>n\<close> acknowledged joins leave of a new
  manager, for every \<open>n\<close> up to the cap; the event manager \<open>em18\<close> is a new one after 18
  registrations of one handler.\<close>

lemma cm_joined_0: "cm_joined 0 = new_channel_manager (Some 0) 0"
  by (simp add: cm_joined_def new_channel_manager_def)

lemma update_last_key:
  "map_of al k = None \<Longrightarrow> AList.update k v (al @ [(k, w)]) = al @ [(k, v)]"
  by (induction al) (auto split: if_splits)

lemma list_update_last: "length xs = n \<Longrightarrow> (xs @ [a])[n := b] = xs @ [b]"
  by auto

lemma cm_joined_begin:
  assumes "n < 50"
  shows "joinChannel_begin (topic_n n) [] (cm_joined n) =
     (JPending n,
      (cm_joined n)\<lparr> channels := channels (cm_joined n) @ [(topic_n n, n)],
         channelStates := channelStates (cm_joined n) @
            [(topic_n n, \<lparr> cs_topic = topic_n n, cs_status = ChJoining, cs_error = None,
                            cs_lastJoined = None, cs_lastLeft = None, messageCount = 0 \<rparr>)],
         chans := chans (cm_joined n) @
            [(joined_chan (topic_n n))\<lparr> ch_state := ''joining'' \<rparr>] \<rparr>)"
proof -
  have csn: "map_of (channelStates (cm_joined n)) (topic_n n) = None"
    by (simp add: cm_joined_def map_of_topics_None)
  have len: "length (chans (cm_joined n)) = n" by (simp add: cm_joined_fields)
  show ?thesis
    using assms csn
    by (simp add: joinChannel_begin_create cm_joined_fields updateChannelState_def
        update_new_key socket_channel_def setupChannelHandlers_def upd_chan_def
        joined_chan_def nth_append list_update_last)
qed

lemma cm_joined_Suc:
  assumes "n < 50"
  shows "run [OpJoinBegin (topic_n n) [], OpTransportState n ''joined'',
              OpJoinSettle (topic_n n) n (JoinOk r)] (cm_joined n) = cm_joined (Suc n)"
proof -
  have csn: "map_of (channelStates (cm_joined n)) (topic_n n) = None"
    by (simp add: cm_joined_def map_of_topics_None)
  have len: "length (chans (cm_joined n)) = n" by (simp add: cm_joined_fields)
  have upd: "AList.update (topic_n n) v (channelStates (cm_joined n) @ [(topic_n n, w)])
             = channelStates (cm_joined n) @ [(topic_n n, v)]" for v w
    using csn by (rule update_last_key)
  show ?thesis
    unfolding run_def
    by (simp add: cm_joined_begin[OF assms] transport_state_def upd_chan_def len
        list_update_last joinChannel_settle_def updateChannelState_def csn upd map_add_def cm_emit_def
        EV_CHANNEL_JOIN_def, simp add: cm_joined_def joined_chan_def joined_state_def
        nth_append)
qed

lemma em_on_repeat:
  "0 < n \<Longrightarrow> n \<le> 20 \<Longrightarrow>
   (em_on e h ^^ n) new_event_manager =
     \<lparr> em_emitter = [(e, [h])], em_maxListenersPerEvent = 20,
       em_listenerCounts = [(e, n)], em_warnings = [] \<rparr>"
proof (induction n)
  case 0
  then show ?case by simp
next
  case (Suc n)
  show ?case
  proof (cases "n = 0")
    case True
    then show ?thesis
      by (simp add: em_on_def new_event_manager_def currentCount_def emitter_on_def set_add_def)
  next
    case False
    then have "(em_on e h ^^ n) new_event_manager =
       \<lparr> em_emitter = [(e, [h])], em_maxListenersPerEvent = 20,
         em_listenerCounts = [(e, n)], em_warnings = [] \<rparr>"
      using Suc by simp
    then have step: "(em_on e h ^^ Suc n) new_event_manager =
       em_on e h \<lparr> em_emitter = [(e, [h])], em_maxListenersPerEvent = 20,
         em_listenerCounts = [(e, n)], em_warnings = [] \<rparr>"
      by simp
    show ?thesis unfolding step using Suc.prems
      by (simp add: em_on_def currentCount_def emitter_on_def set_add_def)
  qed
qed

lemma em18_reached: "em18 = (em_on ''phoenix_error'' 1 ^^ 18) new_event_manager"
  unfolding em18_def by (subst em_on_repeat) simp_all

lemma run_append: "run (xs @ ys) s = run ys (run xs s)"
  by (simp add: run_def)

lemma cm_joined_reached:
  "n \<le> 50 \<Longrightarrow> \<exists>ops. run ops (new_channel_manager (Some 0) 0) = cm_joined n"
proof (induction n)
  case 0
  have "run [] (new_channel_manager (Some 0) 0) = cm_joined 0"
    by (simp add: run_def cm_joined_0)
  then show ?case by blast
next
  case (Suc n)
  then obtain ops where o: "run ops (new_channel_manager (Some 0) 0) = cm_joined n" by auto
  have "n < 50" using Suc.prems by simp
  from cm_joined_Suc[OF this, of "[]"]
  have "run (ops @ [OpJoinBegin (topic_n n) [], OpTransportState n ''joined'',
                    OpJoinSettle (topic_n n) n (JoinOk [])])
          (new_channel_manager (Some 0) 0) = cm_joined (Suc n)"
    unfolding run_append o .
  then show ?case by blast
qed

lemma cm_full_reached: "\<exists>ops. run ops (new_channel_manager (Some 0) 0) = cm_full"
  unfolding cm_full_def by (rule cm_joined_reached) simp

end
